(* ===== verification/Prelude.thy ===== *)
theory Prelude
  imports Main
begin

text \<open>
  Shared vocabulary of the development.

  \<^item> The types every component uses: identifiers, timestamps, and the error enum of
    \<^verbatim>\<open>gateway/src/error.rs\<close> together with its HTTP mapping (\<open>into_response\<close>).
  \<^item> Rust's \<open>String\<close> as a HOL \<open>string\<close> holding its UTF-8 bytes, so that
    \<open>length\<close> is \<open>str::len\<close>; the functions of \<open>str\<close> the gateway calls are
    defined on it, and those that panic outside a character boundary return an option.
  \<^item> The collections \<open>table_simps\<close> (facts on rows and tables), \<open>row_simps\<close>
    (record projections after an update), \<open>text_simps\<close> (strings) and \<open>error_simps\<close>
    (success of a chain of fallible calls).
\<close>

section \<open>Collections and types\<close>

named_theorems table_simps "facts on tables of rows"
named_theorems row_simps "projections of updated rows"
named_theorems text_simps "facts on Rust strings"
named_theorems error_simps "success of a chain of fallible calls"

text \<open>
  A UUID is an opaque identifier; every generator the gateway uses (\<open>Uuid::now_v7()\<close>
  and the \<open>uuidv7()\<close> column default) returns time-ordered identifiers that were not
  handed out before, so identifiers are drawn from an increasing supply of naturals.
  A timestamp is a number of microseconds, Postgres' resolution.
\<close>

type_synonym uuid = nat
type_synonym timestamp = int

definition seconds :: "int \<Rightarrow> timestamp" where
  "seconds s = s * 1000000"

section \<open>Errors (error.rs)\<close>

datatype AppError =
    BadRequest string
  | Unauthorized
  | Forbidden
  | NotFound
  | Conflict string
  | InvalidWebhookSignature
  | Upstream string
  | Internal string

type_synonym 'a result = "AppError + 'a"

text \<open>\<open>IntoResponse for AppError\<close>: status code, machine-readable code, message.\<close>

fun into_response :: "AppError \<Rightarrow> nat \<times> string \<times> string" where
  "into_response (BadRequest message) = (400, ''bad_request'', message)"
| "into_response Unauthorized = (401, ''unauthorized'', ''authentication is required'')"
| "into_response Forbidden =
     (403, ''forbidden'', ''you do not have permission to perform this action'')"
| "into_response NotFound = (404, ''not_found'', ''the requested resource was not found'')"
| "into_response (Conflict message) = (409, ''conflict'', message)"
| "into_response InvalidWebhookSignature =
     (401, ''invalid_webhook_signature'', ''the GitHub webhook signature is invalid'')"
| "into_response (Upstream detail) =
     (502, ''upstream_error'', ''GitHub could not complete the request'')"
| "into_response (Internal detail) =
     (500, ''internal_error'', ''an internal error occurred'')"

lemma into_response_is_error: "400 \<le> fst (into_response e) \<and> fst (into_response e) < 600"
  by (cases e) simp_all

text \<open>A chain of \<open>?\<close> operators succeeds exactly when every link does.\<close>

lemma case_sum_Inr [error_simps]:
  "(case x of Inl e \<Rightarrow> Inl (g e) | Inr y \<Rightarrow> f y) = Inr z \<longleftrightarrow> (\<exists>y. x = Inr y \<and> f y = Inr z)"
  by (cases x) simp_all

lemma case_option_Inr [error_simps]:
  "(case x of None \<Rightarrow> Inl e | Some y \<Rightarrow> f y) = Inr z \<longleftrightarrow> (\<exists>y. x = Some y \<and> f y = Inr z)"
  by (cases x) simp_all

lemma map_sum_Inr [error_simps]: "map_sum f g x = Inr z \<longleftrightarrow> (\<exists>y. x = Inr y \<and> g y = z)"
  by (cases x) simp_all

lemma if_Inr [error_simps]: "(if c then Inl e else y) = Inr z \<longleftrightarrow> \<not> c \<and> y = Inr z"
  by simp

section \<open>Options\<close>

text \<open>\<open>Option::or\<close>, which is also SQL's \<open>COALESCE\<close> of two arguments.\<close>

fun coalesce :: "'a option \<Rightarrow> 'a option \<Rightarrow> 'a option" where
  "coalesce (Some x) y = Some x"
| "coalesce None y = y"

lemma coalesce_None2 [simp]: "coalesce x None = x"
  by (cases x) simp_all

lemma coalesce_absorb [simp]: "coalesce x (coalesce x y) = coalesce x y"
  by (cases x) simp_all

lemma coalesce_self [simp]: "coalesce x x = x"
  by (cases x) simp_all

lemma coalesce_eq_None [simp]: "coalesce x y = None \<longleftrightarrow> x = None \<and> y = None"
  by (cases x) simp_all

lemma coalesce_not_None: "y \<noteq> None \<Longrightarrow> coalesce x y \<noteq> None"
  by (cases x) simp_all

text \<open>SQL's \<open>LEAST\<close> of two nullable timestamps: NULL arguments are ignored.\<close>

fun least_opt :: "int option \<Rightarrow> int option \<Rightarrow> int option" where
  "least_opt (Some a) (Some b) = Some (min a b)"
| "least_opt (Some a) None = Some a"
| "least_opt None b = b"

lemma least_opt_None2 [simp]: "least_opt a None = a"
  by (cases a) simp_all

lemma least_opt_absorb [simp]: "least_opt (least_opt a b) b = least_opt a b"
  by (cases a; cases b) simp_all

lemma least_opt_self [simp]: "least_opt a a = a"
  by (cases a) simp_all

section \<open>Lists\<close>

text \<open>\<open>Iterator::find_map\<close>.\<close>

fun find_map :: "('a \<Rightarrow> 'b option) \<Rightarrow> 'a list \<Rightarrow> 'b option" where
  "find_map f [] = None"
| "find_map f (x # xs) = (case f x of Some y \<Rightarrow> Some y | None \<Rightarrow> find_map f xs)"

lemma find_map_append: "find_map f (xs @ ys) = (case find_map f xs of Some y \<Rightarrow> Some y | None \<Rightarrow> find_map f ys)"
  by (induction xs) (simp_all split: option.splits)

lemma find_map_cong_key:
  "(\<And>r. P (f r) = P r) \<Longrightarrow> find P (map f xs) = map_option f (find P xs)"
  by (induction xs) simp_all

lemma find_append: "find P (xs @ ys) = (case find P xs of None \<Rightarrow> find P ys | Some x \<Rightarrow> Some x)"
  by (induction xs) simp_all

lemma find_SomeD: "find P xs = Some x \<Longrightarrow> P x \<and> x \<in> set xs"
  by (induction xs) (auto split: if_splits)

lemma find_None_iff_all: "find P xs = None \<longleftrightarrow> (\<forall>x\<in>set xs. \<not> P x)"
  by (induction xs) auto

lemma find_Some_ex: "x \<in> set xs \<Longrightarrow> P x \<Longrightarrow> \<exists>y. find P xs = Some y"
  by (induction xs) auto

lemma distinct_key_unique:
  "distinct (map key xs) \<Longrightarrow> x \<in> set xs \<Longrightarrow> y \<in> set xs \<Longrightarrow> key x = key y \<Longrightarrow> x = y"
  by (induction xs) (auto simp: image_iff)

lemma find_key_eq:
  assumes "distinct (map key xs)" and "x \<in> set xs"
  shows "find (\<lambda>r. key r = key x) xs = Some x"
proof -
  from assms(2) obtain y where y: "find (\<lambda>r. key r = key x) xs = Some y"
    using find_Some_ex [of x xs "\<lambda>r. key r = key x"] by auto
  then have "key y = key x" and "y \<in> set xs"
    by (auto dest: find_SomeD)
  with assms have "y = x" by (auto dest: distinct_key_unique)
  with y show ?thesis by simp
qed

lemma sum_list_map_mono:
  "(\<And>x. x \<in> set xs \<Longrightarrow> f (g x) \<le> f x) \<Longrightarrow> sum_list (map (\<lambda>x. f (g x)) xs) \<le> sum_list (map f xs)"
  for f :: "'a \<Rightarrow> nat"
  by (rule sum_list_mono)

lemma sum_list_map_strict:
  fixes f :: "'a \<Rightarrow> nat"
  assumes "\<And>x. x \<in> set xs \<Longrightarrow> f (g x) \<le> f x" and "y \<in> set xs" and "f (g y) < f y"
  shows "sum_list (map (\<lambda>x. f (g x)) xs) < sum_list (map f xs)"
  using assms
proof (induction xs)
  case Nil
  then show ?case by simp
next
  case (Cons a xs)
  have le: "sum_list (map (\<lambda>x. f (g x)) xs) \<le> sum_list (map f xs)"
    using Cons.prems(1) by (intro sum_list_map_mono) auto
  show ?case
  proof (cases "y = a")
    case True
    with Cons.prems(3) le show ?thesis by simp
  next
    case False
    with Cons.prems Cons.IH have "sum_list (map (\<lambda>x. f (g x)) xs) < sum_list (map f xs)"
      by simp
    moreover have "f (g a) \<le> f a" using Cons.prems(1) by simp
    ultimately show ?thesis by simp
  qed
qed

lemma sort_key_eq_Nil [simp]: "sort_key f xs = [] \<longleftrightarrow> xs = []"
  by (metis length_0_conv length_sort)

lemma distinct_map_congruent: "(\<And>r. key (f r) = key r) \<Longrightarrow> map key (map f xs) = map key xs"
  by simp

end
