(* ===== verification/Tables.thy ===== *)
theory Tables
  imports Prelude
begin

text \<open>
  Postgres tables as lists of rows in insertion order, and the four statement shapes the
  gateway issues: \<open>SELECT \<dots> fetch_optional\<close> (\<open>find\<close>), \<open>UPDATE \<dots> WHERE\<close>
  (\<open>upd_where\<close>), \<open>DELETE \<dots> WHERE\<close> (\<open>del_where\<close>) and
  \<open>INSERT \<dots> ON CONFLICT (key) DO UPDATE SET\<close> (\<open>upsert\<close>).

  The locale \<open>keyed_table\<close> states what an upsert statement promises about its conflict
  key, its surrogate id and the columns it assigns (\<open>inserted\<close> describes the rows the
  statement inserts, whose remaining columns hold their defaults); the laws are proved once and each
  table's own statement interprets it.
\<close>

section \<open>Statements\<close>

definition upd_where :: "('r \<Rightarrow> bool) \<Rightarrow> ('r \<Rightarrow> 'r) \<Rightarrow> 'r list \<Rightarrow> 'r list" where
  "upd_where P f rows = map (\<lambda>r. if P r then f r else r) rows"

definition del_where :: "('r \<Rightarrow> bool) \<Rightarrow> 'r list \<Rightarrow> 'r list" where
  "del_where P rows = filter (\<lambda>r. \<not> P r) rows"

definition upsert :: "('r \<Rightarrow> 'k) \<Rightarrow> ('r \<Rightarrow> 'r \<Rightarrow> 'r) \<Rightarrow> 'r \<Rightarrow> 'r list \<Rightarrow> 'r list" where
  "upsert key merge new rows =
     (if \<exists>r\<in>set rows. key r = key new
      then upd_where (\<lambda>r. key r = key new) (merge new) rows
      else rows @ [new])"

text \<open>\<open>ON CONFLICT (key) DO NOTHING\<close>.\<close>

definition insert_new :: "('r \<Rightarrow> 'k) \<Rightarrow> 'r \<Rightarrow> 'r list \<Rightarrow> 'r list" where
  "insert_new key new rows = (if \<exists>r\<in>set rows. key r = key new then rows else rows @ [new])"

text \<open>\<open>RETURNING id\<close> of an upsert: the id of the row that carries the conflict key.\<close>

definition returning :: "('r \<Rightarrow> 'k) \<Rightarrow> ('r \<Rightarrow> uuid) \<Rightarrow> 'r \<Rightarrow> 'r list \<Rightarrow> uuid" where
  "returning key rid new rows =
     (case find (\<lambda>r. key r = key new) rows of None \<Rightarrow> rid new | Some r \<Rightarrow> rid r)"

text \<open>
  A foreign key \<open>(column, repository_id)\<close> onto \<open>(id, repository_id)\<close> of another table:
  a null column satisfies it.
\<close>

definition fk_ok :: "uuid option \<Rightarrow> uuid \<Rightarrow> ('r \<Rightarrow> uuid) \<Rightarrow> ('r \<Rightarrow> uuid) \<Rightarrow> 'r list \<Rightarrow> bool" where
  "fk_ok ref repo rid rrepo rows =
     (case ref of None \<Rightarrow> True | Some i \<Rightarrow> \<exists>r\<in>set rows. rid r = i \<and> rrepo r = repo)"

text \<open>\<open>ORDER BY\<close> a comparison: a stable insertion sort (SQL leaves ties open).\<close>

fun insert_by :: "('r \<Rightarrow> 'r \<Rightarrow> bool) \<Rightarrow> 'r \<Rightarrow> 'r list \<Rightarrow> 'r list" where
  "insert_by le x [] = [x]"
| "insert_by le x (y # ys) = (if le x y then x # y # ys else y # insert_by le x ys)"

definition order_by :: "('r \<Rightarrow> 'r \<Rightarrow> bool) \<Rightarrow> 'r list \<Rightarrow> 'r list" where
  "order_by le rows = foldr (insert_by le) rows []"

lemma set_insert_by [simp]: "set (insert_by le x ys) = insert x (set ys)"
  by (induction ys) auto

lemma set_order_by [simp]: "set (order_by le rows) = set rows"
  by (induction rows) (simp_all add: order_by_def)

lemma length_order_by [simp]: "length (order_by le rows) = length rows"
proof -
  have "length (insert_by le x ys) = Suc (length ys)" for x ys by (induction ys) auto
  then show ?thesis by (induction rows) (simp_all add: order_by_def)
qed

lemma sorted_insert_by:
  assumes "\<And>a b. le a b \<or> le b a" and "\<And>a b c. le a b \<Longrightarrow> le b c \<Longrightarrow> le a c" and "sorted_wrt le ys"
  shows "sorted_wrt le (insert_by le x ys)"
  using assms(3)
proof (induction ys)
  case (Cons y ys)
  then show ?case using assms(1) [of x y] assms(2) by (auto split: if_splits)
qed simp

lemma sorted_order_by:
  assumes "\<And>a b. le a b \<or> le b a" and "\<And>a b c. le a b \<Longrightarrow> le b c \<Longrightarrow> le a c"
  shows "sorted_wrt le (order_by le rows)"
  by (induction rows) (simp_all add: order_by_def sorted_insert_by assms(1) sorted_insert_by [OF assms])

section \<open>Facts on updates and deletions\<close>

lemma length_upd_where [simp]: "length (upd_where P f rows) = length rows"
  by (simp add: upd_where_def)

lemma upd_where_Nil [simp]: "upd_where P f [] = []"
  by (simp add: upd_where_def)

lemma upd_where_Cons [simp]:
  "upd_where P f (r # rows) = (if P r then f r else r) # upd_where P f rows"
  by (simp add: upd_where_def)

lemma upd_where_append [simp]:
  "upd_where P f (xs @ ys) = upd_where P f xs @ upd_where P f ys"
  by (simp add: upd_where_def)

lemma set_upd_where: "set (upd_where P f rows) = (\<lambda>r. if P r then f r else r) ` set rows"
  by (simp add: upd_where_def)

lemma upd_where_id: "(\<And>r. r \<in> set rows \<Longrightarrow> P r \<Longrightarrow> f r = r) \<Longrightarrow> upd_where P f rows = rows"
  by (induction rows) auto

lemma map_upd_where:
  "(\<And>r. P r \<Longrightarrow> g (f r) = g r) \<Longrightarrow> map g (upd_where P f rows) = map g rows"
  by (simp add: upd_where_def)

lemma map_del_where_subset: "set (map g (del_where P rows)) \<subseteq> set (map g rows)"
  by (auto simp: del_where_def)

lemma set_del_where [simp]: "set (del_where P rows) = {r \<in> set rows. \<not> P r}"
  by (auto simp: del_where_def)

lemma distinct_del_where: "distinct (map g rows) \<Longrightarrow> distinct (map g (del_where P rows))"
  unfolding del_where_def by (rule distinct_map_filter)

lemma find_upd_where_other:
  "(\<And>r. P r \<Longrightarrow> \<not> Q r) \<Longrightarrow> (\<And>r. P r \<Longrightarrow> \<not> Q (f r)) \<Longrightarrow>
     find Q (upd_where P f rows) = find Q rows"
  by (induction rows) auto

lemma find_upd_where_same:
  "(\<And>r. Q r = P r) \<Longrightarrow> (\<And>r. P r \<Longrightarrow> P (f r)) \<Longrightarrow>
     find Q (upd_where P f rows) = map_option f (find Q rows)"
  by (induction rows) auto

lemma all_upd_where:
  "(\<And>r. r \<in> set rows \<Longrightarrow> I r) \<Longrightarrow> (\<And>r. r \<in> set rows \<Longrightarrow> P r \<Longrightarrow> I r \<Longrightarrow> I (f r)) \<Longrightarrow>
     r \<in> set (upd_where P f rows) \<Longrightarrow> I r"
  by (auto simp: set_upd_where split: if_splits)

lemma all_upsert:
  "(\<And>r. r \<in> set rows \<Longrightarrow> I r) \<Longrightarrow> I new \<Longrightarrow>
   (\<And>r. r \<in> set rows \<Longrightarrow> key r = key new \<Longrightarrow> I r \<Longrightarrow> I (merge new r)) \<Longrightarrow>
     r \<in> set (upsert key merge new rows) \<Longrightarrow> I r"
  by (auto simp: upsert_def set_upd_where split: if_splits)

lemma upsert_keeps:
  assumes "\<And>new old. f (merge new old) = f old" and "r \<in> set rows"
  shows "\<exists>r'\<in>set (upsert key merge new rows). f r' = f r"
proof (cases "\<exists>x\<in>set rows. key x = key new")
  case True
  let ?r = "if key r = key new then merge new r else r"
  have "?r \<in> set (upsert key merge new rows)" and "f ?r = f r"
    using True assms by (auto simp: upsert_def set_upd_where image_iff)
  then show ?thesis by blast
next
  case False
  with assms(2) show ?thesis by (auto simp: upsert_def)
qed

lemma find_upsert:
  assumes "\<And>old. key (merge new old) = key old" and "key new = k"
  shows "find (\<lambda>r. key r = k) (upsert key merge new rows) =
    Some (case find (\<lambda>r. key r = k) rows of None \<Rightarrow> new | Some old \<Rightarrow> merge new old)"
proof (cases "\<exists>r\<in>set rows. key r = k")
  case True
  have "find (\<lambda>r. key r = k) (upd_where (\<lambda>r. key r = k) (merge new) rows) = map_option (merge new) (find (\<lambda>r. key r = k) rows)"
    by (induction rows) (auto simp: assms)
  moreover have "find (\<lambda>r. key r = k) rows \<noteq> None" using True by (auto simp: find_None_iff_all)
  moreover note True
  ultimately show ?thesis by (auto simp: upsert_def assms(2) split: option.splits)
next
  case False
  then have "find (\<lambda>r. key r = k) rows = None" by (simp add: find_None_iff_all)
  with False show ?thesis by (auto simp: upsert_def assms(2) find_append)
qed

lemma insert_new_present:
  "r \<in> set rows \<Longrightarrow> key r = key new \<Longrightarrow> insert_new key new rows = rows"
  by (auto simp: insert_new_def)

lemma insert_new_keeps: "r \<in> set rows \<Longrightarrow> r \<in> set (insert_new key new rows)"
  by (simp add: insert_new_def)

lemma insert_new_cases: "r \<in> set (insert_new key new rows) \<Longrightarrow> r = new \<or> r \<in> set rows"
  by (auto simp: insert_new_def split: if_splits)

lemma insert_new_distinct:
  "distinct (map key rows) \<Longrightarrow> distinct (map key (insert_new key new rows))"
  by (auto simp: insert_new_def)

section \<open>The contract of an upsert statement\<close>

text \<open>Well-formed tables: unique conflict keys, unique ids, ids below the supply.\<close>

definition table_ok :: "('r \<Rightarrow> 'k) \<Rightarrow> ('r \<Rightarrow> uuid) \<Rightarrow> uuid \<Rightarrow> 'r list \<Rightarrow> bool" where
  "table_ok key rid n rows \<longleftrightarrow>
     distinct (map key rows) \<and> distinct (map rid rows) \<and> (\<forall>r\<in>set rows. rid r < n)"

lemma table_ok_mono: "table_ok key rid n rows \<Longrightarrow> n \<le> n' \<Longrightarrow> table_ok key rid n' rows"
  by (auto simp: table_ok_def)

lemma table_ok_Nil [simp]: "table_ok key rid n []"
  by (simp add: table_ok_def)

lemma table_ok_insert:
  "table_ok key rid n rows \<Longrightarrow> rid new = n \<Longrightarrow> key new \<notin> key ` set rows \<Longrightarrow>
     table_ok key rid (Suc n) (rows @ [new])"
  by (fastforce simp: table_ok_def less_Suc_eq)

lemma table_ok_insert_new:
  assumes "table_ok key rid n rows" and "rid new = n"
  shows "table_ok key rid (Suc n) (insert_new key new rows)"
proof (cases "\<exists>r\<in>set rows. key r = key new")
  case True
  with assms show ?thesis by (auto simp: insert_new_def intro: table_ok_mono)
next
  case False
  then have "key new \<notin> key ` set rows" by (metis imageE)
  from table_ok_insert [OF assms this] False show ?thesis by (simp add: insert_new_def)
qed

lemma table_ok_del: "table_ok key rid n rows \<Longrightarrow> table_ok key rid n (del_where P rows)"
  by (auto simp: table_ok_def distinct_del_where)

lemma table_ok_upd:
  "table_ok key rid n rows \<Longrightarrow> (\<And>r. P r \<Longrightarrow> key (f r) = key r) \<Longrightarrow> (\<And>r. P r \<Longrightarrow> rid (f r) = rid r) \<Longrightarrow>
     table_ok key rid n (upd_where P f rows)"
  by (auto simp: table_ok_def map_upd_where set_upd_where)

locale keyed_table =
  fixes key :: "'r \<Rightarrow> 'k"
    and rid :: "'r \<Rightarrow> uuid"
    and set_rid :: "uuid \<Rightarrow> 'r \<Rightarrow> 'r"
    and merge :: "'r \<Rightarrow> 'r \<Rightarrow> 'r"
    and inserted :: "'r \<Rightarrow> bool"
  assumes key_merge: "key new = key old \<Longrightarrow> key (merge new old) = key old"
    and rid_merge: "rid (merge new old) = rid old"
    and key_set_rid: "key (set_rid i r) = key r"
    and rid_set_rid: "rid (set_rid i r) = i"
    and merge_set_rid: "merge (set_rid i new) old = merge new old"
    and merge_self: "inserted new \<Longrightarrow> merge new (set_rid i new) = set_rid i new"
    and merge_idem: "merge new (merge new old) = merge new old"
begin

lemma upsert_keys:
  "map key (upsert key merge new rows) =
     (if key new \<in> key ` set rows then map key rows else map key rows @ [key new])"
  by (auto simp: upsert_def image_iff intro!: map_upd_where) (simp add: key_merge)

lemma upsert_distinct:
  "distinct (map key rows) \<Longrightarrow> distinct (map key (upsert key merge new rows))"
  by (simp add: upsert_keys)

lemma upsert_rids:
  "map rid (upsert key merge new rows) =
     (if key new \<in> key ` set rows then map rid rows else map rid rows @ [rid new])"
  by (auto simp: upsert_def image_iff rid_merge intro!: map_upd_where)

lemma upsert_rids_distinct:
  "distinct (map rid rows) \<Longrightarrow> rid new \<notin> rid ` set rows \<Longrightarrow>
     distinct (map rid (upsert key merge new rows))"
  by (simp add: upsert_rids)

lemma upsert_lookup:
  "find (\<lambda>r. key r = key new) (upsert key merge new rows) =
     Some (case find (\<lambda>r. key r = key new) rows of None \<Rightarrow> new | Some old \<Rightarrow> merge new old)"
proof (cases "\<exists>r\<in>set rows. key r = key new")
  case True
  then obtain r where r: "find (\<lambda>r. key r = key new) rows = Some r"
    using find_Some_ex by fastforce
  have "find (\<lambda>r. key r = key new) (upd_where (\<lambda>r. key r = key new) (merge new) rows) =
        map_option (merge new) (find (\<lambda>r. key r = key new) rows)"
    by (rule find_upd_where_same) (simp_all add: key_merge)
  with True r show ?thesis by (simp add: upsert_def)
next
  case False
  then have "find (\<lambda>r. key r = key new) rows = None"
    by (simp add: find_None_iff_all)
  with False show ?thesis by (simp add: upsert_def find_append)
qed

lemma upsert_lookup_other:
  assumes "k \<noteq> key new"
  shows "find (\<lambda>r. key r = k) (upsert key merge new rows) = find (\<lambda>r. key r = k) rows"
proof -
  have "find (\<lambda>r. key r = k) (upd_where (\<lambda>r. key r = key new) (merge new) rows) =
        find (\<lambda>r. key r = k) rows"
    by (rule find_upd_where_other) (use assms in \<open>auto simp: key_merge\<close>)
  then show ?thesis
    using assms by (auto simp: upsert_def find_append split: option.splits)
qed

lemma upsert_replay:
  assumes "inserted new"
  shows "upsert key merge (set_rid j new) (upsert key merge (set_rid i new) rows) =
     upsert key merge (set_rid i new) rows"
proof (cases "\<exists>r\<in>set rows. key r = key new")
  case True
  define rows' where "rows' = upd_where (\<lambda>r. key r = key new) (merge new) rows"
  have up: "upsert key merge (set_rid i new) rows = rows'"
    using True by (auto simp: upsert_def key_set_rid merge_set_rid [abs_def] rows'_def)
  from True obtain r where r: "r \<in> set rows" "key r = key new" by blast
  then have "merge new r \<in> set rows'" and "key (merge new r) = key new"
    by (auto simp: rows'_def set_upd_where key_merge)
  then have "\<exists>r\<in>set rows'. key r = key new" by blast
  moreover have "upd_where (\<lambda>r. key r = key new) (merge new) rows' = rows'"
    by (rule upd_where_id) (auto simp: rows'_def set_upd_where merge_idem split: if_splits)
  ultimately have "upsert key merge (set_rid j new) rows' = rows'"
    by (auto simp: upsert_def key_set_rid merge_set_rid [abs_def])
  with up show ?thesis by simp
next
  case False
  then have up: "upsert key merge (set_rid i new) rows = rows @ [set_rid i new]"
    by (simp add: upsert_def key_set_rid)
  have "upd_where (\<lambda>r. key r = key new) (merge new) rows = rows"
    by (rule upd_where_id) (use False in auto)
  with up show ?thesis
    by (auto simp: upsert_def key_set_rid merge_set_rid [abs_def] merge_self assms)
qed

lemma upsert_old_rids: "rid ` set rows \<subseteq> rid ` set (upsert key merge new rows)"
proof -
  have "set (map rid rows) \<subseteq> set (map rid (upsert key merge new rows))"
    by (subst upsert_rids) auto
  then show ?thesis by simp
qed

lemma upsert_returning:
  "find (\<lambda>r. key r = key new) (upsert key merge new rows) = Some r \<Longrightarrow>
     rid r = returning key rid new rows"
  by (auto simp: upsert_lookup returning_def rid_merge split: option.splits)

lemma returning_member:
  "returning key rid new rows \<in> rid ` set (upsert key merge new rows)"
proof -
  obtain r where r: "find (\<lambda>r. key r = key new) (upsert key merge new rows) = Some r"
    by (simp add: upsert_lookup)
  with upsert_returning [OF r] show ?thesis by (metis find_SomeD imageI)
qed

lemma returning_again:
  assumes "key new' = key new"
  shows "returning key rid new' (upsert key merge new rows) = returning key rid new rows"
proof -
  obtain r where r: "find (\<lambda>r. key r = key new) (upsert key merge new rows) = Some r"
    by (simp add: upsert_lookup)
  with upsert_returning [OF r] show ?thesis by (simp add: returning_def assms)
qed

lemma returning_bound:
  "(\<And>r. r \<in> set rows \<Longrightarrow> rid r < n) \<Longrightarrow> rid new \<le> n \<Longrightarrow> returning key rid new rows \<le> n"
  by (auto simp: returning_def split: option.splits dest!: find_SomeD) (meson less_imp_le)

lemma upsert_ok:
  assumes "table_ok key rid n rows" and "rid new = n"
  shows "table_ok key rid (Suc n) (upsert key merge new rows)"
proof -
  have "rid new \<notin> rid ` set rows" using assms by (auto simp: table_ok_def)
  moreover have "rid r < Suc n" if "r \<in> set (upsert key merge new rows)" for r
    using assms that
    by (auto simp: upsert_def set_upd_where rid_merge less_Suc_eq table_ok_def split: if_splits)
  ultimately show ?thesis
    using assms upsert_distinct upsert_rids_distinct by (simp add: table_ok_def)
qed

lemma upsert_bound:
  assumes "\<And>r. r \<in> set rows \<Longrightarrow> rid r < n" and "rid new = n" and "r \<in> set (upsert key merge new rows)"
  shows "rid r < Suc n"
  using assms by (auto simp: upsert_def set_upd_where rid_merge less_Suc_eq split: if_splits)

end

lemma fk_ok_mono:
  "fk_ok ref repo rid rrepo rows \<Longrightarrow>
   (\<And>r. r \<in> set rows \<Longrightarrow> \<exists>r'\<in>set rows'. rid r' = rid r \<and> rrepo r' = rrepo r) \<Longrightarrow>
     fk_ok ref repo rid rrepo rows'"
  by (fastforce simp: fk_ok_def split: option.splits)

lemma fk_ok_upsert:
  assumes "\<And>new old. rid (merge new old) = rid old" and "\<And>new old. rrepo (merge new old) = rrepo old"
    and "fk_ok ref repo rid rrepo rows"
  shows "fk_ok ref repo rid rrepo (upsert key merge new rows)"
proof (rule fk_ok_mono [OF assms(3)])
  fix r assume "r \<in> set rows"
  from upsert_keeps [of "\<lambda>r. (rid r, rrepo r)" merge, OF _ this] assms(1,2)
  show "\<exists>r'\<in>set (upsert key merge new rows). rid r' = rid r \<and> rrepo r' = rrepo r" by simp
qed

lemma fk_ok_find:
  "find (\<lambda>r. rrepo r = repo \<and> P r) rows = found \<Longrightarrow>
     fk_ok (map_option rid found) repo rid rrepo rows"
  by (cases found) (auto simp: fk_ok_def dest: find_SomeD)

end
