(* ===== verification/Rust_Text.thy ===== *)
theory Rust_Text
  imports Prelude
begin

text \<open>
  Rust's \<open>str\<close>. A \<open>string\<close> holds the UTF-8 bytes of the text (a HOL \<open>char\<close> is
  one byte), so \<open>length\<close> is \<open>str::len\<close>. A Rust \<open>char\<close> is the group of bytes
  that encodes one scalar value: a lead byte and the continuation bytes after it.
  Slicing and truncating panic off a character boundary; the model returns \<open>None\<close>.
\<close>

section \<open>Bytes and characters\<close>

definition is_cont :: "char \<Rightarrow> bool" where
  "is_cont c \<longleftrightarrow> 128 \<le> (of_char c :: nat) \<and> (of_char c :: nat) < 192"

definition is_ascii :: "string \<Rightarrow> bool" where
  "is_ascii s \<longleftrightarrow> (\<forall>c\<in>set s. (of_char c :: nat) < 128)"

lemma ascii_not_cont: "(of_char c :: nat) < 128 \<Longrightarrow> \<not> is_cont c"
  by (simp add: is_cont_def)

text \<open>\<open>str::chars\<close>: the byte groups in order.\<close>

function chars :: "string \<Rightarrow> string list" where
  "chars [] = []"
| "chars (c # cs) = (c # takeWhile is_cont cs) # chars (dropWhile is_cont cs)"
  by pat_completeness auto
termination
  by (relation "measure length") (auto simp: length_dropWhile_le le_imp_less_Suc)

lemma concat_chars [simp]: "concat (chars s) = s"
  by (induction s rule: chars.induct) simp_all

lemma chars_ascii: "is_ascii s \<Longrightarrow> chars s = map (\<lambda>c. [c]) s"
proof (induction s)
  case Nil
  then show ?case by simp
next
  case (Cons c s)
  then have s: "is_ascii s" and asc: "\<forall>x\<in>set s. \<not> is_cont x"
    by (auto simp: is_ascii_def ascii_not_cont)
  have "takeWhile is_cont s = []" and "dropWhile is_cont s = s"
    using asc by (cases s; simp)+
  with Cons.IH [OF s] show ?case by simp
qed

text \<open>\<open>str::is_char_boundary\<close>.\<close>

definition is_char_boundary :: "string \<Rightarrow> nat \<Rightarrow> bool" where
  "is_char_boundary s i \<longleftrightarrow>
     i = 0 \<or> i = length s \<or> (i < length s \<and> \<not> is_cont (s ! i))"

lemma ascii_char_boundary: "is_ascii s \<Longrightarrow> i \<le> length s \<Longrightarrow> is_char_boundary s i"
  by (auto simp: is_char_boundary_def is_ascii_def ascii_not_cont le_less)

text \<open>
  \<open>&s[..n]\<close> and \<open>String::truncate(n)\<close>. Slicing panics when \<open>n\<close> is past the end or
  off a boundary; truncating does nothing when the text is short enough and panics off a
  boundary otherwise.
\<close>

definition slice_to :: "nat \<Rightarrow> string \<Rightarrow> string option" where
  "slice_to n s = (if is_char_boundary s n then Some (take n s) else None)"

definition truncate_str :: "nat \<Rightarrow> string \<Rightarrow> string option" where
  "truncate_str n s = (if length s \<le> n then Some s else slice_to n s)"

lemma slice_to_ascii: "is_ascii s \<Longrightarrow> n \<le> length s \<Longrightarrow> slice_to n s = Some (take n s)"
  by (simp add: slice_to_def ascii_char_boundary)

lemma truncate_str_length: "truncate_str n s = Some t \<Longrightarrow> length t \<le> n"
  by (auto simp: truncate_str_def slice_to_def split: if_splits)

lemma truncate_str_ascii: "is_ascii s \<Longrightarrow> truncate_str n s = Some (take n s)"
  by (simp add: truncate_str_def slice_to_ascii)

lemma truncate_str_None_iff:
  "truncate_str n s = None \<longleftrightarrow> n < length s \<and> n \<noteq> 0 \<and> is_cont (s ! n)"
  by (auto simp: truncate_str_def slice_to_def is_char_boundary_def)

section \<open>Searching and splitting\<close>

definition starts_with :: "string \<Rightarrow> string \<Rightarrow> bool" where
  "starts_with s p \<longleftrightarrow> take (length p) s = p"

definition ends_with :: "string \<Rightarrow> string \<Rightarrow> bool" where
  "ends_with s p \<longleftrightarrow> length p \<le> length s \<and> drop (length s - length p) s = p"

definition strip_prefix :: "string \<Rightarrow> string \<Rightarrow> string option" where
  "strip_prefix s p = (if starts_with s p then Some (drop (length p) s) else None)"

definition strip_suffix :: "string \<Rightarrow> string \<Rightarrow> string option" where
  "strip_suffix s p = (if ends_with s p then Some (take (length s - length p) s) else None)"

lemma strip_prefix_append [simp]: "strip_prefix (p @ s) p = Some s"
  by (simp add: strip_prefix_def starts_with_def)

lemma starts_with_append [simp]: "starts_with (p @ s) p"
  by (simp add: starts_with_def)

lemma strip_prefix_Some: "strip_prefix s p = Some t \<longleftrightarrow> s = p @ t"
  by (auto simp: strip_prefix_def starts_with_def split: if_splits)
     (metis append_take_drop_id)

lemma strip_suffix_Some: "strip_suffix s p = Some t \<longleftrightarrow> s = t @ p"
proof
  assume "strip_suffix s p = Some t"
  then show "s = t @ p"
    by (auto simp: strip_suffix_def ends_with_def split: if_splits)
       (metis append_take_drop_id)
next
  assume "s = t @ p"
  then show "strip_suffix s p = Some t"
    by (simp add: strip_suffix_def ends_with_def)
qed

text \<open>\<open>str::split(c)\<close> on an ASCII separator: always at least one piece.\<close>

fun split_on :: "char \<Rightarrow> string \<Rightarrow> string list" where
  "split_on c [] = [[]]"
| "split_on c (x # xs) =
     (if x = c then [] # split_on c xs
      else (case split_on c xs of [] \<Rightarrow> [[x]] | p # ps \<Rightarrow> (x # p) # ps))"

lemma split_on_not_Nil [simp]: "split_on c s \<noteq> []"
  by (induction s) (auto split: list.splits)

lemma split_on_no_sep: "c \<notin> set s \<Longrightarrow> split_on c s = [s]"
  by (induction s) auto

lemma split_on_append_sep:
  "c \<notin> set p \<Longrightarrow> split_on c (p @ c # s) = p # split_on c s"
  by (induction p) auto

text \<open>\<open>str::split_once(c)\<close>.\<close>

fun split_once :: "char \<Rightarrow> string \<Rightarrow> (string \<times> string) option" where
  "split_once c [] = None"
| "split_once c (x # xs) =
     (if x = c then Some ([], xs)
      else map_option (\<lambda>(a, b). (x # a, b)) (split_once c xs))"

lemma split_once_Some: "split_once c s = Some (a, b) \<longleftrightarrow> s = a @ c # b \<and> c \<notin> set a"
proof (induction s arbitrary: a)
  case Nil
  then show ?case by simp
next
  case (Cons x s)
  show ?case
  proof (cases "x = c")
    case True
    then show ?thesis by (cases a) auto
  next
    case False
    then show ?thesis using Cons.IH by (cases a) auto
  qed
qed

section \<open>Trimming and case\<close>

text \<open>\<open>char::is_whitespace\<close> (the Unicode property White\_Space) on a byte group.\<close>

definition white_space :: "string list" where
  "white_space =
     [[CHR 0x09], [CHR 0x0A], [CHR 0x0B], [CHR 0x0C], [CHR 0x0D], [CHR 0x20],
      [CHR 0xC2, CHR 0x85], [CHR 0xC2, CHR 0xA0], [CHR 0xE1, CHR 0x9A, CHR 0x80],
      [CHR 0xE2, CHR 0x80, CHR 0x80], [CHR 0xE2, CHR 0x80, CHR 0x81],
      [CHR 0xE2, CHR 0x80, CHR 0x82], [CHR 0xE2, CHR 0x80, CHR 0x83],
      [CHR 0xE2, CHR 0x80, CHR 0x84], [CHR 0xE2, CHR 0x80, CHR 0x85],
      [CHR 0xE2, CHR 0x80, CHR 0x86], [CHR 0xE2, CHR 0x80, CHR 0x87],
      [CHR 0xE2, CHR 0x80, CHR 0x88], [CHR 0xE2, CHR 0x80, CHR 0x89],
      [CHR 0xE2, CHR 0x80, CHR 0x8A], [CHR 0xE2, CHR 0x80, CHR 0xA8],
      [CHR 0xE2, CHR 0x80, CHR 0xA9], [CHR 0xE2, CHR 0x80, CHR 0xAF],
      [CHR 0xE2, CHR 0x81, CHR 0x9F], [CHR 0xE3, CHR 0x80, CHR 0x80]]"

definition is_whitespace :: "string \<Rightarrow> bool" where
  "is_whitespace g \<longleftrightarrow> g \<in> set white_space"

definition trim_groups :: "('a \<Rightarrow> bool) \<Rightarrow> 'a list \<Rightarrow> 'a list" where
  "trim_groups P gs = rev (dropWhile P (rev (dropWhile P gs)))"

definition trim :: "string \<Rightarrow> string" where
  "trim s = concat (trim_groups is_whitespace (chars s))"

text \<open>\<open>trim_matches\<close> with an ASCII character.\<close>

definition trim_matches :: "char \<Rightarrow> string \<Rightarrow> string" where
  "trim_matches c s = trim_groups (\<lambda>x. x = c) s"

definition is_ascii_digit :: "char \<Rightarrow> bool" where
  "is_ascii_digit c \<longleftrightarrow> 48 \<le> (of_char c :: nat) \<and> (of_char c :: nat) \<le> 57"

definition is_ascii_lowercase :: "char \<Rightarrow> bool" where
  "is_ascii_lowercase c \<longleftrightarrow> 97 \<le> (of_char c :: nat) \<and> (of_char c :: nat) \<le> 122"

definition is_ascii_uppercase :: "char \<Rightarrow> bool" where
  "is_ascii_uppercase c \<longleftrightarrow> 65 \<le> (of_char c :: nat) \<and> (of_char c :: nat) \<le> 90"

definition is_ascii_alphanumeric :: "char \<Rightarrow> bool" where
  "is_ascii_alphanumeric c \<longleftrightarrow>
     is_ascii_digit c \<or> is_ascii_lowercase c \<or> is_ascii_uppercase c"

definition to_ascii_lowercase :: "char \<Rightarrow> char" where
  "to_ascii_lowercase c =
     (if is_ascii_uppercase c then char_of ((of_char c :: nat) + 32) else c)"

lemma of_char_less_256: "(of_char c :: nat) < 256"
  by (cases c) (simp add: of_char_def)

lemma of_char_to_ascii_lowercase:
  "(of_char (to_ascii_lowercase c) :: nat) =
     (if is_ascii_uppercase c then of_char c + 32 else of_char c)"
  by (simp add: to_ascii_lowercase_def is_ascii_uppercase_def of_char_of)

lemma lower_alphanumeric:
  "is_ascii_alphanumeric c \<Longrightarrow>
     is_ascii_lowercase (to_ascii_lowercase c) \<or> is_ascii_digit (to_ascii_lowercase c)"
  by (auto simp: is_ascii_alphanumeric_def is_ascii_lowercase_def is_ascii_digit_def
      of_char_to_ascii_lowercase is_ascii_uppercase_def)

lemma trim_groups_set: "set (trim_groups P gs) \<subseteq> set gs"
  by (auto simp: trim_groups_def dest!: set_dropWhileD)

lemma trim_groups_hd: "trim_groups P gs \<noteq> [] \<Longrightarrow> \<not> P (hd (trim_groups P gs))"
proof -
  assume ne: "trim_groups P gs \<noteq> []"
  let ?d = "dropWhile P gs"
  have d: "?d \<noteq> []"
  proof
    assume "?d = []"
    then have "trim_groups P gs = []" unfolding trim_groups_def by (simp only: rev.simps dropWhile.simps)
    with ne show False ..
  qed
  then have hd: "\<not> P (hd ?d)" by (rule hd_dropWhile)
  have "rev ?d = takeWhile P (rev ?d) @ dropWhile P (rev ?d)" by simp
  then have "?d = rev (dropWhile P (rev ?d)) @ rev (takeWhile P (rev ?d))"
    by (metis rev_append rev_rev_ident)
  then have "hd ?d = hd (trim_groups P gs)"
    using ne by (metis hd_append2 trim_groups_def)
  with hd show ?thesis by simp
qed

lemma trim_groups_last: "trim_groups P gs \<noteq> [] \<Longrightarrow> \<not> P (last (trim_groups P gs))"
  unfolding trim_groups_def by (simp only: last_rev rev_is_Nil_conv hd_dropWhile not_False_eq_True)

lemma trim_groups_length: "length (trim_groups P gs) \<le> length gs"
  using length_dropWhile_le [of P gs] length_dropWhile_le [of P "rev (dropWhile P gs)"]
  by (simp add: trim_groups_def)

lemma trim_groups_id: "gs \<noteq> [] \<Longrightarrow> \<not> P (hd gs) \<Longrightarrow> \<not> P (last gs) \<Longrightarrow> trim_groups P gs = gs"
proof -
  assume gs: "gs \<noteq> []" "\<not> P (hd gs)" "\<not> P (last gs)"
  then have "dropWhile P gs = gs" by (cases gs) auto
  moreover have "dropWhile P (rev gs) = rev gs" using gs by (cases gs rule: rev_cases) auto
  ultimately show ?thesis by (simp add: trim_groups_def)
qed

lemma trim_ascii_id:
  assumes "is_ascii s" and "s \<noteq> []" and "[hd s] \<notin> set white_space" and "[last s] \<notin> set white_space"
  shows "trim s = s"
proof -
  have "chars s = map (\<lambda>c. [c]) s" by (rule chars_ascii [OF assms(1)])
  moreover have "trim_groups is_whitespace (map (\<lambda>c. [c]) s) = map (\<lambda>c. [c]) s"
    using assms by (intro trim_groups_id) (auto simp: is_whitespace_def hd_map last_map)
  ultimately show ?thesis by (simp add: trim_def concat_map_singleton)
qed

lemma trim_leading_space:
  assumes "is_ascii s" and "s \<noteq> []" and "[hd s] \<notin> set white_space" and "[last s] \<notin> set white_space"
  shows "trim (CHR '' '' # s) = s"
proof -
  have asc: "is_ascii (CHR '' '' # s)" using assms(1) by (simp add: is_ascii_def)
  have "dropWhile is_whitespace (map (\<lambda>c. [c]) s) = map (\<lambda>c. [c]) s"
    using assms(2,3) by (cases s) (auto simp: is_whitespace_def)
  then have "trim_groups is_whitespace ([CHR '' ''] # map (\<lambda>c. [c]) s) = trim_groups is_whitespace (map (\<lambda>c. [c]) s)"
    by (simp add: trim_groups_def is_whitespace_def white_space_def)
  moreover have "trim s = s" by (rule trim_ascii_id [OF assms])
  ultimately show ?thesis unfolding trim_def chars_ascii [OF asc] chars_ascii [OF assms(1)] by simp
qed

text \<open>\<open>[T]::join\<close>.\<close>

fun join :: "string \<Rightarrow> string list \<Rightarrow> string" where
  "join sep [] = []"
| "join sep [t] = t"
| "join sep (t # u # ts) = t @ sep @ join sep (u # ts)"

end
