(* ===== verification/Json.thy ===== *)
theory Json
  imports Rust_Text "HOL-Library.Word" "HOL-Library.Monad_Syntax"
begin

text \<open>
  \<open>serde_json::Value\<close> as the gateway uses it: the accessors \<open>get\<close>,
  \<open>pointer\<close>, \<open>as_str\<close>, \<open>as_i64\<close>, \<open>as_array\<close>, \<open>is_null\<close>, and the
  deserialisation of a value into a struct. Deserialisers return \<open>None\<close> where serde
  reports an error; a struct is read from an object, unknown fields are ignored, an absent
  or null \<open>Option\<close> field is \<open>None\<close>, and \<open>#[serde(default)]\<close> supplies a value
  only for an absent field. The positional (array) encoding of structs that serde also
  accepts is never sent by GitHub and is rejected here.
\<close>

section \<open>Values and accessors\<close>

datatype json =
    JNull
  | JBool bool
  | JInt int
  | JFloat string
  | JStr string
  | JArr "json list"
  | JObj "(string \<times> json) list"

fun get_field :: "string \<Rightarrow> json \<Rightarrow> json option" where
  "get_field k (JObj fields) = map_of fields k"
| "get_field k _ = None"

text \<open>
  \<open>Value::pointer\<close> on a path given as its reference tokens; every path in the
  gateway's sources consists of field names, which select nothing in an array.
\<close>

fun pointer :: "string list \<Rightarrow> json \<Rightarrow> json option" where
  "pointer [] v = Some v"
| "pointer (k # ks) v = (case get_field k v of None \<Rightarrow> None | Some w \<Rightarrow> pointer ks w)"

definition is_i64 :: "int \<Rightarrow> bool" where
  "is_i64 n \<longleftrightarrow> - (2 ^ 63) \<le> n \<and> n < 2 ^ 63"

definition is_i32 :: "int \<Rightarrow> bool" where
  "is_i32 n \<longleftrightarrow> - (2 ^ 31) \<le> n \<and> n < 2 ^ 31"

fun as_str :: "json \<Rightarrow> string option" where
  "as_str (JStr s) = Some s"
| "as_str _ = None"

fun as_i64 :: "json \<Rightarrow> int option" where
  "as_i64 (JInt n) = (if is_i64 n then Some n else None)"
| "as_i64 _ = None"

fun as_array :: "json \<Rightarrow> json list option" where
  "as_array (JArr vs) = Some vs"
| "as_array _ = None"

text \<open>An optional value inside \<open>json!\<close> is \<open>null\<close> when absent.\<close>

fun j_option :: "('a \<Rightarrow> json) \<Rightarrow> 'a option \<Rightarrow> json" where
  "j_option f None = JNull"
| "j_option f (Some x) = f x"

section \<open>Deserialisation\<close>

type_synonym 'a de = "json \<Rightarrow> 'a option"

fun de_i32 :: "int de" where
  "de_i32 (JInt n) = (if is_i32 n then Some n else None)"
| "de_i32 _ = None"

fun de_bool :: "bool de" where
  "de_bool (JBool b) = Some b"
| "de_bool _ = None"

fun de_time :: "(string \<Rightarrow> timestamp option) \<Rightarrow> timestamp de" where
  "de_time parse (JStr s) = parse s"
| "de_time parse _ = None"

fun de_option :: "'a de \<Rightarrow> 'a option de" where
  "de_option d JNull = Some None"
| "de_option d v = map_option Some (d v)"

fun sequence :: "'a option list \<Rightarrow> 'a list option" where
  "sequence [] = Some []"
| "sequence (None # xs) = None"
| "sequence (Some x # xs) = map_option ((#) x) (sequence xs)"

fun de_vec :: "'a de \<Rightarrow> 'a list de" where
  "de_vec d (JArr vs) = sequence (map d vs)"
| "de_vec d _ = None"

fun is_object :: "json \<Rightarrow> bool" where
  "is_object (JObj _) = True"
| "is_object _ = False"

definition de_required :: "string \<Rightarrow> 'a de \<Rightarrow> 'a de" where
  "de_required k d v = (case get_field k v of None \<Rightarrow> None | Some w \<Rightarrow> d w)"

definition de_optional :: "string \<Rightarrow> 'a de \<Rightarrow> 'a option de" where
  "de_optional k d v = (case get_field k v of None \<Rightarrow> Some None | Some w \<Rightarrow> de_option d w)"

definition de_default :: "string \<Rightarrow> 'a \<Rightarrow> 'a de \<Rightarrow> 'a de" where
  "de_default k x d v = (case get_field k v of None \<Rightarrow> Some x | Some w \<Rightarrow> d w)"

lemma as_i64_range: "as_i64 v = Some n \<Longrightarrow> is_i64 n"
  by (cases v) (auto split: if_splits)

lemma de_i32_range: "de_i32 v = Some n \<Longrightarrow> is_i32 n"
  by (cases v) (auto split: if_splits)

lemma sequence_length: "sequence xs = Some ys \<Longrightarrow> length ys = length xs"
  by (induction xs arbitrary: ys rule: sequence.induct) auto

lemma sequence_map_Some: "sequence (map Some xs) = Some xs"
  by (induction xs) simp_all

section \<open>Third-party code\<close>

text \<open>
  Bytes are 8-bit words; \<open>str::as_bytes\<close> reads a string's bytes.
  What the modelled handlers take from crates outside the repository, as one record of
  functions that is an argument of the definitions which use them: JSON text parsing
  (\<open>serde_json::from_slice\<close>), base64, RFC 3339 timestamps (chrono), UUID syntax
  (uuid), SHA-256 on bytes (sha2), Rust's derived \<open>Debug\<close> text of an error, the text
  of a serde error for the value that was rejected, the case folding under which
  Postgres compares \<open>citext\<close> columns with each other (\<open>citext\<close>), the folding
  under which it compares one with a bound parameter (\<open>bound_fold\<close>: the driver binds
  \<open>text\<close>, and which operator is chosen is the server's rule), and the collation
  \<open>ORDER BY\<close> sorts text with (\<open>text_le\<close>). A URL is its text: \<open>parse_url\<close> is
  \<open>Url::parse\<close>, \<open>url_push\<close> pushes path segments on a base (\<open>None\<close> when it cannot
  be a base) and \<open>url_query\<close> appends query pairs; \<open>show_status\<close> and \<open>body_error\<close>
  are the texts of a status code and of a body reqwest could not read, \<open>url_error\<close> that of
  a text that is not a URL, \<open>body_text\<close> a body read as text. \<open>time_add\<close> adds seconds to a
  \<open>chrono\<close> time: \<open>None\<close> where it panics, out of its range.
\<close>

type_synonym u8 = "8 word"

definition as_bytes :: "string \<Rightarrow> u8 list" where
  "as_bytes s = map of_char s"

record ext =
  json_from_slice :: "u8 list \<Rightarrow> json option"
  base64_encode :: "u8 list \<Rightarrow> string"
  parse_time :: "string \<Rightarrow> timestamp option"
  show_time :: "timestamp \<Rightarrow> string"
  parse_uuid :: "string \<Rightarrow> uuid option"
  show_uuid :: "uuid \<Rightarrow> string"
  sha256_digest :: "u8 list \<Rightarrow> u8 list"
  debug_error :: "AppError \<Rightarrow> string"
  serde_error :: "json \<Rightarrow> string"
  citext :: "string \<Rightarrow> string"
  bound_fold :: "string \<Rightarrow> string"
  text_le :: "string \<Rightarrow> string \<Rightarrow> bool"
  parse_url :: "string \<Rightarrow> string option"
  url_push :: "string \<Rightarrow> string list \<Rightarrow> string option"
  url_query :: "string \<Rightarrow> (string \<times> string) list \<Rightarrow> string"
  show_status :: "nat \<Rightarrow> string"
  body_error :: "u8 list \<Rightarrow> string"
  url_error :: "string \<Rightarrow> string"
  body_text :: "u8 list \<Rightarrow> string"
  time_add :: "timestamp \<Rightarrow> int \<Rightarrow> timestamp option"

text \<open>\<open>serde_json::from_value(v)?\<close>: a rejected value becomes an internal error.\<close>

definition from_value :: "ext \<Rightarrow> 'a de \<Rightarrow> json \<Rightarrow> 'a result" where
  "from_value E d v = (case d v of None \<Rightarrow> Inl (Internal (serde_error E v)) | Some x \<Rightarrow> Inr x)"

text \<open>
  A concrete instance, on which examples are evaluated: a non-empty text parses as an
  empty JSON object, a text parses as the UUID and the time of its length, identifiers
  render as that many marks, the digest is constant.
\<close>

definition demo_ext :: ext where
  "demo_ext =
     \<lparr>json_from_slice = (\<lambda>bs. if bs = [] then None else Some (JObj [])), base64_encode = (\<lambda>_. []),
      parse_time = (\<lambda>s. Some (int (length s))), show_time = (\<lambda>_. ''t''),
      parse_uuid = (\<lambda>s. Some (length s)), show_uuid = (\<lambda>i. replicate i CHR ''u''),
      sha256_digest = (\<lambda>_. replicate 32 0), debug_error = (\<lambda>_. ''error''),
      serde_error = (\<lambda>_. ''invalid type''), citext = map to_ascii_lowercase,
      bound_fold = (\<lambda>s. s), text_le = (\<lambda>a b. length a \<le> length b),
      parse_url = (\<lambda>s. Some s), url_push = (\<lambda>base segments. Some (base @ concat segments)),
      url_query = (\<lambda>url pairs. url), show_status = (\<lambda>_. ''status''), body_error = (\<lambda>_. ''bad body''),
      url_error = (\<lambda>_. ''relative URL without a base''), body_text = (\<lambda>_. []),
      time_add = (\<lambda>t s. if s \<le> 2 ^ 40 then Some (t + s * 1000000) else None)\<rparr>"

end
