(* ===== verification/Schema.thy ===== *)
theory Schema
  imports Tables Json
begin

text \<open>
  The database the gateway works on: one record per table of
  \<^verbatim>\<open>infra/migrations\<close>, with the columns the gateway reads or writes, and the record
  \<open>db\<close> that holds the tables. Columns with a \<open>CHECK\<close> vocabulary are datatypes;
  the vocabularies GitHub owns stay free text. The trigger-maintained
  \<open>created_at\<close>/\<open>updated_at\<close> columns appear only where the code reads them.
  \<open>next_id\<close> is the supply of UUIDs.
\<close>

section \<open>Identity and tenancy\<close>

record user =
  u_id :: uuid
  u_email :: string
  u_name :: "string option"
  u_avatar_url :: "string option"
  u_is_active :: bool
  u_last_login_at :: "timestamp option"
  u_deleted_at :: "timestamp option"
  u_created_at :: timestamp

record github_account =
  ga_user_id :: uuid
  ga_github_user_id :: int
  ga_login :: string
  ga_avatar_url :: "string option"
  ga_access_token_encrypted :: "u8 list"
  ga_refresh_token_encrypted :: "u8 list option"
  ga_token_expires_at :: "timestamp option"
  ga_scopes :: "string list"
  ga_connected_at :: timestamp

datatype org_kind = Personal | Team

record organization =
  o_id :: uuid
  o_slug :: string
  o_name :: string
  o_kind :: org_kind
  o_github_installation_id :: "int option"
  o_created_by :: "uuid option"
  o_created_at :: timestamp
  o_deleted_at :: "timestamp option"

record organization_member =
  m_id :: uuid
  m_organization_id :: uuid
  m_user_id :: uuid
  m_role :: string
  m_invited_by :: "uuid option"
  m_created_at :: timestamp

record api_token =
  t_id :: uuid
  t_user_id :: uuid
  t_organization_id :: "uuid option"
  t_name :: string
  t_token_prefix :: string
  t_token_hash :: "u8 list"
  t_scopes :: "string list"
  t_last_used_at :: "timestamp option"
  t_expires_at :: "timestamp option"
  t_revoked_at :: "timestamp option"
  t_created_at :: timestamp

record audit_log =
  al_id :: uuid
  al_organization_id :: "uuid option"
  al_actor_type :: string
  al_actor_user_id :: "uuid option"
  al_api_token_id :: "uuid option"
  al_action :: string
  al_entity_type :: "string option"
  al_entity_id :: "uuid option"
  al_metadata :: json
  al_ip_address :: "string option"
  al_user_agent :: "string option"

section \<open>Repositories and version control\<close>

record github_installation =
  gi_installation_id :: int
  gi_account_login :: string
  gi_account_id :: int
  gi_target_type :: string
  gi_repository_selection :: string
  gi_suspended_at :: "timestamp option"

record repository =
  r_id :: uuid
  r_organization_id :: uuid
  r_github_repo_id :: int
  r_owner_login :: string
  r_name :: string
  r_default_branch :: string
  r_tracking_enabled :: bool
  r_deleted_at :: "timestamp option"
  r_description :: "string option"
  r_is_private :: bool
  r_is_archived :: bool
  r_is_fork :: bool
  r_primary_language :: "string option"
  r_html_url :: "string option"
  r_github_created_at :: "timestamp option"
  r_github_pushed_at :: "timestamp option"
  r_created_at :: timestamp

datatype sync_status = Idle | Syncing | Sync_error

record sync_state =
  ss_repository_id :: uuid
  ss_resource :: string
  ss_etag :: "string option"
  ss_cursor :: "string option"
  ss_status :: sync_status
  ss_last_synced_at :: "timestamp option"
  ss_last_success_at :: "timestamp option"
  ss_last_error :: "string option"

record branch =
  b_id :: uuid
  b_repository_id :: uuid
  b_name :: string
  b_head_sha :: string
  b_is_default :: bool
  b_is_protected :: bool
  b_deleted_at :: "timestamp option"

record commit =
  c_id :: uuid
  c_repository_id :: uuid
  c_sha :: string
  c_message :: "string option"
  c_author_name :: "string option"
  c_author_email :: "string option"
  c_author_login :: "string option"
  c_author_github_user_id :: "int option"
  c_committer_name :: "string option"
  c_committer_email :: "string option"
  c_authored_at :: "timestamp option"
  c_committed_at :: timestamp
  c_is_merge_commit :: bool

record pull_request =
  pr_id :: uuid
  pr_repository_id :: uuid
  pr_github_pr_id :: int
  pr_number :: int
  pr_title :: string
  pr_state :: string
  pr_is_draft :: bool
  pr_author_login :: "string option"
  pr_author_github_user_id :: "int option"
  pr_head_ref :: string
  pr_head_sha :: string
  pr_base_ref :: string
  pr_base_sha :: string
  pr_merge_commit_sha :: "string option"
  pr_merged_by_login :: "string option"
  pr_additions :: "int option"
  pr_deletions :: "int option"
  pr_changed_files :: "int option"
  pr_commits_count :: "int option"
  pr_comments_count :: int
  pr_review_comments_count :: int
  pr_opened_at :: timestamp
  pr_first_review_at :: "timestamp option"
  pr_closed_at :: "timestamp option"
  pr_merged_at :: "timestamp option"

section \<open>Workflows\<close>

record workflow =
  w_id :: uuid
  w_repository_id :: uuid
  w_github_workflow_id :: int
  w_name :: string
  w_path :: string
  w_state :: string
  w_deleted_at :: "timestamp option"

record workflow_run =
  wr_id :: uuid
  wr_repository_id :: uuid
  wr_workflow_id :: "uuid option"
  wr_github_run_id :: int
  wr_run_attempt :: int
  wr_run_number :: int
  wr_name :: "string option"
  wr_event :: string
  wr_status :: string
  wr_conclusion :: "string option"
  wr_head_sha :: string
  wr_head_branch :: "string option"
  wr_head_commit_id :: "uuid option"
  wr_pull_request_id :: "uuid option"
  wr_actor_login :: "string option"
  wr_triggering_actor_login :: "string option"
  wr_is_default_branch :: bool
  wr_created_at_github :: "timestamp option"
  wr_run_started_at :: "timestamp option"
  wr_completed_at :: "timestamp option"

record workflow_job =
  wj_id :: uuid
  wj_workflow_run_id :: uuid
  wj_repository_id :: uuid
  wj_github_job_id :: int
  wj_run_attempt :: int
  wj_name :: string
  wj_status :: string
  wj_conclusion :: "string option"
  wj_runner_id :: "int option"
  wj_runner_name :: "string option"
  wj_runner_group_name :: "string option"
  wj_labels :: "string list"
  wj_started_at :: "timestamp option"
  wj_completed_at :: "timestamp option"

record workflow_step =
  ws_id :: uuid
  ws_workflow_job_id :: uuid
  ws_number :: int
  ws_name :: string
  ws_status :: string
  ws_conclusion :: "string option"
  ws_started_at :: "timestamp option"
  ws_completed_at :: "timestamp option"

record build_log =
  bl_id :: uuid
  bl_repository_id :: uuid
  bl_workflow_run_id :: uuid
  bl_workflow_job_id :: "uuid option"
  bl_storage_bucket :: string
  bl_object_key :: string
  bl_size_bytes :: int
  bl_content_type :: string
  bl_sha256 :: "u8 list option"
  bl_content_encoding :: "string option"
  bl_line_count :: "int option"
  bl_expires_at :: "timestamp option"
  bl_created_at :: timestamp

datatype deployment_source = Github_deployment | Workflow_inferred

record deployment =
  d_id :: uuid
  d_repository_id :: uuid
  d_workflow_run_id :: "uuid option"
  d_environment :: string
  d_sha :: string
  d_status :: string
  d_source :: deployment_source
  d_is_production :: bool
  d_deployed_at :: "timestamp option"
  d_started_at :: "timestamp option"

record test_result =
  ts_id :: uuid
  ts_repository_id :: uuid
  ts_workflow_run_id :: uuid
  ts_workflow_job_id :: "uuid option"
  ts_test_key :: string
  ts_suite :: "string option"
  ts_classname :: "string option"
  ts_name :: string
  ts_status :: string
  ts_duration_ms :: "int option"
  ts_failure_type :: "string option"
  ts_failure_message :: "string option"
  ts_executed_at :: timestamp

section \<open>Ingestion plumbing\<close>

datatype delivery_status = Received | Processing | Processed | Delivery_failed | Ignored

record webhook_delivery =
  wd_id :: uuid
  wd_github_delivery_id :: uuid
  wd_event_type :: string
  wd_action :: "string option"
  wd_github_repo_id :: "int option"
  wd_repository_id :: "uuid option"
  wd_signature_valid :: bool
  wd_status :: delivery_status
  wd_attempts :: int
  wd_payload :: json
  wd_error :: "string option"
  wd_received_at :: timestamp
  wd_processed_at :: "timestamp option"

datatype outbox_status = Pending | Published | Publish_failed

record outbox_row =
  eo_id :: uuid
  eo_aggregate_type :: string
  eo_aggregate_id :: uuid
  eo_event_type :: string
  eo_exchange :: string
  eo_routing_key :: string
  eo_payload :: json
  eo_headers :: json
  eo_status :: outbox_status
  eo_attempts :: int
  eo_last_error :: "string option"
  eo_available_at :: timestamp
  eo_published_at :: "timestamp option"

section \<open>The database\<close>

record db =
  next_id :: uuid
  users :: "user list"
  github_accounts :: "github_account list"
  organizations :: "organization list"
  organization_members :: "organization_member list"
  api_tokens :: "api_token list"
  audit_logs :: "audit_log list"
  github_installations :: "github_installation list"
  repositories :: "repository list"
  repository_sync_state :: "sync_state list"
  branches :: "branch list"
  commits :: "commit list"
  pull_requests :: "pull_request list"
  workflows :: "workflow list"
  workflow_runs :: "workflow_run list"
  workflow_jobs :: "workflow_job list"
  workflow_steps :: "workflow_step list"
  build_logs :: "build_log list"
  deployments :: "deployment list"
  test_results :: "test_result list"
  webhook_deliveries :: "webhook_delivery list"
  event_outbox :: "outbox_row list"

definition empty_db :: db where
  "empty_db =
     \<lparr>next_id = 1, users = [], github_accounts = [], organizations = [], organization_members = [],
      api_tokens = [], audit_logs = [], github_installations = [], repositories = [], repository_sync_state = [],
      branches = [], commits = [], pull_requests = [], workflows = [], workflow_runs = [],
      workflow_jobs = [], workflow_steps = [], build_logs = [], deployments = [], test_results = [],
      webhook_deliveries = [], event_outbox = []\<rparr>"

text \<open>
  A transaction body maps the database to an error or to a result and the new database;
  \<open>transact\<close> commits a successful body and rolls a failed one back, as dropping an
  uncommitted \<open>sqlx::Transaction\<close> does.
\<close>

type_synonym 'a tx = "db \<Rightarrow> AppError + ('a \<times> db)"

definition transact :: "'a tx \<Rightarrow> db \<Rightarrow> 'a result \<times> db" where
  "transact body d =
     (case body d of Inl e \<Rightarrow> (Inl e, d) | Inr (x, d') \<Rightarrow> (Inr x, d'))"

lemma transact_error: "transact body d = (Inl e, d') \<Longrightarrow> d' = d"
  by (auto simp: transact_def split: sum.splits prod.splits)

end
