(* ===== verification/Events.thy ===== *)
theory Events
  imports Schema
begin

text \<open>
  The transactional outbox writer (\<^verbatim>\<open>gateway/src/events.rs\<close>): the event, its
  envelope, and \<open>enqueue\<close>, which adds one pending row inside the caller's transaction.
\<close>

definition EVENT_EXCHANGE :: string where
  "EVENT_EXCHANGE = ''buildlens.events''"

definition SCHEMA_VERSION :: int where
  "SCHEMA_VERSION = 1"

record OutboxEvent =
  oe_aggregate_type :: string
  oe_aggregate_id :: uuid
  oe_event_type :: string
  oe_routing_key :: string
  oe_organization_id :: uuid
  oe_repository_id :: uuid
  oe_data :: json

definition OutboxEvent_new ::
  "string \<Rightarrow> uuid \<Rightarrow> string \<Rightarrow> uuid \<Rightarrow> uuid \<Rightarrow> json \<Rightarrow> OutboxEvent" where
  "OutboxEvent_new aggregate_type aggregate_id event_type organization_id repository_id data =
     \<lparr>oe_aggregate_type = aggregate_type, oe_aggregate_id = aggregate_id,
      oe_event_type = event_type, oe_routing_key = event_type,
      oe_organization_id = organization_id, oe_repository_id = repository_id,
      oe_data = data\<rparr>"

definition envelope :: "ext \<Rightarrow> timestamp \<Rightarrow> uuid \<Rightarrow> OutboxEvent \<Rightarrow> json" where
  "envelope E utc i event =
     JObj [(''id'', JStr (show_uuid E i)),
           (''type'', JStr (oe_event_type event)),
           (''version'', JInt SCHEMA_VERSION),
           (''occurred_at'', JStr (show_time E utc)),
           (''aggregate'', JObj [(''type'', JStr (oe_aggregate_type event)),
                                (''id'', JStr (show_uuid E (oe_aggregate_id event)))]),
           (''organization_id'', JStr (show_uuid E (oe_organization_id event))),
           (''repository_id'', JStr (show_uuid E (oe_repository_id event))),
           (''data'', oe_data event)]"

definition event_headers :: "OutboxEvent \<Rightarrow> json" where
  "event_headers event =
     JObj [(''event_type'', JStr (oe_event_type event)),
           (''aggregate_type'', JStr (oe_aggregate_type event)),
           (''schema_version'', JInt SCHEMA_VERSION)]"

text \<open>\<open>now\<close> is the transaction's \<open>now()\<close>, \<open>utc\<close> the value of \<open>Utc::now()\<close>.\<close>

definition outbox_row_of :: "ext \<Rightarrow> timestamp \<Rightarrow> timestamp \<Rightarrow> uuid \<Rightarrow> OutboxEvent \<Rightarrow> outbox_row" where
  "outbox_row_of E now utc i event =
     \<lparr>eo_id = i, eo_aggregate_type = oe_aggregate_type event,
      eo_aggregate_id = oe_aggregate_id event, eo_event_type = oe_event_type event,
      eo_exchange = EVENT_EXCHANGE, eo_routing_key = oe_routing_key event,
      eo_payload = envelope E utc i event, eo_headers = event_headers event,
      eo_status = Pending, eo_attempts = 0, eo_last_error = None,
      eo_available_at = now, eo_published_at = None\<rparr>"

definition enqueue :: "ext \<Rightarrow> timestamp \<Rightarrow> timestamp \<Rightarrow> OutboxEvent \<Rightarrow> db \<Rightarrow> uuid \<times> db" where
  "enqueue E now utc event d =
     (let i = next_id d
      in (i, d\<lparr>next_id := Suc i,
               event_outbox := event_outbox d @ [outbox_row_of E now utc i event]\<rparr>))"

section \<open>What an outbox row carries\<close>

definition is_event :: "string \<Rightarrow> uuid \<Rightarrow> outbox_row \<Rightarrow> bool" where
  "is_event type agg r \<longleftrightarrow> eo_event_type r = type \<and> eo_aggregate_id r = agg"

definition events_of :: "string \<Rightarrow> uuid \<Rightarrow> db \<Rightarrow> outbox_row list" where
  "events_of type agg d = filter (is_event type agg) (event_outbox d)"

lemma enqueue_outbox [table_simps]:
  "event_outbox (snd (enqueue E now utc event d)) =
     event_outbox d @ [outbox_row_of E now utc (next_id d) event]"
  by (simp add: enqueue_def Let_def)

lemma enqueue_frame [table_simps]:
  "workflow_runs (snd (enqueue E now utc event d)) = workflow_runs d"
  "deployments (snd (enqueue E now utc event d)) = deployments d"
  "workflows (snd (enqueue E now utc event d)) = workflows d"
  "commits (snd (enqueue E now utc event d)) = commits d"
  "pull_requests (snd (enqueue E now utc event d)) = pull_requests d"
  "webhook_deliveries (snd (enqueue E now utc event d)) = webhook_deliveries d"
  "next_id (snd (enqueue E now utc event d)) = Suc (next_id d)"
  by (simp_all add: enqueue_def Let_def)

lemma outbox_row_of_new [row_simps]:
  "eo_event_type (outbox_row_of E now utc i (OutboxEvent_new at ai et org repo data)) = et"
  "eo_aggregate_id (outbox_row_of E now utc i (OutboxEvent_new at ai et org repo data)) = ai"
  "eo_status (outbox_row_of E now utc i event) = Pending"
  "eo_id (outbox_row_of E now utc i event) = i"
  by (simp_all add: outbox_row_of_def OutboxEvent_new_def)

text \<open>
  The id the row is stored under is the id inside the stored envelope: the value the relay
  sends as the message id and consumers deduplicate on.
\<close>

lemma envelope_id: "pointer [''id''] (eo_payload (outbox_row_of E now utc i event)) =
    Some (JStr (show_uuid E (eo_id (outbox_row_of E now utc i event))))"
  by (simp add: outbox_row_of_def envelope_def)

end
