(* ===== verification/Loops.thy ===== *)
theory Loops
  imports Main
begin

text \<open>
  The polling loops of the gateway (the webhook processor's and the outbox relay's) have
  one shape: repeat a step until it reports that there is nothing left to do, with
  whatever the environment answers in each round. \<open>run_loop\<close> runs such a loop with
  fuel; the locale \<open>work_loop\<close> gives the amount of fuel that is always enough, from a
  measure of the remaining work that every continuing round decreases.
\<close>

fun run_loop :: "('e \<Rightarrow> 's \<Rightarrow> bool \<times> 's) \<Rightarrow> nat \<Rightarrow> (nat \<Rightarrow> 'e) \<Rightarrow> nat \<Rightarrow> 's \<Rightarrow> 's option" where
  "run_loop step 0 env i s = None"
| "run_loop step (Suc fuel) env i s =
     (case step (env i) s of
        (False, s') \<Rightarrow> Some s'
      | (True, s') \<Rightarrow> run_loop step fuel env (Suc i) s')"

lemma run_loop_invariant:
  assumes "run_loop step fuel env i s = Some s'" and "I s"
    and "\<And>e s. I s \<Longrightarrow> I (snd (step e s))"
  shows "I s'"
  using assms(1,2)
proof (induction fuel arbitrary: i s)
  case 0
  then show ?case by simp
next
  case (Suc fuel)
  obtain c s1 where st: "step (env i) s = (c, s1)" by (cases "step (env i) s")
  with assms(3) [OF Suc.prems(2), of "env i"] have "I s1" by simp
  with Suc st show ?case by (cases c) auto
qed

lemma run_loop_more_fuel:
  "run_loop step fuel env i s = Some s' \<Longrightarrow> run_loop step (fuel + n) env i s = Some s'"
proof (induction fuel arbitrary: i s)
  case 0
  then show ?case by simp
next
  case (Suc fuel)
  then show ?case by (auto split: prod.splits bool.splits)
qed

text \<open>The state in which the loop stops is the result of a round that reported no more work.\<close>

lemma run_loop_final:
  "run_loop step fuel env i s = Some s' \<Longrightarrow> \<exists>j s0. step (env j) s0 = (False, s')"
proof (induction fuel arbitrary: i s)
  case 0
  then show ?case by simp
next
  case (Suc fuel)
  then show ?case by (auto split: prod.splits bool.splits)
qed

locale work_loop =
  fixes step :: "'e \<Rightarrow> 's \<Rightarrow> bool \<times> 's"
    and work :: "'s \<Rightarrow> nat"
    and inv :: "'s \<Rightarrow> bool"
  assumes step_work: "inv s \<Longrightarrow> step e s = (True, s') \<Longrightarrow> work s' < work s"
    and step_inv: "inv s \<Longrightarrow> inv (snd (step e s))"
begin

lemma enough_fuel: "inv s \<Longrightarrow> work s < fuel \<Longrightarrow> \<exists>s'. run_loop step fuel env i s = Some s'"
proof (induction fuel arbitrary: i s)
  case 0
  then show ?case by simp
next
  case (Suc fuel)
  obtain c s1 where st: "step (env i) s = (c, s1)" by (cases "step (env i) s")
  show ?case
  proof (cases c)
    case True
    with st Suc.prems have "work s1 < work s" by (auto intro: step_work)
    with Suc.prems have "work s1 < fuel" by simp
    moreover have "inv s1" using step_inv [OF Suc.prems(1), of "env i"] st by simp
    ultimately have "\<exists>s'. run_loop step fuel env (Suc i) s1 = Some s'" by (rule Suc.IH [rotated])
    with True st show ?thesis by simp
  next
    case False
    with st show ?thesis by simp
  qed
qed

lemma loop_inv: "inv s \<Longrightarrow> run_loop step fuel env i s = Some s' \<Longrightarrow> inv s'"
  using step_inv by (rule run_loop_invariant [where I = inv, rotated -1])

lemma terminates: "inv s \<Longrightarrow> \<exists>fuel s'. run_loop step fuel env i s = Some s' \<and> inv s'"
  using enough_fuel [of s "Suc (work s)" env i] loop_inv by fastforce

end

end
