(* ===== verification/Relay.thy ===== *)
theory Relay
  imports Events Loops
begin

text \<open>
  The outbox relay (\<^verbatim>\<open>gateway/src/relay.rs\<close>). A batch claims pending rows, publishes
  each with a broker confirm and records its fate, all in one transaction. What the broker
  and the network do to each publish, which rows other replicas hold locked, the clock and
  the fate of the commit are arguments, so the theorems hold for every combination.
  \<open>log\<close> is the list of messages the broker has accepted: it is outside Postgres and
  does not roll back.
\<close>

section \<open>Constants and data\<close>

definition BATCH_SIZE :: nat where
  "BATCH_SIZE = 50"

definition RELAY_MAX_ATTEMPTS :: int where
  "RELAY_MAX_ATTEMPTS = 8"

datatype relay_error = Connection | Db

text \<open>
  The fate of one publish: confirmed by an ack or a nack; lost (the publish or its confirm
  failed), with the flag telling whether the broker had accepted the message; or
  confirmed by an ack and followed by a failing \<open>UPDATE\<close>.
\<close>

datatype publish_outcome = Acked | Nacked | Lost bool | Ack_then_db_error | Nack_then_db_error

datatype commit_outcome = Committed | Commit_lost bool

record message =
  msg_exchange :: string
  msg_routing_key :: string
  msg_content_type :: string
  msg_delivery_mode :: int
  msg_id :: uuid
  msg_type :: string
  msg_timestamp :: int
  msg_body :: json

definition message_of :: "int \<Rightarrow> outbox_row \<Rightarrow> message" where
  "message_of utc_secs r =
     \<lparr>msg_exchange = eo_exchange r, msg_routing_key = eo_routing_key r,
      msg_content_type = ''application/json'', msg_delivery_mode = 2,
      msg_id = eo_id r, msg_type = eo_event_type r, msg_timestamp = utc_secs,
      msg_body = eo_payload r\<rparr>"

section \<open>Recording the outcome of a publish\<close>

definition backoff_secs :: "int \<Rightarrow> int" where
  "backoff_secs next_attempts = min (5 * 2 ^ nat (min next_attempts 6)) 300"

definition mark_published :: "timestamp \<Rightarrow> outbox_row \<Rightarrow> outbox_row" where
  "mark_published now r =
     r\<lparr>eo_status := Published, eo_published_at := Some now, eo_last_error := None\<rparr>"

definition record_failure :: "timestamp \<Rightarrow> uuid \<Rightarrow> int \<Rightarrow> string \<Rightarrow> db \<Rightarrow> db" where
  "record_failure now i attempts reason d =
     (let next_attempts = attempts + 1
      in if next_attempts \<ge> RELAY_MAX_ATTEMPTS
         then d\<lparr>event_outbox := upd_where (\<lambda>r. eo_id r = i)
                  (\<lambda>r. r\<lparr>eo_status := Publish_failed, eo_attempts := next_attempts,
                         eo_last_error := Some reason\<rparr>) (event_outbox d)\<rparr>
         else d\<lparr>event_outbox := upd_where (\<lambda>r. eo_id r = i)
                  (\<lambda>r. r\<lparr>eo_attempts := next_attempts, eo_last_error := Some reason,
                         eo_available_at := now + seconds (backoff_secs next_attempts)\<rparr>)
                  (event_outbox d)\<rparr>)"

section \<open>One batch\<close>

definition claimable :: "timestamp \<Rightarrow> uuid set \<Rightarrow> outbox_row \<Rightarrow> bool" where
  "claimable now locked r \<longleftrightarrow>
     eo_status r = Pending \<and> eo_available_at r \<le> now \<and> eo_id r \<notin> locked"

definition claim_rows :: "timestamp \<Rightarrow> uuid set \<Rightarrow> db \<Rightarrow> outbox_row list" where
  "claim_rows now locked d =
     take BATCH_SIZE (sort_key eo_id (filter (claimable now locked) (event_outbox d)))"

fun publish_rows ::
  "timestamp \<Rightarrow> int \<Rightarrow> (outbox_row \<Rightarrow> publish_outcome) \<Rightarrow> outbox_row list \<Rightarrow> db \<Rightarrow> message list
     \<Rightarrow> (relay_error + db) \<times> message list" where
  "publish_rows now utc broker [] d log = (Inr d, log)"
| "publish_rows now utc broker (r # rs) d log =
     (case broker r of
        Acked \<Rightarrow>
          publish_rows now utc broker rs
            (d\<lparr>event_outbox := upd_where (\<lambda>x. eo_id x = eo_id r) (mark_published now)
                                 (event_outbox d)\<rparr>)
            (log @ [message_of utc r])
      | Nacked \<Rightarrow>
          publish_rows now utc broker rs
            (record_failure now (eo_id r) (eo_attempts r) ''broker returned nack'' d) log
      | Lost accepted \<Rightarrow>
          (Inl Connection, if accepted then log @ [message_of utc r] else log)
      | Ack_then_db_error \<Rightarrow> (Inl Db, log @ [message_of utc r])
      | Nack_then_db_error \<Rightarrow> (Inl Db, log))"

text \<open>
  What a batch meets: the clocks, the rows other replicas hold, whether opening the
  transaction and fetching the rows succeeds, the fate of each publish and of the commit.
\<close>

record batch_env =
  be_now :: timestamp
  be_utc :: int
  be_locked :: "uuid set"
  be_fetched :: bool
  be_broker :: "outbox_row \<Rightarrow> publish_outcome"
  be_commit :: commit_outcome

definition drain_batch ::
  "batch_env \<Rightarrow> db \<Rightarrow> message list \<Rightarrow> (relay_error + nat) \<times> db \<times> message list" where
  "drain_batch env d log =
     (if \<not> be_fetched env then (Inl Db, d, log)
      else let rows = claim_rows (be_now env) (be_locked env) d
      in if rows = [] then ((if be_commit env = Committed then Inr 0 else Inl Db), d, log)
         else case publish_rows (be_now env) (be_utc env) (be_broker env) rows d log of
                (Inl e, log') \<Rightarrow> (Inl e, d, log')
              | (Inr d', log') \<Rightarrow>
                  (case be_commit env of
                     Committed \<Rightarrow> (Inr (length rows), d', log')
                   | Commit_lost applied \<Rightarrow> (Inl Db, if applied then d' else d, log')))"

section \<open>Serving\<close>

text \<open>The inner loop of \<open>serve\<close>: batches until the outbox is empty or an error ends it.\<close>

record relay_world =
  rw_db :: db
  rw_log :: "message list"
  rw_last :: "relay_error + nat"

definition drain_step :: "batch_env \<Rightarrow> relay_world \<Rightarrow> bool \<times> relay_world" where
  "drain_step env w =
     (case drain_batch env (rw_db w) (rw_log w) of
        (res, d', log') \<Rightarrow>
          ((case res of Inr n \<Rightarrow> n \<noteq> 0 | Inl e \<Rightarrow> False),
           \<lparr>rw_db = d', rw_log = log', rw_last = res\<rparr>))"

text \<open>
  Each claim of a row either takes it out of the pending set or raises its attempt count,
  which is capped: \<open>outbox_work\<close> bounds the number of batches one tick can run, and
  \<open>drain_outbox\<close> gives its loop one unit of fuel more (\<open>drain_outbox_returns\<close>
  shows that this is enough, so the \<open>None\<close> branch is never taken).
\<close>

definition row_work :: "outbox_row \<Rightarrow> nat" where
  "row_work r =
     (if eo_status r = Pending then Suc (nat (RELAY_MAX_ATTEMPTS - eo_attempts r)) else 0)"

definition outbox_work :: "db \<Rightarrow> nat" where
  "outbox_work d = sum_list (map row_work (event_outbox d))"

definition drain_outbox :: "(nat \<Rightarrow> batch_env) \<Rightarrow> relay_world \<Rightarrow> relay_world" where
  "drain_outbox env w =
     (case run_loop drain_step (Suc (outbox_work (rw_db w))) env 0 w of
        None \<Rightarrow> w | Some w' \<Rightarrow> w')"

text \<open>
  \<open>serve\<close> waits on the shutdown channel and a ticker; a run of it is a list of what
  \<open>tokio::select!\<close> returned. It ends with \<open>Ok\<close> on shutdown, with the connection
  error of a tick, or is still serving after these events.
\<close>

datatype serve_event =
    Shutdown_changed bool bool
  | Tick "nat \<Rightarrow> batch_env"

datatype serve_state = Still_serving | Serve_ok | Serve_err relay_error

fun serve :: "serve_event list \<Rightarrow> relay_world \<Rightarrow> serve_state \<times> relay_world" where
  "serve [] w = (Still_serving, w)"
| "serve (Shutdown_changed is_err value # evs) w =
     (if is_err \<or> value then (Serve_ok, w) else serve evs w)"
| "serve (Tick env # evs) w =
     (let w' = drain_outbox env w
      in if rw_last w' = Inl Connection then (Serve_err Connection, w') else serve evs w')"

text \<open>
  \<open>run\<close>: the reconnecting outer loop. One round reads the shutdown flag, tries to
  connect and, when connected, serves; a failed connection or a connection error leads to
  the next round (after the back-off wait). The flag of the result is true when the
  relay has stopped.
\<close>

datatype run_round = Connect_failed | Connected "serve_event list"

fun relay_run :: "(bool \<times> run_round) list \<Rightarrow> relay_world \<Rightarrow> bool \<times> relay_world" where
  "relay_run [] w = (False, w)"
| "relay_run ((shutdown, Connect_failed) # rounds) w =
     (if shutdown then (True, w) else relay_run rounds w)"
| "relay_run ((shutdown, Connected evs) # rounds) w =
     (if shutdown then (True, w)
      else case serve evs w of
             (Still_serving, w') \<Rightarrow> (False, w')
           | (Serve_ok, w') \<Rightarrow> (True, w')
           | (Serve_err e, w') \<Rightarrow> relay_run rounds w')"

section \<open>Back-off\<close>

lemma backoff_bounds: "1 \<le> n \<Longrightarrow> 10 \<le> backoff_secs n \<and> backoff_secs n \<le> 300"
proof -
  assume "1 \<le> n"
  then have "(2::int) ^ 1 \<le> 2 ^ nat (min n 6)"
    by (intro power_increasing) auto
  then show ?thesis by (auto simp: backoff_secs_def)
qed

lemma backoff_mono: "m \<le> n \<Longrightarrow> backoff_secs m \<le> backoff_secs n"
proof -
  assume "m \<le> n"
  then have "(2::int) ^ nat (min m 6) \<le> 2 ^ nat (min n 6)"
    by (intro power_increasing) auto
  then show ?thesis unfolding backoff_secs_def by (intro min.mono) auto
qed

section \<open>The effect of a batch on the rows\<close>

text \<open>The row a settled publish leaves behind.\<close>

definition settle :: "timestamp \<Rightarrow> publish_outcome \<Rightarrow> outbox_row \<Rightarrow> outbox_row" where
  "settle now out r =
     (case out of
        Acked \<Rightarrow> mark_published now r
      | Nacked \<Rightarrow>
          (if eo_attempts r + 1 \<ge> RELAY_MAX_ATTEMPTS
           then r\<lparr>eo_status := Publish_failed, eo_attempts := eo_attempts r + 1,
                  eo_last_error := Some ''broker returned nack''\<rparr>
           else r\<lparr>eo_attempts := eo_attempts r + 1,
                  eo_last_error := Some ''broker returned nack'',
                  eo_available_at := now + seconds (backoff_secs (eo_attempts r + 1))\<rparr>)
      | _ \<Rightarrow> r)"

lemma settle_id [row_simps]: "eo_id (settle now out r) = eo_id r"
  by (auto simp: settle_def mark_published_def split: publish_outcome.splits)

lemma settle_frame [row_simps]:
  "eo_payload (settle now out r) = eo_payload r"
  "eo_routing_key (settle now out r) = eo_routing_key r"
  "eo_exchange (settle now out r) = eo_exchange r"
  "eo_event_type (settle now out r) = eo_event_type r"
  "eo_aggregate_id (settle now out r) = eo_aggregate_id r"
  by (auto simp: settle_def mark_published_def split: publish_outcome.splits)

abbreviation outbox_ids :: "db \<Rightarrow> uuid list" where
  "outbox_ids d \<equiv> map eo_id (event_outbox d)"

text \<open>Updating by primary key is updating the one row with that key.\<close>

lemma upd_by_id:
  assumes "distinct (map eo_id rows)" and "r \<in> set rows"
  shows "upd_where (\<lambda>x. eo_id x = eo_id r) f rows = map (\<lambda>x. if x = r then f x else x) rows"
  using assms unfolding upd_where_def
  by (intro map_cong refl) (auto dest: distinct_key_unique)

definition settle_one :: "timestamp \<Rightarrow> publish_outcome \<Rightarrow> outbox_row \<Rightarrow> db \<Rightarrow> db" where
  "settle_one now out r d =
     d\<lparr>event_outbox := map (\<lambda>x. if x = r then settle now out x else x) (event_outbox d)\<rparr>"

lemma ack_update:
  assumes "distinct (outbox_ids d)" and "r \<in> set (event_outbox d)"
  shows "d\<lparr>event_outbox := upd_where (\<lambda>x. eo_id x = eo_id r) (mark_published now)
             (event_outbox d)\<rparr> = settle_one now Acked r d"
  by (simp add: settle_one_def settle_def upd_by_id [OF assms])

lemma nack_update:
  assumes "distinct (outbox_ids d)" and "r \<in> set (event_outbox d)"
  shows "record_failure now (eo_id r) (eo_attempts r) ''broker returned nack'' d =
         settle_one now Nacked r d"
  by (auto simp: settle_one_def settle_def record_failure_def Let_def upd_by_id [OF assms]
      intro!: map_cong)

lemma settle_one_ids: "outbox_ids (settle_one now out r d) = outbox_ids d"
  by (auto simp: settle_one_def settle_id)

lemma settle_one_other: "x \<in> set (event_outbox d) \<Longrightarrow> x \<noteq> r \<Longrightarrow>
    x \<in> set (event_outbox (settle_one now out r d))"
  by (auto simp: settle_one_def image_iff)

lemma publish_rows_ok:
  assumes "publish_rows now utc broker rs d log = (Inr d', log')"
    and "distinct (outbox_ids d)" and "set rs \<subseteq> set (event_outbox d)"
    and "distinct (map eo_id rs)"
  shows "d' = d\<lparr>event_outbox :=
                 map (\<lambda>r. if r \<in> set rs then settle now (broker r) r else r) (event_outbox d)\<rparr> \<and>
         log' = log @ map (message_of utc) (filter (\<lambda>r. broker r = Acked) rs) \<and>
         (\<forall>r\<in>set rs. broker r = Acked \<or> broker r = Nacked)"
  using assms
proof (induction rs arbitrary: d log)
  case Nil
  then show ?case by simp
next
  case (Cons r rs)
  let ?out = "broker r" and ?d1 = "settle_one now (broker r) r d"
  let ?log1 = "if broker r = Acked then log @ [message_of utc r] else log"
  have r: "r \<in> set (event_outbox d)" and fresh: "eo_id r \<notin> eo_id ` set rs"
    using Cons.prems by auto
  note upd = ack_update [OF Cons.prems(2) r] nack_update [OF Cons.prems(2) r]
  have run: "publish_rows now utc broker rs ?d1 ?log1 = (Inr d', log')"
    and out: "?out = Acked \<or> ?out = Nacked"
    using Cons.prems(1) upd by (auto split: publish_outcome.splits)
  have sub: "set rs \<subseteq> set (event_outbox ?d1)"
    using Cons.prems(3) fresh by (auto intro!: settle_one_other)
  have IH: "d' = ?d1\<lparr>event_outbox :=
      map (\<lambda>x. if x \<in> set rs then settle now (broker x) x else x) (event_outbox ?d1)\<rparr> \<and>
      log' = ?log1 @ map (message_of utc) (filter (\<lambda>r. broker r = Acked) rs) \<and>
      (\<forall>r\<in>set rs. broker r = Acked \<or> broker r = Nacked)"
    using Cons.prems(2,4) by (intro Cons.IH [OF run _ sub]) (simp_all add: settle_one_ids)
  have nin: "settle now ?out r \<notin> set rs"
    using fresh by (metis imageI settle_id)
  have "r \<notin> set rs" using fresh by auto
  with IH out nin show ?case
    by (auto simp: settle_one_def intro!: map_cong)
qed

lemma publish_rows_log:
  "publish_rows now utc broker rs d log = (res, log') \<Longrightarrow>
     \<exists>sent. log' = log @ sent \<and> set sent \<subseteq> message_of utc ` set rs"
proof (induction rs arbitrary: d log)
  case Nil
  then show ?case by simp
next
  case (Cons r rs)
  show ?case
  proof (cases "broker r")
    case Acked
    with Cons.prems have "\<exists>sent. log' = (log @ [message_of utc r]) @ sent \<and>
        set sent \<subseteq> message_of utc ` set rs"
      by (intro Cons.IH) simp
    then show ?thesis by force
  next
    case Nacked
    with Cons.prems have "\<exists>sent. log' = log @ sent \<and> set sent \<subseteq> message_of utc ` set rs"
      by (intro Cons.IH) simp
    then show ?thesis by force
  qed (use Cons.prems in \<open>auto split: if_splits\<close>)
qed

section \<open>Claiming\<close>

lemma claim_rows_set: "set (claim_rows now locked d) \<subseteq> {r \<in> set (event_outbox d). claimable now locked r}"
  by (auto simp: claim_rows_def dest: in_set_takeD)

lemma claim_rows_length: "length (claim_rows now locked d) \<le> BATCH_SIZE"
  by (simp add: claim_rows_def)

lemma claim_rows_sorted: "sorted (map eo_id (claim_rows now locked d))"
  by (simp add: claim_rows_def take_map [symmetric] sorted_wrt_take)

lemma claim_rows_distinct:
  "distinct (outbox_ids d) \<Longrightarrow> distinct (map eo_id (claim_rows now locked d))"
  unfolding claim_rows_def take_map [symmetric]
  by (rule distinct_take) (metis distinct_map_filter distinct_map distinct_sort set_sort)

lemma claim_rows_Nil: "claim_rows now locked d = [] \<longleftrightarrow> (\<forall>r\<in>set (event_outbox d). \<not> claimable now locked r)"
  by (auto simp: claim_rows_def BATCH_SIZE_def filter_empty_conv)

section \<open>The effect of a batch\<close>

abbreviation batch_rows :: "batch_env \<Rightarrow> db \<Rightarrow> outbox_row list" where
  "batch_rows env d \<equiv> claim_rows (be_now env) (be_locked env) d"

definition settled :: "batch_env \<Rightarrow> db \<Rightarrow> db" where
  "settled env d =
     d\<lparr>event_outbox :=
         map (\<lambda>r. if r \<in> set (batch_rows env d) then settle (be_now env) (be_broker env r) r else r)
             (event_outbox d)\<rparr>"

definition batch_acks :: "batch_env \<Rightarrow> db \<Rightarrow> message list" where
  "batch_acks env d =
     map (message_of (be_utc env)) (filter (\<lambda>r. be_broker env r = Acked) (batch_rows env d))"

lemma batch_publish:
  assumes "distinct (outbox_ids d)"
    and "publish_rows (be_now env) (be_utc env) (be_broker env) (batch_rows env d) d log = (Inr d', log')"
  shows "d' = settled env d \<and> log' = log @ batch_acks env d \<and>
         (\<forall>r\<in>set (batch_rows env d). be_broker env r = Acked \<or> be_broker env r = Nacked)"
proof -
  have "set (batch_rows env d) \<subseteq> set (event_outbox d)" using claim_rows_set by blast
  from publish_rows_ok [OF assms(2,1) this claim_rows_distinct [OF assms(1)]]
  show ?thesis by (simp add: settled_def batch_acks_def)
qed

text \<open>
  A batch either leaves the table alone (having possibly sent messages), or settles every
  claimed row; it reports success only in the second case.
\<close>

lemma drain_batch_effect:
  assumes "distinct (outbox_ids d)" and "drain_batch env d log = (res, d', log')"
  shows "(d' = d \<and> (\<exists>sent. log' = log @ sent \<and> set sent \<subseteq> message_of (be_utc env) ` set (batch_rows env d)))
       \<or> (d' = settled env d \<and> log' = log @ batch_acks env d \<and>
          (\<forall>r\<in>set (batch_rows env d). be_broker env r = Acked \<or> be_broker env r = Nacked))"
proof (cases "batch_rows env d = []")
  case True
  with assms(2) show ?thesis by (auto simp: drain_batch_def Let_def split: if_splits)
next
  case False
  obtain pr log1 where pub: "publish_rows (be_now env) (be_utc env) (be_broker env)
      (batch_rows env d) d log = (pr, log1)" by fastforce
  note sent = publish_rows_log [OF pub]
  show ?thesis
  proof (cases pr)
    case (Inl e)
    with False assms(2) pub sent show ?thesis by (auto simp: drain_batch_def Let_def split: if_splits)
  next
    case (Inr d1)
    with pub batch_publish [OF assms(1)] have
      "d1 = settled env d \<and> log1 = log @ batch_acks env d \<and>
       (\<forall>r\<in>set (batch_rows env d). be_broker env r = Acked \<or> be_broker env r = Nacked)"
      by blast
    with False assms(2) pub Inr sent show ?thesis
      by (auto simp: drain_batch_def Let_def split: commit_outcome.splits if_splits)
  qed
qed

lemma drain_batch_success:
  assumes "distinct (outbox_ids d)" and "drain_batch env d log = (Inr n, d', log')"
  shows "n = length (batch_rows env d) \<and> d' = settled env d \<and> log' = log @ batch_acks env d \<and>
         (\<forall>r\<in>set (batch_rows env d). be_broker env r = Acked \<or> be_broker env r = Nacked)"
proof (cases "batch_rows env d = []")
  case True
  with assms(2) show ?thesis
    by (auto simp: drain_batch_def settled_def batch_acks_def Let_def split: if_splits)
next
  case False
  then obtain d1 where pub: "publish_rows (be_now env) (be_utc env) (be_broker env)
      (batch_rows env d) d log = (Inr d1, log')" and d': "d' = d1" and n: "n = length (batch_rows env d)"
    using assms(2)
    by (auto simp: drain_batch_def Let_def split: if_splits prod.splits sum.splits commit_outcome.splits)
  with batch_publish [OF assms(1) pub] show ?thesis by simp
qed

lemma settled_ids [table_simps]: "outbox_ids (settled env d) = outbox_ids d"
  by (auto simp: settled_def settle_id)

lemma settled_next_id [table_simps]: "next_id (settled env d) = next_id d"
  by (simp add: settled_def)

lemma drain_batch_ids:
  "distinct (outbox_ids d) \<Longrightarrow> drain_batch env d log = (res, d', log') \<Longrightarrow> outbox_ids d' = outbox_ids d"
  using drain_batch_effect settled_ids by metis

section \<open>Progress\<close>

lemma settle_row_work:
  "eo_status r = Pending \<Longrightarrow> out = Acked \<or> out = Nacked \<Longrightarrow> row_work (settle now out r) < row_work r"
  by (auto simp: row_work_def settle_def mark_published_def RELAY_MAX_ATTEMPTS_def)

lemma batch_row_pending: "r \<in> set (batch_rows env d) \<Longrightarrow> r \<in> set (event_outbox d) \<and> eo_status r = Pending"
  using claim_rows_set by (fastforce simp: claimable_def)

lemma drain_batch_work:
  assumes "distinct (outbox_ids d)" and "drain_batch env d log = (Inr n, d', log')" and "n \<noteq> 0"
  shows "outbox_work d' < outbox_work d"
proof -
  let ?g = "\<lambda>r. if r \<in> set (batch_rows env d) then settle (be_now env) (be_broker env r) r else r"
  note ok = drain_batch_success [OF assms(1,2)]
  then obtain y where y: "y \<in> set (batch_rows env d)" using assms(3) by (cases "batch_rows env d") auto
  have lt: "row_work (?g r) < row_work r" if "r \<in> set (batch_rows env d)" for r
    using that ok batch_row_pending by (simp add: settle_row_work)
  have "sum_list (map (\<lambda>r. row_work (?g r)) (event_outbox d)) < sum_list (map row_work (event_outbox d))"
  proof (rule sum_list_map_strict)
    show "row_work (?g r) \<le> row_work r" for r using lt by (cases "r \<in> set (batch_rows env d)") (auto simp: less_imp_le)
    show "y \<in> set (event_outbox d)" using y batch_row_pending by blast
    show "row_work (?g y) < row_work y" using y by (rule lt)
  qed
  then show ?thesis using ok by (simp add: outbox_work_def settled_def o_def)
qed

interpretation relay_loop: work_loop drain_step "\<lambda>w. outbox_work (rw_db w)" "\<lambda>w. distinct (outbox_ids (rw_db w))"
proof
  fix s s' :: relay_world and e :: batch_env
  assume "distinct (outbox_ids (rw_db s))" and "drain_step e s = (True, s')"
  then show "outbox_work (rw_db s') < outbox_work (rw_db s)"
    using drain_batch_work by (auto simp: drain_step_def split: prod.splits sum.splits)
next
  fix s :: relay_world and e :: batch_env
  assume "distinct (outbox_ids (rw_db s))"
  then show "distinct (outbox_ids (rw_db (snd (drain_step e s))))"
    using drain_batch_ids by (fastforce simp: drain_step_def split: prod.splits)
qed

lemma drain_outbox_returns:
  assumes "distinct (outbox_ids (rw_db w))"
  shows "run_loop drain_step (Suc (outbox_work (rw_db w))) env 0 w = Some (drain_outbox env w)"
  using relay_loop.enough_fuel [OF assms, of "Suc (outbox_work (rw_db w))" env 0]
  by (auto simp: drain_outbox_def)

lemma drain_outbox_last:
  assumes "distinct (outbox_ids (rw_db w))"
  shows "rw_last (drain_outbox env w) = Inr 0 \<or> (\<exists>e. rw_last (drain_outbox env w) = Inl e)"
proof -
  from run_loop_final [OF drain_outbox_returns [OF assms]]
  obtain e w0 where "drain_step e w0 = (False, drain_outbox env w)" by blast
  then have eq: "drain_outbox env w = snd (drain_step e w0)" and stop: "\<not> fst (drain_step e w0)"
    by simp_all
  from stop show ?thesis
    unfolding eq by (auto simp: drain_step_def split: prod.splits sum.splits)
qed

section \<open>The outbox as a transition system\<close>

text \<open>
  Everything that happens to the outbox: an ingest transaction enqueues an event, or some
  replica runs a batch under an arbitrary environment.
\<close>

inductive outbox_step :: "db \<times> message list \<Rightarrow> db \<times> message list \<Rightarrow> bool" where
  Enqueue: "outbox_step (d, log) (snd (enqueue E now utc event d), log)"
| Batch: "drain_batch env d log = (res, d', log') \<Longrightarrow> outbox_step (d, log) (d', log')"

inductive outbox_reachable :: "db \<times> message list \<Rightarrow> bool" where
  Start: "event_outbox d = [] \<Longrightarrow> outbox_reachable (d, [])"
| Step: "outbox_reachable s \<Longrightarrow> outbox_step s s' \<Longrightarrow> outbox_reachable s'"

inductive_cases outbox_stepE: "outbox_step (d, log) s'"

text \<open>The message that carries a row, and the fates a row may have.\<close>

definition carries :: "message \<Rightarrow> outbox_row \<Rightarrow> bool" where
  "carries m r \<longleftrightarrow>
     msg_id m = eo_id r \<and> msg_body m = eo_payload r \<and> msg_exchange m = eo_exchange r \<and>
     msg_routing_key m = eo_routing_key r \<and> msg_type m = eo_event_type r"

definition row_ok :: "message list \<Rightarrow> outbox_row \<Rightarrow> bool" where
  "row_ok log r \<longleftrightarrow>
     0 \<le> eo_attempts r \<and>
     (case eo_status r of
        Pending \<Rightarrow> eo_attempts r < RELAY_MAX_ATTEMPTS
      | Published \<Rightarrow> eo_attempts r < RELAY_MAX_ATTEMPTS \<and> (\<exists>m\<in>set log. carries m r)
      | Publish_failed \<Rightarrow> eo_attempts r = RELAY_MAX_ATTEMPTS)"

definition outbox_inv :: "db \<times> message list \<Rightarrow> bool" where
  "outbox_inv s \<longleftrightarrow>
     distinct (outbox_ids (fst s)) \<and>
     (\<forall>r\<in>set (event_outbox (fst s)). eo_id r < next_id (fst s) \<and> row_ok (snd s) r)"

lemma message_carries: "carries (message_of utc r) r"
  by (simp add: carries_def message_of_def)

lemma carries_settle: "carries m (settle now out r) = carries m r"
  by (simp add: carries_def row_simps)

lemma row_ok_mono: "row_ok log r \<Longrightarrow> row_ok (log @ sent) r"
  by (auto simp: row_ok_def split: outbox_status.splits)

lemma row_ok_settle:
  assumes "row_ok log r" and "eo_status r = Pending" and "out = Acked \<or> out = Nacked"
    and "out = Acked \<Longrightarrow> message_of utc r \<in> set log'"
  shows "row_ok log' (settle now out r)"
proof (cases "out = Acked")
  case True
  then have "\<exists>m\<in>set log'. carries m (settle now out r)"
    using assms(4) message_carries carries_settle by blast
  with True assms(1,2) show ?thesis
    by (simp add: row_ok_def settle_def mark_published_def)
next
  case False
  with assms show ?thesis
    by (auto simp: row_ok_def settle_def RELAY_MAX_ATTEMPTS_def)
qed

lemma enqueue_inv:
  assumes "outbox_inv (d, log)"
  shows "outbox_inv (snd (enqueue E now utc event d), log)"
proof -
  have "row_ok log (outbox_row_of E now utc i event)" for i
    by (simp add: row_ok_def outbox_row_of_def RELAY_MAX_ATTEMPTS_def)
  with assms show ?thesis
    by (auto simp: outbox_inv_def table_simps outbox_row_of_def less_Suc_eq)
qed

lemma drain_batch_inv:
  assumes inv: "outbox_inv (d, log)" and run: "drain_batch env d log = (res, d', log')"
  shows "outbox_inv (d', log')"
proof -
  let ?rows = "batch_rows env d"
  from inv have dist: "distinct (outbox_ids d)" by (simp add: outbox_inv_def)
  from drain_batch_effect [OF dist run] show ?thesis
  proof (elim disjE conjE exE)
    fix sent assume "d' = d" and "log' = log @ sent"
    with inv show ?thesis by (auto simp: outbox_inv_def row_ok_mono)
  next
    assume d': "d' = settled env d" and log': "log' = log @ batch_acks env d"
      and outs: "\<forall>r\<in>set ?rows. be_broker env r = Acked \<or> be_broker env r = Nacked"
    have ack: "message_of (be_utc env) r \<in> set log'" if "r \<in> set ?rows" "be_broker env r = Acked" for r
      using that log' by (auto simp: batch_acks_def)
    have ok: "row_ok log' (settle (be_now env) (be_broker env r) r)" if "r \<in> set ?rows" for r
      using that inv outs batch_row_pending [OF that]
      by (intro row_ok_settle [of log _ _ "be_utc env"] ack) (auto simp: outbox_inv_def)
    have keep: "row_ok log' r" if "r \<in> set (event_outbox d)" for r
      using that inv log' by (auto simp: outbox_inv_def row_ok_mono)
    show ?thesis
      unfolding outbox_inv_def fst_conv snd_conv d' settled_ids settled_next_id
    proof (intro conjI ballI)
      show "distinct (outbox_ids d)" by (rule dist)
      fix r' assume "r' \<in> set (event_outbox (settled env d))"
      then obtain r where r: "r \<in> set (event_outbox d)" and
        r': "r' = (if r \<in> set ?rows then settle (be_now env) (be_broker env r) r else r)"
        by (auto simp: settled_def)
      from r r' inv show "eo_id r' < next_id d" by (auto simp: outbox_inv_def settle_id)
      from r r' ok keep show "row_ok log' r'" by auto
    qed
  qed
qed

lemma outbox_reachable_inv: "outbox_reachable s \<Longrightarrow> outbox_inv s"
proof (induction rule: outbox_reachable.induct)
  case (Start d)
  then show ?case by (simp add: outbox_inv_def)
next
  case (Step s s')
  then show ?case
    by (cases s) (auto elim!: outbox_stepE intro: enqueue_inv drain_batch_inv)
qed

section \<open>Refinement of an at-least-once channel\<close>

text \<open>
  The abstract promise of the outbox: an event is open until it is done or parked; open
  events may be sent any number of times; an event becomes done only after it was sent.
\<close>

record channel =
  ch_open :: "uuid set"
  ch_done :: "uuid set"
  ch_parked :: "uuid set"
  ch_sent :: "uuid list"

inductive channel_step :: "channel \<Rightarrow> channel \<Rightarrow> bool" where
  Put: "i \<notin> ch_open c \<union> ch_done c \<union> ch_parked c \<Longrightarrow>
          channel_step c (c\<lparr>ch_open := insert i (ch_open c)\<rparr>)"
| Send: "set is \<subseteq> ch_open c \<Longrightarrow> channel_step c (c\<lparr>ch_sent := ch_sent c @ is\<rparr>)"
| Settle: "S \<subseteq> ch_open c \<inter> set (ch_sent c) \<Longrightarrow> K \<subseteq> ch_open c - S \<Longrightarrow>
          channel_step c (c\<lparr>ch_open := ch_open c - S - K, ch_done := ch_done c \<union> S,
                             ch_parked := ch_parked c \<union> K\<rparr>)"

definition ids_with :: "outbox_status \<Rightarrow> db \<Rightarrow> uuid set" where
  "ids_with st d = eo_id ` {r \<in> set (event_outbox d). eo_status r = st}"

definition channel_of :: "db \<times> message list \<Rightarrow> channel" where
  "channel_of s =
     \<lparr>ch_open = ids_with Pending (fst s), ch_done = ids_with Published (fst s),
      ch_parked = ids_with Publish_failed (fst s), ch_sent = map msg_id (snd s)\<rparr>"

text \<open>The claimed rows of a batch that were acknowledged, and those that ran out of attempts.\<close>

definition acked_rows :: "batch_env \<Rightarrow> db \<Rightarrow> outbox_row set" where
  "acked_rows env d = {r \<in> set (batch_rows env d). be_broker env r = Acked}"

definition parked_rows :: "batch_env \<Rightarrow> db \<Rightarrow> outbox_row set" where
  "parked_rows env d =
     {r \<in> set (batch_rows env d). be_broker env r = Nacked \<and> eo_attempts r + 1 \<ge> RELAY_MAX_ATTEMPTS}"

lemma status_settled:
  assumes "\<forall>r\<in>set (batch_rows env d). be_broker env r = Acked \<or> be_broker env r = Nacked"
  shows "ids_with a (settled env d) =
     eo_id ` {r \<in> set (event_outbox d).
       (if r \<in> acked_rows env d then Published else if r \<in> parked_rows env d then Publish_failed
        else eo_status r) = a}"
proof -
  let ?g = "\<lambda>r. if r \<in> set (batch_rows env d) then settle (be_now env) (be_broker env r) r else r"
  have st: "eo_status (?g r) = (if r \<in> acked_rows env d then Published
      else if r \<in> parked_rows env d then Publish_failed else eo_status r)" for r
    using assms batch_row_pending [of r env d]
    by (auto simp: acked_rows_def parked_rows_def settle_def mark_published_def)
  have gid: "eo_id (?g r) = eo_id r" for r by (simp add: settle_id)
  have "ids_with a (settled env d) = eo_id ` (?g ` {r \<in> set (event_outbox d). eo_status (?g r) = a})"
    unfolding ids_with_def settled_def by (rule arg_cong [of _ _ "image eo_id"]) auto
  then show ?thesis by (simp only: st image_image gid)
qed

lemma ids_with_settled:
  assumes outs: "\<forall>r\<in>set (batch_rows env d). be_broker env r = Acked \<or> be_broker env r = Nacked"
    and dist: "distinct (outbox_ids d)"
  shows "ids_with Pending (settled env d) =
           ids_with Pending d - eo_id ` acked_rows env d - eo_id ` parked_rows env d"
    and "ids_with Published (settled env d) = ids_with Published d \<union> eo_id ` acked_rows env d"
    and "ids_with Publish_failed (settled env d) = ids_with Publish_failed d \<union> eo_id ` parked_rows env d"
    and "eo_id ` parked_rows env d \<subseteq> ids_with Pending d - eo_id ` acked_rows env d"
    and "eo_id ` acked_rows env d \<subseteq> ids_with Pending d"
proof -
  let ?T = "set (event_outbox d)" and ?A = "acked_rows env d" and ?K = "parked_rows env d"
  have inj: "inj_on eo_id ?T" using dist by (simp add: distinct_map)
  have A: "?A \<subseteq> {r \<in> ?T. eo_status r = Pending}" and K: "?K \<subseteq> {r \<in> ?T. eo_status r = Pending}"
    and AK: "?A \<inter> ?K = {}"
    using batch_row_pending by (auto simp: acked_rows_def parked_rows_def)
  have "{r \<in> ?T. (if r \<in> ?A then Published else if r \<in> ?K then Publish_failed else eo_status r) = Pending}
      = {r \<in> ?T. eo_status r = Pending} - ?A - ?K" by auto
  then have "ids_with Pending (settled env d) = eo_id ` ({r \<in> ?T. eo_status r = Pending} - ?A - ?K)"
    by (simp only: status_settled [OF outs])
  also have "\<dots> = eo_id ` ({r \<in> ?T. eo_status r = Pending} - ?A) - eo_id ` ?K"
    using A K by (intro inj_on_image_set_diff [OF inj]) auto
  also have "eo_id ` ({r \<in> ?T. eo_status r = Pending} - ?A) =
      eo_id ` {r \<in> ?T. eo_status r = Pending} - eo_id ` ?A"
    using A by (intro inj_on_image_set_diff [OF inj]) auto
  finally show "ids_with Pending (settled env d) = ids_with Pending d - eo_id ` ?A - eo_id ` ?K"
    by (simp add: ids_with_def)
  have "{r \<in> ?T. (if r \<in> ?A then Published else if r \<in> ?K then Publish_failed else eo_status r) = Published}
      = {r \<in> ?T. eo_status r = Published} \<union> ?A" using A K by auto
  then show "ids_with Published (settled env d) = ids_with Published d \<union> eo_id ` ?A"
    unfolding status_settled [OF outs] by (simp add: image_Un ids_with_def)
  have "{r \<in> ?T. (if r \<in> ?A then Published else if r \<in> ?K then Publish_failed else eo_status r) = Publish_failed}
      = {r \<in> ?T. eo_status r = Publish_failed} \<union> ?K" using A K AK by auto
  then show "ids_with Publish_failed (settled env d) = ids_with Publish_failed d \<union> eo_id ` ?K"
    unfolding status_settled [OF outs] by (simp add: image_Un ids_with_def)
  show "eo_id ` ?A \<subseteq> ids_with Pending d" using A by (auto simp: ids_with_def)
  have "eo_id ` ?K \<inter> eo_id ` ?A = {}"
    using inj_on_image_Int [OF inj, of ?K ?A] A K AK by blast
  then show "eo_id ` ?K \<subseteq> ids_with Pending d - eo_id ` ?A" using K by (auto simp: ids_with_def)
qed

text \<open>
  Every step of the outbox is a run of the abstract channel: an enqueue puts a fresh
  event, a batch sends some open events and then settles what it may.
\<close>

lemma ids_with_enqueue:
  "ids_with st (snd (enqueue E now utc event d)) =
     (if st = Pending then insert (next_id d) (ids_with st d) else ids_with st d)"
proof -
  have flt: "ids_with st d' = set (map eo_id (filter (\<lambda>r. eo_status r = st) (event_outbox d')))" for d'
    by (simp add: ids_with_def)
  show ?thesis unfolding flt enqueue_outbox by (simp add: outbox_row_of_def)
qed

lemma enqueue_refines:
  assumes "outbox_inv (d, log)"
  shows "channel_step (channel_of (d, log)) (channel_of (snd (enqueue E now utc event d), log))"
proof -
  let ?c = "channel_of (d, log)"
  have "next_id d \<notin> ch_open ?c \<union> ch_done ?c \<union> ch_parked ?c"
    using assms by (auto simp: channel_of_def ids_with_def outbox_inv_def)
  then have "channel_step ?c (?c\<lparr>ch_open := insert (next_id d) (ch_open ?c)\<rparr>)"
    by (rule channel_step.Put)
  then show ?thesis by (simp add: channel_of_def ids_with_enqueue)
qed

lemma send_refines:
  assumes "set sent \<subseteq> message_of utc ` set (batch_rows env d)"
  shows "channel_step (channel_of (d, log)) (channel_of (d, log @ sent))"
proof -
  have "set (map msg_id sent) \<subseteq> ch_open (channel_of (d, log))"
    using assms batch_row_pending
    by (fastforce simp: channel_of_def ids_with_def message_of_def)
  from channel_step.Send [OF this] show ?thesis by (simp add: channel_of_def)
qed

lemma settle_refines:
  assumes "\<forall>r\<in>set (batch_rows env d). be_broker env r = Acked \<or> be_broker env r = Nacked"
    and "distinct (outbox_ids d)"
  shows "channel_step (channel_of (d, log @ batch_acks env d))
                      (channel_of (settled env d, log @ batch_acks env d))"
proof -
  let ?c = "channel_of (d, log @ batch_acks env d)"
  note st = ids_with_settled [OF assms]
  have "eo_id ` acked_rows env d \<subseteq> set (ch_sent ?c)"
    by (auto simp: channel_of_def batch_acks_def acked_rows_def message_of_def image_iff)
  then have S: "eo_id ` acked_rows env d \<subseteq> ch_open ?c \<inter> set (ch_sent ?c)"
    using st(5) by (simp add: channel_of_def)
  have K: "eo_id ` parked_rows env d \<subseteq> ch_open ?c - eo_id ` acked_rows env d"
    using st(4) by (simp add: channel_of_def)
  from channel_step.Settle [OF S K] show ?thesis
    by (simp add: channel_of_def st(1,2,3))
qed

lemma outbox_step_refines:
  assumes "outbox_inv s" and "outbox_step s s'"
  shows "channel_step\<^sup>*\<^sup>* (channel_of s) (channel_of s')"
  using assms(2,1)
proof (cases rule: outbox_step.cases)
  case (Enqueue d log E now utc event)
  with assms(1) show ?thesis by (auto intro!: r_into_rtranclp enqueue_refines)
next
  case (Batch env d log res d' log')
  with assms(1) have dist: "distinct (outbox_ids d)" by (simp add: outbox_inv_def)
  from drain_batch_effect [OF dist Batch(3)] show ?thesis
    unfolding Batch(1,2)
  proof (elim disjE conjE exE)
    fix sent assume "d' = d" and "log' = log @ sent"
      and "set sent \<subseteq> message_of (be_utc env) ` set (batch_rows env d)"
    then show "channel_step\<^sup>*\<^sup>* (channel_of (d, log)) (channel_of (d', log'))"
      by (auto intro!: r_into_rtranclp send_refines)
  next
    assume d': "d' = settled env d" and log': "log' = log @ batch_acks env d"
      and outs: "\<forall>r\<in>set (batch_rows env d). be_broker env r = Acked \<or> be_broker env r = Nacked"
    have "set (batch_acks env d) \<subseteq> message_of (be_utc env) ` set (batch_rows env d)"
      by (auto simp: batch_acks_def)
    from send_refines [OF this] settle_refines [OF outs dist]
    have "channel_step\<^sup>*\<^sup>* (channel_of (d, log)) (channel_of (settled env d, log @ batch_acks env d))"
      by (rule converse_rtranclp_into_rtranclp [OF _ r_into_rtranclp])
    then show "channel_step\<^sup>*\<^sup>* (channel_of (d, log)) (channel_of (d', log'))"
      by (simp add: d' log')
  qed
qed

lemma outbox_reachable_refines:
  "outbox_reachable s \<Longrightarrow> \<exists>c0. ch_open c0 = {} \<and> ch_done c0 = {} \<and> ch_parked c0 = {} \<and> ch_sent c0 = [] \<and>
     channel_step\<^sup>*\<^sup>* c0 (channel_of s)"
proof (induction rule: outbox_reachable.induct)
  case (Start d)
  then show ?case
    by (intro exI [of _ "channel_of (d, [])"]) (simp add: channel_of_def ids_with_def)
next
  case (Step s s')
  from outbox_step_refines [OF outbox_reachable_inv [OF Step.hyps(1)] Step.hyps(2)] Step.IH
  show ?case by (meson rtranclp_trans)
qed

section \<open>Rows are never lost\<close>

text \<open>What a later state still knows of a row: the same event, settled or not.\<close>

definition same_event :: "outbox_row \<Rightarrow> outbox_row \<Rightarrow> bool" where
  "same_event r r' \<longleftrightarrow>
     eo_id r' = eo_id r \<and> eo_payload r' = eo_payload r \<and> eo_exchange r' = eo_exchange r \<and>
     eo_routing_key r' = eo_routing_key r \<and> eo_event_type r' = eo_event_type r \<and>
     eo_aggregate_id r' = eo_aggregate_id r"

lemma same_event_refl: "same_event r r"
  by (simp add: same_event_def)

lemma same_event_settle: "same_event r (settle now out r)"
  by (simp add: same_event_def row_simps)

lemma same_event_trans: "same_event a b \<Longrightarrow> same_event b c \<Longrightarrow> same_event a c"
  by (simp add: same_event_def)

lemma same_event_carries: "same_event r r' \<Longrightarrow> carries m r' \<longleftrightarrow> carries m r"
  by (simp add: same_event_def carries_def)

lemma outbox_step_keeps:
  assumes "outbox_inv s" and "outbox_step s s'" and "r \<in> set (event_outbox (fst s))"
  shows "\<exists>r'\<in>set (event_outbox (fst s')). same_event r r'"
  using assms(2,1,3)
proof (cases rule: outbox_step.cases)
  case (Enqueue d log E now utc event)
  with assms(3) show ?thesis by (auto simp: enqueue_outbox intro: same_event_refl)
next
  case (Batch env d log res d' log')
  with assms(1) have dist: "distinct (outbox_ids d)" by (simp add: outbox_inv_def)
  from drain_batch_effect [OF dist Batch(3)] have "d' = d \<or> d' = settled env d" by blast
  moreover have "\<exists>r'\<in>set (event_outbox (settled env d)). same_event r r'"
    if "r \<in> set (event_outbox d)"
    using that by (cases "r \<in> set (batch_rows env d)")
      (force simp: settled_def intro: same_event_refl same_event_settle)+
  ultimately show ?thesis using Batch assms(3) by (auto intro: same_event_refl)
qed

lemma outbox_steps_reachable:
  "outbox_step\<^sup>*\<^sup>* s s' \<Longrightarrow> outbox_reachable s \<Longrightarrow> outbox_reachable s'"
  by (induction rule: rtranclp_induct) (auto intro: outbox_reachable.Step)

lemma outbox_steps_keep:
  assumes "outbox_step\<^sup>*\<^sup>* s s'" and "outbox_reachable s" and "r \<in> set (event_outbox (fst s))"
  shows "\<exists>r'\<in>set (event_outbox (fst s')). same_event r r'"
  using assms
proof (induction rule: rtranclp_induct)
  case base
  then show ?case by (auto intro: same_event_refl)
next
  case (step s1 s2)
  then obtain r1 where "r1 \<in> set (event_outbox (fst s1))" and "same_event r r1" by blast
  with outbox_step_keeps [OF outbox_reachable_inv [OF outbox_steps_reachable [OF step.hyps(1)]] step.hyps(2)]
    step.prems show ?case by (meson same_event_trans)
qed

section \<open>The relay's own loops are runs of the outbox\<close>

lemma drain_step_steps:
  "outbox_step\<^sup>*\<^sup>* s (rw_db w, rw_log w) \<Longrightarrow>
     outbox_step\<^sup>*\<^sup>* s (rw_db (snd (drain_step env w)), rw_log (snd (drain_step env w)))"
proof -
  assume s: "outbox_step\<^sup>*\<^sup>* s (rw_db w, rw_log w)"
  obtain res d' log' where b: "drain_batch env (rw_db w) (rw_log w) = (res, d', log')"
    using prod_cases3 by blast
  with rtranclp.rtrancl_into_rtrancl [OF s outbox_step.Batch [OF b]] show ?thesis
    by (simp add: drain_step_def)
qed

lemma drain_outbox_steps:
  "outbox_step\<^sup>*\<^sup>* (rw_db w, rw_log w) (rw_db (drain_outbox env w), rw_log (drain_outbox env w))"
proof (cases "run_loop drain_step (Suc (outbox_work (rw_db w))) env 0 w")
  case None
  then show ?thesis by (simp add: drain_outbox_def)
next
  case (Some w')
  let ?I = "\<lambda>v. outbox_step\<^sup>*\<^sup>* (rw_db w, rw_log w) (rw_db v, rw_log v)"
  have "?I w'" by (rule run_loop_invariant [OF Some, of ?I]) (auto intro: drain_step_steps)
  with Some show ?thesis by (simp add: drain_outbox_def)
qed

lemma serve_steps:
  "serve evs w = (st, w') \<Longrightarrow> outbox_step\<^sup>*\<^sup>* (rw_db w, rw_log w) (rw_db w', rw_log w')"
proof (induction evs w arbitrary: st w' rule: serve.induct)
  case (3 env evs w)
  from drain_outbox_steps [of w env] 3 show ?case
    by (auto simp: Let_def split: if_splits intro: rtranclp_trans)
qed (auto split: if_splits)

lemma relay_run_steps:
  "relay_run rounds w = (stopped, w') \<Longrightarrow> outbox_step\<^sup>*\<^sup>* (rw_db w, rw_log w) (rw_db w', rw_log w')"
proof (induction rounds w arbitrary: w' rule: relay_run.induct)
  case (3 shutdown evs rounds w)
  obtain st w1 where "serve evs w = (st, w1)" by fastforce
  with 3 serve_steps [OF this] show ?case
    by (cases st) (auto split: if_splits intro: rtranclp_trans)
qed (auto split: if_splits)

section \<open>What one batch sends\<close>

definition accepted :: "publish_outcome \<Rightarrow> bool" where
  "accepted out \<longleftrightarrow> out = Acked \<or> out = Lost True \<or> out = Ack_then_db_error"

lemma publish_rows_sent:
  "publish_rows now utc broker rs d log = (res, log') \<Longrightarrow>
     \<exists>n. log' = log @ map (message_of utc) (filter (\<lambda>r. accepted (broker r)) (take n rs))"
proof (induction rs arbitrary: d log)
  case Nil
  then show ?case by simp
next
  case (Cons r rs)
  show ?case
  proof (cases "broker r = Acked \<or> broker r = Nacked")
    case True
    with Cons.prems obtain d1 where
      "publish_rows now utc broker rs d1
         (if broker r = Acked then log @ [message_of utc r] else log) = (res, log')"
      by auto
    from Cons.IH [OF this] obtain n where n:
      "log' = (if broker r = Acked then log @ [message_of utc r] else log) @
         map (message_of utc) (filter (\<lambda>r. accepted (broker r)) (take n rs))"
      by blast
    with True show ?thesis by (intro exI [of _ "Suc n"]) (auto simp: accepted_def)
  next
    case False
    with Cons.prems show ?thesis
      by (intro exI [of _ "Suc 0"]) (auto simp: accepted_def split: publish_outcome.splits if_splits)
  qed
qed

lemma drain_batch_sent:
  assumes "drain_batch env d log = (res, d', log')"
  shows "\<exists>n. log' = log @ map (message_of (be_utc env))
           (filter (\<lambda>r. accepted (be_broker env r)) (take n (batch_rows env d)))"
proof (cases "batch_rows env d = []")
  case True
  with assms show ?thesis by (auto simp: drain_batch_def Let_def split: if_splits)
next
  case False
  obtain pr log1 where pub: "publish_rows (be_now env) (be_utc env) (be_broker env)
      (batch_rows env d) d log = (pr, log1)" by fastforce
  with False assms have "log' = log1 \<or> log' = log"
    by (auto simp: drain_batch_def Let_def split: if_splits sum.splits commit_outcome.splits)
  moreover have "\<exists>n. log = log @ map (message_of (be_utc env))
      (filter (\<lambda>r. accepted (be_broker env r)) (take n (batch_rows env d)))"
    by (intro exI [of _ 0]) simp
  ultimately show ?thesis using publish_rows_sent [OF pub] by auto
qed

lemma sorted_map_filter_take: "sorted (map f xs) \<Longrightarrow> sorted (map f (filter P (take n xs)))"
  by (metis sorted_wrt_map sorted_wrt_filter sorted_wrt_take take_map)

lemma distinct_map_filter_take: "distinct (map f xs) \<Longrightarrow> distinct (map f (filter P (take n xs)))"
  by (metis distinct_map_filter distinct_take take_map)

lemma drain_step_idle:
  assumes "drain_step env w = (False, w')" and "rw_last w' = Inr n"
  shows "\<forall>r\<in>set (event_outbox (rw_db w')). \<not> claimable (be_now env) (be_locked env) r"
proof -
  from assms have "drain_batch env (rw_db w) (rw_log w) = (Inr 0, rw_db w', rw_log w')"
    by (auto simp: drain_step_def split: prod.splits sum.splits)
  then have "batch_rows env (rw_db w) = [] \<and> rw_db w' = rw_db w"
    by (auto simp: drain_batch_def Let_def split: if_splits prod.splits sum.splits commit_outcome.splits)
  then show ?thesis using claim_rows_Nil by metis
qed

lemma drain_outbox_idle:
  assumes "distinct (outbox_ids (rw_db w))"
  shows "(\<exists>e. rw_last (drain_outbox env w) = Inl e) \<or>
     (\<exists>j. \<forall>r\<in>set (event_outbox (rw_db (drain_outbox env w))).
            \<not> claimable (be_now (env j)) (be_locked (env j)) r)"
proof -
  from run_loop_final [OF drain_outbox_returns [OF assms, of env]]
  obtain j w0 where "drain_step (env j) w0 = (False, drain_outbox env w)" by blast
  from drain_step_idle [OF this] show ?thesis
    by (cases "rw_last (drain_outbox env w)") auto
qed

lemma settled_row:
  assumes "distinct (outbox_ids d)" and "r \<in> set (batch_rows env d)"
  shows "find (\<lambda>x. eo_id x = eo_id r) (event_outbox (settled env d)) =
           Some (settle (be_now env) (be_broker env r) r)"
proof -
  let ?s = "settle (be_now env) (be_broker env r) r"
  have "?s \<in> set (event_outbox (settled env d))"
    using assms(2) batch_row_pending [OF assms(2)] by (auto simp: settled_def)
  moreover have "distinct (outbox_ids (settled env d))" using assms(1) by (simp add: settled_ids)
  ultimately show ?thesis using find_key_eq [of eo_id "event_outbox (settled env d)" ?s]
    by (simp add: settle_id)
qed

text \<open>The rounds in which a shutdown was requested.\<close>

fun asks_shutdown :: "serve_event \<Rightarrow> bool" where
  "asks_shutdown (Shutdown_changed is_err v) \<longleftrightarrow> is_err \<or> v"
| "asks_shutdown (Tick env) \<longleftrightarrow> False"

fun round_shutdown :: "bool \<times> run_round \<Rightarrow> bool" where
  "round_shutdown (shutdown, Connect_failed) \<longleftrightarrow> shutdown"
| "round_shutdown (shutdown, Connected evs) \<longleftrightarrow> shutdown \<or> list_ex asks_shutdown evs"

lemma serve_stops: "serve evs w = (Serve_ok, w') \<Longrightarrow> list_ex asks_shutdown evs"
  by (induction evs w rule: serve.induct) (auto simp: Let_def split: if_splits)

lemma relay_run_stops: "relay_run rounds w = (True, w') \<Longrightarrow> list_ex round_shutdown rounds"
proof (induction rounds w arbitrary: w' rule: relay_run.induct)
  case (3 shutdown evs rounds w)
  obtain st w1 where sv: "serve evs w = (st, w1)" by fastforce
  with 3 serve_stops [of evs w w1] show ?case
    by (cases st) (auto split: if_splits)
qed (auto split: if_splits)

section \<open>Properties of the relay\<close>

text \<open>A database with one event, and a batch in which every publish has the same fate.\<close>

definition demo_event :: OutboxEvent where
  "demo_event = OutboxEvent_new ''workflow_run'' 7 ''workflow_run.completed'' 2 3 JNull"

definition demo_outbox :: db where
  "demo_outbox = snd (enqueue demo_ext 0 0 demo_event empty_db)"

definition demo_batch :: "publish_outcome \<Rightarrow> timestamp \<Rightarrow> batch_env" where
  "demo_batch out now =
     \<lparr>be_now = now, be_utc = 0, be_locked = {}, be_fetched = True, be_broker = (\<lambda>_. out), be_commit = Committed\<rparr>"

lemma demo_outbox_reachable: "outbox_reachable (demo_outbox, [])"
  unfolding demo_outbox_def
  by (rule outbox_reachable.Step [OF outbox_reachable.Start [of empty_db] outbox_step.Enqueue])
    (simp add: empty_db_def)

lemma demo_outbox_rows:
  "event_outbox demo_outbox = [outbox_row_of demo_ext 0 0 1 demo_event]"
  "outbox_work demo_outbox = 9"
  by (simp_all add: demo_outbox_def enqueue_def empty_db_def outbox_work_def row_work_def
      outbox_row_of_def RELAY_MAX_ATTEMPTS_def)

lemma demo_batch_rows:
  "0 \<le> now \<Longrightarrow> batch_rows (demo_batch out now) demo_outbox = [outbox_row_of demo_ext 0 0 1 demo_event]"
  by (simp add: demo_batch_def claim_rows_def demo_outbox_rows claimable_def outbox_row_of_def BATCH_SIZE_def)

lemma demo_batch_run:
  "drain_batch (demo_batch Acked 5) demo_outbox [] =
     (Inr 1, settled (demo_batch Acked 5) demo_outbox, [message_of 0 (outbox_row_of demo_ext 0 0 1 demo_event)])"
  "drain_batch (demo_batch Nacked 5) demo_outbox [] = (Inr 1, settled (demo_batch Nacked 5) demo_outbox, [])"
  by (simp_all add: drain_batch_def demo_batch_rows Let_def)
    (simp_all add: demo_batch_def ack_update nack_update settle_one_def settled_def demo_outbox_rows
      claim_rows_def claimable_def outbox_row_of_def BATCH_SIZE_def record_failure_def settle_def
      RELAY_MAX_ATTEMPTS_def)

text \<open>
  C1. At-least-once publication: an event that reached the outbox stays there under its
  id and payload whatever enqueues, relay batches, replicas, broker answers and commit
  failures follow; whenever its row is marked published the broker has accepted a message
  carrying exactly that row, and it is marked failed only after all eight attempts.
\<close>

theorem outbox_at_least_once:
  assumes "outbox_reachable (d, log)" and "outbox_step\<^sup>*\<^sup>* (d, log) (d', log')"
    and "r \<in> set (event_outbox d)"
  shows "\<exists>r'\<in>set (event_outbox d'). same_event r r' \<and>
     (case eo_status r' of
        Pending \<Rightarrow> 0 \<le> eo_attempts r' \<and> eo_attempts r' < 8
      | Published \<Rightarrow> \<exists>m\<in>set log'. carries m r
      | Publish_failed \<Rightarrow> eo_attempts r' = 8)"
proof -
  from outbox_steps_keep [OF assms(2,1)] assms(3) obtain r' where
    r': "r' \<in> set (event_outbox d')" "same_event r r'" by auto
  from outbox_reachable_inv [OF outbox_steps_reachable [OF assms(2,1)]] r'
  have "row_ok log' r'" by (simp add: outbox_inv_def)
  with r' show ?thesis
    by (intro bexI [of _ r'])
      (auto simp: row_ok_def RELAY_MAX_ATTEMPTS_def same_event_carries split: outbox_status.splits)
qed

theorem outbox_at_least_once_witness:
  "\<exists>r'\<in>set (event_outbox (settled (demo_batch Acked 5) demo_outbox)).
     same_event (outbox_row_of demo_ext 0 0 1 demo_event) r' \<and>
     (case eo_status r' of
        Pending \<Rightarrow> 0 \<le> eo_attempts r' \<and> eo_attempts r' < 8
      | Published \<Rightarrow> \<exists>m\<in>set [message_of 0 (outbox_row_of demo_ext 0 0 1 demo_event)].
                       carries m (outbox_row_of demo_ext 0 0 1 demo_event)
      | Publish_failed \<Rightarrow> eo_attempts r' = 8)"
  by (rule outbox_at_least_once [OF demo_outbox_reachable
        r_into_rtranclp [where r = outbox_step, OF outbox_step.Batch [OF demo_batch_run(1)]]])
    (simp add: demo_outbox_rows)

text \<open>
  C2. The outbox implements the abstract at-least-once channel: every step from a reachable
  state (an enqueue, or a batch with any broker behaviour, locks and commit outcome) is a
  sequence of channel steps, in which only open events are sent and only events that were
  sent become done.
\<close>

theorem outbox_refines_channel:
  assumes "outbox_reachable s" and "outbox_step s s'"
  shows "channel_step\<^sup>*\<^sup>* (channel_of s) (channel_of s')"
  by (rule outbox_step_refines [OF outbox_reachable_inv [OF assms(1)] assms(2)])

theorem outbox_refines_channel_witness:
  "channel_step\<^sup>*\<^sup>* (channel_of (demo_outbox, []))
     (channel_of (settled (demo_batch Acked 5) demo_outbox, [message_of 0 (outbox_row_of demo_ext 0 0 1 demo_event)]))"
  by (rule outbox_refines_channel [OF demo_outbox_reachable outbox_step.Batch [OF demo_batch_run(1)]])

text \<open>
  A tick of the relay's serving loop terminates: after at most one batch more than the
  attempts left on the pending rows, the loop ends, and it ends either with an error to
  report or in a state where no row was claimable at the time of its last batch.
\<close>

theorem drain_loop_terminates:
  assumes "distinct (outbox_ids (rw_db w))"
  shows "\<exists>w'. run_loop drain_step (Suc (outbox_work (rw_db w))) env 0 w = Some w' \<and>
     w' = drain_outbox env w \<and>
     ((\<exists>e. rw_last w' = Inl e) \<or>
      (\<exists>j. \<forall>r\<in>set (event_outbox (rw_db w')). \<not> claimable (be_now (env j)) (be_locked (env j)) r))"
  using drain_outbox_returns [OF assms, of env] drain_outbox_idle [OF assms, of env] by simp

theorem drain_loop_terminates_witness:
  "\<exists>w'. run_loop drain_step 10 (\<lambda>_. demo_batch Nacked 5) 0
          \<lparr>rw_db = demo_outbox, rw_log = [], rw_last = Inr 0\<rparr> = Some w' \<and>
     w' = drain_outbox (\<lambda>_. demo_batch Nacked 5) \<lparr>rw_db = demo_outbox, rw_log = [], rw_last = Inr 0\<rparr> \<and>
     ((\<exists>e. rw_last w' = Inl e) \<or>
      (\<exists>j::nat. \<forall>r\<in>set (event_outbox (rw_db w')). \<not> claimable (be_now (demo_batch Nacked 5)) (be_locked (demo_batch Nacked 5)) r))"
  using drain_loop_terminates [of "\<lparr>rw_db = demo_outbox, rw_log = [], rw_last = Inr 0\<rparr>" "\<lambda>_. demo_batch Nacked 5"]
  by (simp add: demo_outbox_rows)

text \<open>
  The retry schedule of a rejected row: after a committed batch in which the broker
  rejected it, the n-th rejection leaves the row pending and unavailable for exactly
  10, 20, 40, 80, 160, 300 and 300 seconds, and the eighth parks it as failed; the stored
  attempt count rises by one and the reason is recorded.
\<close>

theorem nack_schedule:
  assumes "distinct (outbox_ids d)" and "drain_batch env d log = (Inr n, d', log')"
    and "r \<in> set (batch_rows env d)" and "be_broker env r = Nacked"
    and "0 \<le> eo_attempts r" and "eo_attempts r < 8"
  shows "\<exists>r'. find (\<lambda>x. eo_id x = eo_id r) (event_outbox d') = Some r' \<and>
     eo_attempts r' = eo_attempts r + 1 \<and> eo_last_error r' = Some ''broker returned nack'' \<and>
     (if eo_attempts r = 7 then eo_status r' = Publish_failed
      else eo_status r' = Pending \<and>
           eo_available_at r' = be_now env + seconds ([10, 20, 40, 80, 160, 300, 300] ! nat (eo_attempts r)))"
proof -
  have d': "d' = settled env d" using drain_batch_success [OF assms(1,2)] by simp
  have "eo_attempts r \<in> {0, 1, 2, 3, 4, 5, 6, 7}" using assms(5,6) by auto
  then show ?thesis
    using batch_row_pending [OF assms(3)] unfolding d' settled_row [OF assms(1,3)] assms(4)
    by (auto simp: settle_def RELAY_MAX_ATTEMPTS_def backoff_secs_def)
qed

theorem nack_schedule_witness:
  "\<exists>r'. find (\<lambda>x. eo_id x = 1) (event_outbox (settled (demo_batch Nacked 5) demo_outbox)) = Some r' \<and>
     eo_attempts r' = 1 \<and> eo_last_error r' = Some ''broker returned nack'' \<and>
     eo_status r' = Pending \<and> eo_available_at r' = 10000005"
  using nack_schedule [OF _ demo_batch_run(2), of "outbox_row_of demo_ext 0 0 1 demo_event"]
  by (simp add: demo_outbox_rows demo_batch_rows)
    (simp add: demo_batch_def outbox_row_of_def seconds_def)

text \<open>
  What one batch hands to the broker, on every path: at most fifty messages, in strictly
  increasing id order (the order the events were enqueued in), each of them the faithful
  message of a row that was pending, due and not locked by another replica.
\<close>

theorem batch_order_and_size:
  assumes "distinct (outbox_ids d)" and "drain_batch env d log = (res, d', log')"
  shows "\<exists>sent. log' = log @ map (message_of (be_utc env)) sent \<and> length sent \<le> 50 \<and>
     sorted (map eo_id sent) \<and> distinct (map eo_id sent) \<and>
     (\<forall>r\<in>set sent. r \<in> set (event_outbox d) \<and> claimable (be_now env) (be_locked env) r)"
proof -
  obtain n where log': "log' = log @ map (message_of (be_utc env))
      (filter (\<lambda>r. accepted (be_broker env r)) (take n (batch_rows env d)))"
    using drain_batch_sent [OF assms(2)] by blast
  let ?sent = "filter (\<lambda>r. accepted (be_broker env r)) (take n (batch_rows env d))"
  have "length ?sent \<le> 50"
    using claim_rows_length [of "be_now env" "be_locked env" d]
      length_filter_le [of "\<lambda>r. accepted (be_broker env r)" "take n (batch_rows env d)"]
    by (simp add: BATCH_SIZE_def)
  moreover have "set ?sent \<subseteq> set (batch_rows env d)" by (auto dest: in_set_takeD)
  ultimately show ?thesis
    using log' claim_rows_set
      sorted_map_filter_take [OF claim_rows_sorted] distinct_map_filter_take [OF claim_rows_distinct [OF assms(1)]]
    by (intro exI [of _ ?sent]) blast
qed

theorem batch_order_and_size_witness:
  "\<exists>sent. [message_of 0 (outbox_row_of demo_ext 0 0 1 demo_event)] = [] @ map (message_of (be_utc (demo_batch Acked 5))) sent \<and>
     length sent \<le> 50 \<and> sorted (map eo_id sent) \<and> distinct (map eo_id sent) \<and>
     (\<forall>r\<in>set sent. r \<in> set (event_outbox demo_outbox) \<and>
        claimable (be_now (demo_batch Acked 5)) (be_locked (demo_batch Acked 5)) r)"
  by (rule batch_order_and_size [OF _ demo_batch_run(1)]) (simp add: demo_outbox_rows)

text \<open>
  C3. A whole run of the relay task, over any sequence of connections, ticks and shutdown
  signals, is a run of outbox steps (so the at-least-once guarantee covers it), and the
  task ends only when a shutdown was requested: a lost broker connection or a failing
  database never ends it.
\<close>

theorem relay_run_safe:
  assumes "relay_run rounds w = (stopped, w')"
  shows "outbox_step\<^sup>*\<^sup>* (rw_db w, rw_log w) (rw_db w', rw_log w') \<and>
    (stopped \<longrightarrow> list_ex round_shutdown rounds)"
  using relay_run_steps [OF assms] relay_run_stops [of rounds w w'] assms by auto

theorem relay_run_safe_witness:
  "outbox_step\<^sup>*\<^sup>* (demo_outbox, []) (demo_outbox, []) \<and>
    list_ex round_shutdown [(False, Connect_failed), (False, Connected [Shutdown_changed False True])]"
  using relay_run_safe [of "[(False, Connect_failed), (False, Connected [Shutdown_changed False True])]"
      "\<lparr>rw_db = demo_outbox, rw_log = [], rw_last = Inr 0\<rparr>" True "\<lparr>rw_db = demo_outbox, rw_log = [], rw_last = Inr 0\<rparr>"]
  by simp

end
