(* ===== verification/Redis.thy ===== *)
theory Redis
  imports Json
begin

text \<open>
  The Redis commands the gateway issues (\<open>GET\<close>, \<open>SET \<dots> EX [NX]\<close>, \<open>DEL\<close>,
  \<open>GETDEL\<close>, \<open>SADD\<close>, \<open>SREM\<close>, \<open>EXPIRE\<close>) on a map from keys to values
  with an expiry time, and the decimal rendering of integers that keys contain.
  The locale \<open>expiring_store\<close> is what the clients (installation-token cache, sessions,
  OAuth state) rely on.
\<close>

datatype redis_value = RStr string | RSet "string set"

type_synonym redis = "string \<rightharpoonup> redis_value \<times> timestamp option"

definition is_live :: "timestamp \<Rightarrow> timestamp option \<Rightarrow> bool" where
  "is_live now expiry = (case expiry of None \<Rightarrow> True | Some t \<Rightarrow> now < t)"

definition live :: "timestamp \<Rightarrow> string \<Rightarrow> redis \<Rightarrow> redis_value option" where
  "live now k r =
     (case r k of
        None \<Rightarrow> None
      | Some (v, expiry) \<Rightarrow> if is_live now expiry then Some v else None)"

text \<open>\<open>GET\<close>; a key that holds a set is a type error in Redis and never asked for here.\<close>

definition r_get :: "timestamp \<Rightarrow> string \<Rightarrow> redis \<Rightarrow> string option" where
  "r_get now k r = (case live now k r of Some (RStr s) \<Rightarrow> Some s | _ \<Rightarrow> None)"

definition r_set_ex :: "timestamp \<Rightarrow> int \<Rightarrow> string \<Rightarrow> string \<Rightarrow> redis \<Rightarrow> redis" where
  "r_set_ex now ttl k v r = r(k \<mapsto> (RStr v, Some (now + seconds ttl)))"

text \<open>\<open>SET \<dots> NX\<close>: the flag tells whether the value was stored.\<close>

definition r_set_ex_nx :: "timestamp \<Rightarrow> int \<Rightarrow> string \<Rightarrow> string \<Rightarrow> redis \<Rightarrow> bool \<times> redis" where
  "r_set_ex_nx now ttl k v r =
     (if live now k r = None then (True, r_set_ex now ttl k v r) else (False, r))"

definition r_del :: "string \<Rightarrow> redis \<Rightarrow> redis" where
  "r_del k r = r(k := None)"

definition r_getdel :: "timestamp \<Rightarrow> string \<Rightarrow> redis \<Rightarrow> string option \<times> redis" where
  "r_getdel now k r = (r_get now k r, r_del k r)"

text \<open>\<open>SADD\<close> keeps the expiry of an existing set; \<open>SREM\<close> removes an emptied key.\<close>

definition r_members :: "timestamp \<Rightarrow> string \<Rightarrow> redis \<Rightarrow> string set" where
  "r_members now k r = (case live now k r of Some (RSet s) \<Rightarrow> s | _ \<Rightarrow> {})"

definition r_expiry :: "timestamp \<Rightarrow> string \<Rightarrow> redis \<Rightarrow> timestamp option" where
  "r_expiry now k r = (if live now k r = None then None else Option.bind (r k) snd)"

definition r_sadd :: "timestamp \<Rightarrow> string \<Rightarrow> string \<Rightarrow> redis \<Rightarrow> redis" where
  "r_sadd now k x r = r(k \<mapsto> (RSet (insert x (r_members now k r)), r_expiry now k r))"

definition r_srem :: "timestamp \<Rightarrow> string \<Rightarrow> string \<Rightarrow> redis \<Rightarrow> redis" where
  "r_srem now k x r =
     (let s = r_members now k r - {x}
      in if s = {} then r(k := None) else r(k \<mapsto> (RSet s, r_expiry now k r)))"

definition r_expire :: "timestamp \<Rightarrow> string \<Rightarrow> int \<Rightarrow> redis \<Rightarrow> redis" where
  "r_expire now k ttl r =
     (case live now k r of
        None \<Rightarrow> r
      | Some v \<Rightarrow> r(k \<mapsto> (v, Some (now + seconds ttl))))"

section \<open>The interface the clients rely on\<close>

locale expiring_store =
  fixes get :: "timestamp \<Rightarrow> 'k \<Rightarrow> 's \<Rightarrow> 'v option"
    and put :: "timestamp \<Rightarrow> int \<Rightarrow> 'k \<Rightarrow> 'v \<Rightarrow> 's \<Rightarrow> 's"
    and del :: "'k \<Rightarrow> 's \<Rightarrow> 's"
  assumes get_put: "get t k (put now ttl k v s) = (if t < now + seconds ttl then Some v else None)"
    and get_put_other: "k' \<noteq> k \<Longrightarrow> get t k' (put now ttl k v s) = get t k' s"
    and get_del: "get t k (del k s) = None"
    and get_del_other: "k' \<noteq> k \<Longrightarrow> get t k' (del k s) = get t k' s"
begin

text \<open>A value is visible for its time to live and no longer.\<close>

lemma visible_within: "t < now + seconds ttl \<Longrightarrow> get t k (put now ttl k v s) = Some v"
  by (simp add: get_put)

lemma gone_after: "now + seconds ttl \<le> t \<Longrightarrow> get t k (put now ttl k v s) = None"
  by (simp add: get_put)

text \<open>A value that is read once and deleted is not there a second time, whatever is stored elsewhere.\<close>

lemma spent_once: "k' \<noteq> k \<Longrightarrow> get t k (put now ttl k' v (del k s)) = None"
  by (simp add: get_put_other get_del)

lemma put_expires_before:
  "get t k (put now ttl k v s) = Some w \<Longrightarrow> now + seconds ttl \<le> deadline \<Longrightarrow> t < deadline"
  by (simp add: get_put split: if_splits)

end

interpretation redis_store: expiring_store r_get r_set_ex r_del
  by unfold_locales (auto simp: r_get_def live_def r_set_ex_def r_del_def is_live_def)

text \<open>A key that is not there does not come back with time.\<close>

lemma r_get_stays_None: "r_get now k r = None \<Longrightarrow> now \<le> t \<Longrightarrow> r_get t k r = None"
  by (auto simp: r_get_def live_def is_live_def split: option.splits if_splits redis_value.splits)

lemma r_get_sadd_other [simp]: "k' \<noteq> k \<Longrightarrow> r_get t k' (r_sadd now k x r) = r_get t k' r"
  by (simp add: r_get_def live_def r_sadd_def)

lemma r_get_srem_other [simp]: "k' \<noteq> k \<Longrightarrow> r_get t k' (r_srem now k x r) = r_get t k' r"
  by (simp add: r_get_def live_def r_srem_def Let_def)

lemma r_get_expire_other [simp]: "k' \<noteq> k \<Longrightarrow> r_get t k' (r_expire now k ttl r) = r_get t k' r"
  by (simp add: r_get_def live_def r_expire_def split: option.splits)

section \<open>Decimal rendering\<close>

function show_nat :: "nat \<Rightarrow> string" where
  "show_nat n = (if n < 10 then [char_of (48 + n)] else show_nat (n div 10) @ [char_of (48 + n mod 10)])"
  by auto
termination by (relation "measure id") auto

declare show_nat.simps [simp del]

definition show_int :: "int \<Rightarrow> string" where
  "show_int n = (if n < 0 then CHR ''-'' # show_nat (nat (- n)) else show_nat (nat n))"

definition digit_value :: "char \<Rightarrow> nat" where
  "digit_value c = of_char c - 48"

definition read_nat :: "string \<Rightarrow> nat" where
  "read_nat s = foldl (\<lambda>n c. n * 10 + digit_value c) 0 s"

lemma digit_value_of: "m < 10 \<Longrightarrow> digit_value (char_of (48 + m)) = m"
  by (simp add: digit_value_def)

lemma read_show_nat: "read_nat (show_nat n) = n"
proof (induction n rule: show_nat.induct)
  case (1 n)
  then show ?case
    by (subst show_nat.simps) (auto simp: read_nat_def digit_value_of)
qed

lemma show_nat_inj: "show_nat m = show_nat n \<Longrightarrow> m = n"
  by (metis read_show_nat)

lemma show_nat_no_minus: "CHR ''-'' \<notin> set (show_nat n)"
proof (induction n rule: show_nat.induct)
  case (1 n)
  have "CHR ''-'' \<noteq> char_of (48 + m)" if "m < 10" for m :: nat
  proof
    assume "CHR ''-'' = char_of (48 + m)"
    then have "(of_char CHR ''-'' :: nat) = of_char (char_of (48 + m) :: char)" by simp
    with that show False by simp
  qed
  with 1 show ?case by (subst show_nat.simps) auto
qed

lemma show_int_inj: "show_int m = show_int n \<Longrightarrow> m = n"
proof -
  assume eq: "show_int m = show_int n"
  have "CHR ''-'' \<in> set (show_int k) \<longleftrightarrow> k < 0" for k
    using show_nat_no_minus by (simp add: show_int_def)
  then have "m < 0 \<longleftrightarrow> n < 0" using eq by metis
  with eq show ?thesis by (auto simp: show_int_def split: if_splits dest!: show_nat_inj)
qed

end
