(* ===== verification/Crypto.thy ===== *)
theory Crypto
  imports Json
begin

text \<open>
  \<^verbatim>\<open>gateway/src/crypto.rs\<close>: the credential envelope around an authenticated cipher,
  token generation, hashing, and the verification of GitHub's webhook signature with its
  hand-written HMAC and hexadecimal decoder. SHA-256 is \<open>sha256_digest\<close> of \<open>ext\<close>, the
  AES-256-GCM cipher is the record \<open>aead\<close>, and the random bytes are arguments.
\<close>

unbundle bit_operations_syntax

section \<open>The credential envelope\<close>

definition CIPHERTEXT_VERSION :: u8 where
  "CIPHERTEXT_VERSION = 1"

definition NONCE_LEN :: nat where
  "NONCE_LEN = 12"

definition TOKEN_BYTES :: nat where
  "TOKEN_BYTES = 32"

datatype CryptoError = Random | Encryption | MalformedCiphertext | Decryption

text \<open>\<open>From<CryptoError> for AppError\<close> (error.rs): the error's text is kept for the log.\<close>

definition crypto_error :: "CryptoError \<Rightarrow> AppError" where
  "crypto_error e = Internal
     (case e of
        Random \<Rightarrow> ''secure random generation failed''
      | Encryption \<Rightarrow> ''credential encryption failed''
      | MalformedCiphertext \<Rightarrow> ''credential ciphertext is malformed''
      | Decryption \<Rightarrow> ''credential decryption failed'')"

text \<open>The cipher under a fixed key: \<open>seal nonce aad msg\<close> and \<open>open nonce aad ciphertext\<close>.\<close>

record aead =
  seal :: "u8 list \<Rightarrow> u8 list \<Rightarrow> u8 list \<Rightarrow> u8 list option"
  unseal :: "u8 list \<Rightarrow> u8 list \<Rightarrow> u8 list \<Rightarrow> u8 list option"

definition TOKEN_AAD :: "u8 list" where
  "TOKEN_AAD = as_bytes ''buildlens.github-token.v1''"

text \<open>\<open>random\<close> is what \<open>getrandom::fill\<close> yields: a nonce of the requested length, or a failure.\<close>

definition encrypt :: "aead \<Rightarrow> u8 list option \<Rightarrow> string \<Rightarrow> CryptoError + u8 list" where
  "encrypt cipher random plaintext =
     (case random of
        None \<Rightarrow> Inl Random
      | Some nonce \<Rightarrow>
          (case seal cipher nonce TOKEN_AAD (as_bytes plaintext) of
             None \<Rightarrow> Inl Encryption
           | Some encrypted \<Rightarrow> Inr ([CIPHERTEXT_VERSION] @ nonce @ encrypted)))"

text \<open>\<open>String::from_utf8\<close>: the well-formed byte sequences of the Unicode standard.\<close>

definition in_range :: "nat \<Rightarrow> nat \<Rightarrow> u8 \<Rightarrow> bool" where
  "in_range lo hi b \<longleftrightarrow> lo \<le> unat b \<and> unat b \<le> hi"

abbreviation utf8_tail :: "u8 \<Rightarrow> bool" where
  "utf8_tail \<equiv> in_range 128 191"

function utf8_valid :: "u8 list \<Rightarrow> bool" where
  "utf8_valid [] = True"
| "utf8_valid (b # bs) =
     (if in_range 0 127 b then utf8_valid bs
      else if in_range 194 223 b then
        (case bs of c1 # rest \<Rightarrow> utf8_tail c1 \<and> utf8_valid rest | _ \<Rightarrow> False)
      else if in_range 224 239 b then
        (case bs of
           c1 # c2 # rest \<Rightarrow>
             (if unat b = 224 then in_range 160 191 c1
              else if unat b = 237 then in_range 128 159 c1 else utf8_tail c1) \<and>
             utf8_tail c2 \<and> utf8_valid rest
         | _ \<Rightarrow> False)
      else if in_range 240 244 b then
        (case bs of
           c1 # c2 # c3 # rest \<Rightarrow>
             (if unat b = 240 then in_range 144 191 c1
              else if unat b = 244 then in_range 128 143 c1 else utf8_tail c1) \<and>
             utf8_tail c2 \<and> utf8_tail c3 \<and> utf8_valid rest
         | _ \<Rightarrow> False)
      else False)"
  by pat_completeness auto
termination by (relation "measure length") auto

definition from_utf8 :: "u8 list \<Rightarrow> string option" where
  "from_utf8 bs = (if utf8_valid bs then Some (map (\<lambda>b. char_of (unat b)) bs) else None)"

definition decrypt :: "aead \<Rightarrow> u8 list \<Rightarrow> CryptoError + string" where
  "decrypt cipher ciphertext =
     (if length ciphertext \<le> 1 + NONCE_LEN \<or> hd ciphertext \<noteq> CIPHERTEXT_VERSION
      then Inl MalformedCiphertext
      else case unseal cipher (take NONCE_LEN (tl ciphertext)) TOKEN_AAD
                  (drop NONCE_LEN (tl ciphertext)) of
             None \<Rightarrow> Inl Decryption
           | Some plaintext \<Rightarrow>
               (case from_utf8 plaintext of None \<Rightarrow> Inl Decryption | Some s \<Rightarrow> Inr s))"

section \<open>Hexadecimal\<close>

definition from_hex :: "u8 \<Rightarrow> u8 option" where
  "from_hex value =
     (if 48 \<le> value \<and> value \<le> 57 then Some (value - 48)
      else if 97 \<le> value \<and> value \<le> 102 then Some (value - 97 + 10)
      else if 65 \<le> value \<and> value \<le> 70 then Some (value - 65 + 10)
      else None)"

text \<open>The decoding loop of \<open>verify_github_signature\<close> over \<open>chunks_exact(2)\<close>.\<close>

fun decode_pairs :: "u8 list \<Rightarrow> u8 list option" where
  "decode_pairs (h # l # rest) =
     (case from_hex h of
        None \<Rightarrow> None
      | Some high \<Rightarrow>
          (case from_hex l of
             None \<Rightarrow> None
           | Some low \<Rightarrow> map_option ((#) (push_bit 4 high OR low)) (decode_pairs rest)))"
| "decode_pairs _ = Some []"

definition hex_digit :: "u8 \<Rightarrow> char" where
  "hex_digit v = ''0123456789abcdef'' ! unat v"

text \<open>\<open>format!("{byte:02x}")\<close> on each byte.\<close>

definition hex_lower :: "u8 list \<Rightarrow> string" where
  "hex_lower bs = concat (map (\<lambda>b. [hex_digit (drop_bit 4 b), hex_digit (b AND 15)]) bs)"

definition sha256 :: "ext \<Rightarrow> string \<Rightarrow> u8 list" where
  "sha256 E value = sha256_digest E (as_bytes value)"

definition sha256_hex :: "ext \<Rightarrow> string \<Rightarrow> string" where
  "sha256_hex E value = hex_lower (sha256_digest E (as_bytes value))"

section \<open>Tokens\<close>

text \<open>
  \<open>encode\<close> is URL-safe base64 without padding; \<open>getrandom n\<close> the outcome of
  asking the generator for \<open>n\<close> bytes.
\<close>

definition random_urlsafe ::
  "(u8 list \<Rightarrow> string) \<Rightarrow> (nat \<Rightarrow> u8 list option) \<Rightarrow> nat \<Rightarrow> CryptoError + string" where
  "random_urlsafe encode getrandom bytes =
     (case getrandom bytes of None \<Rightarrow> Inl Random | Some random \<Rightarrow> Inr (encode random))"

definition new_session_token ::
  "(u8 list \<Rightarrow> string) \<Rightarrow> (nat \<Rightarrow> u8 list option) \<Rightarrow> CryptoError + string" where
  "new_session_token encode getrandom = random_urlsafe encode getrandom TOKEN_BYTES"

definition new_api_token ::
  "(u8 list \<Rightarrow> string) \<Rightarrow> (nat \<Rightarrow> u8 list option) \<Rightarrow> CryptoError + string" where
  "new_api_token encode getrandom =
     (case random_urlsafe encode getrandom TOKEN_BYTES of
        Inl e \<Rightarrow> Inl e
      | Inr s \<Rightarrow> Inr (''blq_'' @ s))"

section \<open>Webhook signatures\<close>

definition hmac_block :: "ext \<Rightarrow> u8 list \<Rightarrow> u8 list" where
  "hmac_block E key =
     (if length key > 64 then sha256_digest E key @ replicate 32 0
      else key @ replicate (64 - length key) 0)"

definition hmac_sha256 :: "ext \<Rightarrow> u8 list \<Rightarrow> u8 list \<Rightarrow> u8 list" where
  "hmac_sha256 E key body =
     (let normalized = hmac_block E key;
          inner_pad = map (\<lambda>b. 0x36 XOR b) normalized;
          outer_pad = map (\<lambda>b. 0x5c XOR b) normalized
      in sha256_digest E (outer_pad @ sha256_digest E (inner_pad @ body)))"

definition ct_equal :: "u8 list \<Rightarrow> u8 list \<Rightarrow> bool" where
  "ct_equal expected supplied \<longleftrightarrow>
     fold (\<lambda>(left, right) difference. difference OR (left XOR right)) (zip expected supplied) 0 = 0"

definition verify_github_signature :: "ext \<Rightarrow> string \<Rightarrow> u8 list \<Rightarrow> string \<Rightarrow> bool" where
  "verify_github_signature E secret body signature =
     (case strip_prefix signature ''sha256='' of
        None \<Rightarrow> False
      | Some hex \<Rightarrow>
          length hex = 64 \<and>
          (case decode_pairs (as_bytes hex) of
             None \<Rightarrow> False
           | Some supplied \<Rightarrow> ct_equal (hmac_sha256 E (as_bytes secret) body) supplied))"

section \<open>Hexadecimal facts\<close>

definition hex_table :: "(char \<times> u8) list" where
  "hex_table = zip ''0123456789abcdefABCDEF'' ([0,1,2,3,4,5,6,7,8,9,10,11,12,13,14,15,10,11,12,13,14,15] :: u8 list)"

lemma from_hex_table: "from_hex (of_char c) = map_of hex_table c"
proof -
  have "\<forall>c::char. from_hex (of_char c) = map_of hex_table c" by code_simp
  then show ?thesis by blast
qed

lemma from_hex_lower: "from_hex (of_char c) = Some v \<Longrightarrow> to_ascii_lowercase c = hex_digit v \<and> unat v < 16"
proof -
  have "list_all (\<lambda>(c, v). to_ascii_lowercase c = hex_digit v \<and> unat v < 16) hex_table" by code_simp
  then show "from_hex (of_char c) = Some v \<Longrightarrow> ?thesis"
    unfolding from_hex_table by (auto simp: list_all_iff dest!: map_of_SomeD)
qed

lemma lower_from_hex:
  assumes "to_ascii_lowercase c = hex_digit v" and "unat v < 16"
  shows "from_hex (of_char c) = Some v"
proof -
  have "\<forall>c::char. \<forall>n\<in>set [0..<16]. to_ascii_lowercase c = ''0123456789abcdef'' ! n \<longrightarrow>
      map_option unat (from_hex (of_char c)) = Some n" by code_simp
  with assms have "map_option unat (from_hex (of_char c)) = Some (unat v)" by (simp add: hex_digit_def)
  then show ?thesis by (auto simp: unsigned_word_eqI)
qed

lemma u8_of_nat:
  fixes b :: u8
  obtains n where "b = of_nat n" and "unat b = n" and "n < 256"
proof (cases b)
  fix n assume b: "b = of_nat n" and n: "n < 2 ^ LENGTH(8)"
  then have "unat b = n" by (simp add: unat_of_nat)
  with b n that show ?thesis by simp
qed

lemma join_nibbles:
  fixes h l :: u8
  assumes "unat h < 16" and "unat l < 16"
  shows "drop_bit 4 (push_bit 4 h OR l) = h \<and> (push_bit 4 h OR l) AND 15 = l"
proof -
  have "\<forall>m\<in>set [0..<16]. \<forall>n\<in>set [0..<16].
      drop_bit 4 (push_bit 4 (of_nat m) OR of_nat n :: u8) = of_nat m \<and>
      (push_bit 4 (of_nat m) OR of_nat n :: u8) AND 15 = of_nat n" by code_simp
  moreover obtain m n where "h = of_nat m" "l = of_nat n" "unat h = m" "unat l = n"
    using u8_of_nat by metis
  ultimately show ?thesis using assms by simp
qed

lemma split_nibbles:
  fixes b :: u8
  shows "push_bit 4 (drop_bit 4 b) OR (b AND 15) = b \<and> unat (drop_bit 4 b) < 16 \<and> unat (b AND 15) < 16"
proof -
  have "\<forall>n\<in>set [0..<256]. push_bit 4 (drop_bit 4 (of_nat n :: u8)) OR (of_nat n AND 15) = of_nat n \<and>
      unat (drop_bit 4 (of_nat n :: u8)) < 16 \<and> unat ((of_nat n :: u8) AND 15) < 16"
    by code_simp
  moreover obtain n where "b = of_nat n" "n < 256" using u8_of_nat by metis
  ultimately show ?thesis by simp
qed

lemma xor_zero_iff: "(l XOR r = 0) = (l = r)" for l r :: u8
proof
  assume "l XOR r = 0"
  then have "(l XOR r) XOR r = 0 XOR r" by simp
  then show "l = r" by (simp add: xor.assoc)
qed simp

text \<open>
  The decoder accepts exactly the hexadecimal renderings of a byte sequence, in either
  letter case.
\<close>

lemma decode_pairs_iff:
  "even (length hex) \<Longrightarrow> decode_pairs (as_bytes hex) = Some bs \<longleftrightarrow> map to_ascii_lowercase hex = hex_lower bs"
proof (induction hex arbitrary: bs rule: induct_list012)
  case 1
  then show ?case by (cases bs) (auto simp: as_bytes_def hex_lower_def)
next
  case (2 c)
  then show ?case by simp
next
  case (3 c1 c2 hex)
  from 3 have IH: "decode_pairs (as_bytes hex) = Some bs' \<longleftrightarrow> map to_ascii_lowercase hex = hex_lower bs'" for bs'
    by simp
  have step: "decode_pairs (as_bytes (c1 # c2 # hex)) = Some bs \<longleftrightarrow>
      (\<exists>h l bs'. from_hex (of_char c1) = Some h \<and> from_hex (of_char c2) = Some l \<and>
         decode_pairs (as_bytes hex) = Some bs' \<and> bs = (push_bit 4 h OR l) # bs')"
    by (auto simp: as_bytes_def split: option.splits)
  show ?case
  proof
    assume "decode_pairs (as_bytes (c1 # c2 # hex)) = Some bs"
    then obtain h l bs' where "from_hex (of_char c1) = Some h" "from_hex (of_char c2) = Some l"
      "decode_pairs (as_bytes hex) = Some bs'" "bs = (push_bit 4 h OR l) # bs'"
      using step by blast
    then show "map to_ascii_lowercase (c1 # c2 # hex) = hex_lower bs"
      using IH from_hex_lower join_nibbles by (simp add: hex_lower_def)
  next
    assume eq: "map to_ascii_lowercase (c1 # c2 # hex) = hex_lower bs"
    then obtain b bs' where bs: "bs = b # bs'" by (cases bs) (auto simp: hex_lower_def)
    with eq have "to_ascii_lowercase c1 = hex_digit (drop_bit 4 b)" "to_ascii_lowercase c2 = hex_digit (b AND 15)"
      "decode_pairs (as_bytes hex) = Some bs'" using IH by (simp_all add: hex_lower_def)
    with bs split_nibbles [of b] lower_from_hex
    show "decode_pairs (as_bytes (c1 # c2 # hex)) = Some bs" unfolding step by metis
  qed
qed

lemma hex_lower_length: "length (hex_lower bs) = 2 * length bs"
  by (induction bs) (simp_all add: hex_lower_def)

lemma decode_pairs_length: "decode_pairs hs = Some bs \<Longrightarrow> length bs = length hs div 2"
  by (induction hs arbitrary: bs rule: decode_pairs.induct) (auto split: option.splits)

section \<open>Comparison\<close>

lemma fold_or_zero:
  "fold (\<lambda>(left, right) difference. difference OR (left XOR right)) ps d = (0::u8) \<longleftrightarrow>
     d = 0 \<and> (\<forall>(left, right)\<in>set ps. left = right)"
proof (induction ps arbitrary: d)
  case (Cons p ps)
  obtain l r where p: "p = (l, r)" by (cases p)
  have "(d OR (l XOR r) = 0) = (d = 0 \<and> l = r)"
    by (simp add: or_eq_0_iff xor_zero_iff)
  then show ?case by (auto simp: p Cons.IH)
qed simp

lemma ct_equal_iff: "length expected = length supplied \<Longrightarrow> ct_equal expected supplied \<longleftrightarrow> expected = supplied"
  unfolding ct_equal_def fold_or_zero by (auto simp: list_eq_iff_zip_eq)

text \<open>What the verification relies on of SHA-256: digests have 32 bytes.\<close>

definition sha256_ok :: "ext \<Rightarrow> bool" where
  "sha256_ok E \<longleftrightarrow> (\<forall>bs. length (sha256_digest E bs) = 32)"

lemma demo_sha256_ok: "sha256_ok demo_ext"
  by (simp add: sha256_ok_def demo_ext_def)

lemma verify_iff:
  assumes "sha256_ok E"
  shows "verify_github_signature E secret body signature \<longleftrightarrow>
     (\<exists>hex. signature = ''sha256='' @ hex \<and>
        map to_ascii_lowercase hex = hex_lower (hmac_sha256 E (as_bytes secret) body))"
proof -
  let ?mac = "hmac_sha256 E (as_bytes secret) body"
  have len: "length ?mac = 32" using assms by (simp add: sha256_ok_def hmac_sha256_def Let_def)
  have step: "(length hex = 64 \<and> (case decode_pairs (as_bytes hex) of None \<Rightarrow> False | Some s \<Rightarrow> ct_equal ?mac s))
      \<longleftrightarrow> map to_ascii_lowercase hex = hex_lower ?mac" for hex
  proof (cases "length hex = 64")
    case True
    have dl: "decode_pairs (as_bytes hex) = Some s \<Longrightarrow> length s = 32" for s
      using decode_pairs_length [of "as_bytes hex" s] True by (simp add: as_bytes_def)
    have ev: "even (length hex)" using True by simp
    show ?thesis
      using True dl ct_equal_iff [of ?mac] len decode_pairs_iff [OF ev]
      by (cases "decode_pairs (as_bytes hex)") (auto, metis+)
  next
    case False
    then have "length (map to_ascii_lowercase hex) \<noteq> length (hex_lower ?mac)" by (simp add: hex_lower_length len)
    then have "map to_ascii_lowercase hex \<noteq> hex_lower ?mac" by metis
    with False show ?thesis by simp
  qed
  have "verify_github_signature E secret body signature \<longleftrightarrow>
      (\<exists>hex. strip_prefix signature ''sha256='' = Some hex \<and> map to_ascii_lowercase hex = hex_lower ?mac)"
    unfolding verify_github_signature_def step
    by (cases "strip_prefix signature ''sha256=''") simp_all
  then show ?thesis by (simp only: strip_prefix_Some)
qed

section \<open>Properties\<close>

text \<open>
  C10. A webhook signature is accepted exactly when it is \<open>sha256=\<close> followed by the
  hexadecimal rendering, in either letter case, of the HMAC of the body under the secret:
  the length check, the hand-written decoder and the constant-time comparison together
  accept nothing else and reject nothing of it.
\<close>

theorem signature_accepted_iff:
  assumes "sha256_ok E"
  shows "verify_github_signature E secret body signature \<longleftrightarrow>
     (\<exists>hex. signature = ''sha256='' @ hex \<and>
        map to_ascii_lowercase hex = hex_lower (hmac_sha256 E (as_bytes secret) body))"
  by (rule verify_iff [OF assms])

theorem signature_accepted_iff_witness:
  "verify_github_signature demo_ext ''key'' [1, 2] (''sha256='' @ replicate 64 CHR ''0'')"
  unfolding signature_accepted_iff [OF demo_sha256_ok]
  by (rule exI [of _ "replicate 64 CHR ''0''"], rule conjI, rule refl, code_simp)

section \<open>The credential round trip\<close>

text \<open>What is relied on of AES-256-GCM: opening undoes sealing, and a ciphertext carries a tag.\<close>

definition aead_ok :: "aead \<Rightarrow> bool" where
  "aead_ok cipher \<longleftrightarrow>
     (\<forall>nonce aad msg c. seal cipher nonce aad msg = Some c \<longrightarrow>
        unseal cipher nonce aad c = Some msg \<and> length c = length msg + 16)"

lemma bytes_back: "map (\<lambda>b. char_of (unat b)) (as_bytes s) = s"
proof -
  have "char_of (unat (of_char c :: u8)) = c" for c
  proof -
    have "(of_char c :: u8) = of_nat (of_char c)" by (cases c) (simp add: of_char_def)
    then have "unat (of_char c :: u8) = of_char c"
      using of_char_less_256 [of c] by (simp only: unat_of_nat) simp
    then show ?thesis by simp
  qed
  then show ?thesis by (induction s) (simp_all add: as_bytes_def)
qed

text \<open>A cipher for examples: the message followed by a fixed tag.\<close>

definition demo_cipher :: aead where
  "demo_cipher =
     \<lparr>seal = (\<lambda>nonce aad msg. Some (msg @ replicate 16 0)),
      unseal = (\<lambda>nonce aad c. Some (take (length c - 16) c))\<rparr>"

lemma demo_cipher_ok: "aead_ok demo_cipher"
  by (simp add: aead_ok_def demo_cipher_def)

lemma decrypt_encrypt:
  assumes "aead_ok cipher" and "length nonce = NONCE_LEN" and "utf8_valid (as_bytes token)"
    and "encrypt cipher (Some nonce) token = Inr stored"
  shows "decrypt cipher stored = Inr token"
proof -
  from assms(4) obtain c where c: "seal cipher nonce TOKEN_AAD (as_bytes token) = Some c"
    and stored: "stored = [CIPHERTEXT_VERSION] @ nonce @ c"
    by (auto simp: encrypt_def split: option.splits)
  with assms(1) have "unseal cipher nonce TOKEN_AAD c = Some (as_bytes token)" and "c \<noteq> []"
    by (force simp: aead_ok_def)+
  with assms(2,3) stored show ?thesis
    by (simp add: decrypt_def NONCE_LEN_def from_utf8_def bytes_back)
qed



end
