(* ===== verification/Sessions.thy ===== *)
theory Sessions
  imports Redis Crypto
begin

text \<open>
  \<^verbatim>\<open>gateway/src/sessions.rs\<close>: opaque session tokens stored hashed in Redis, the
  single-use OAuth state, and the session cookie. The random bytes are an argument;
  \<open>encode\<close> is URL-safe base64.
\<close>

section \<open>Keys and records\<close>

datatype Environment = Development | Production

definition SESSION_COOKIE :: string where
  "SESSION_COOKIE = ''buildlens_session''"

definition OAUTH_STATE_TTL_SECONDS :: int where
  "OAUTH_STATE_TTL_SECONDS = 600"

definition session_key :: "string \<Rightarrow> string" where
  "session_key token_hash = ''session:'' @ token_hash"

definition user_sessions_key :: "ext \<Rightarrow> uuid \<Rightarrow> string" where
  "user_sessions_key E user_id = ''user_sessions:'' @ show_uuid E user_id"

definition oauth_state_key :: "ext \<Rightarrow> string \<Rightarrow> string" where
  "oauth_state_key E state = ''oauth_state:'' @ sha256_hex E state"

text \<open>\<open>serde_json::to_string(&SessionRecord { user_id })\<close> and the way back.\<close>

definition session_record :: "ext \<Rightarrow> uuid \<Rightarrow> string" where
  "session_record E user_id =
     ''{'' @ [CHR 0x22] @ ''user_id'' @ [CHR 0x22] @ '':'' @ [CHR 0x22] @ show_uuid E user_id @ [CHR 0x22] @ ''}''"

definition de_SessionRecord :: "ext \<Rightarrow> uuid de" where
  "de_SessionRecord E v = Option.bind (de_required ''user_id'' as_str v) (parse_uuid E)"

definition session_user :: "ext \<Rightarrow> string \<Rightarrow> uuid option" where
  "session_user E value = Option.bind (json_from_slice E (as_bytes value)) (de_SessionRecord E)"

section \<open>Sessions\<close>

definition issue ::
  "ext \<Rightarrow> (u8 list \<Rightarrow> string) \<Rightarrow> (nat \<Rightarrow> u8 list option) \<Rightarrow> timestamp \<Rightarrow> int \<Rightarrow> uuid \<Rightarrow> redis \<Rightarrow> string result \<times> redis" where
  "issue E encode getrandom now ttl user_id r =
     (case new_session_token encode getrandom of
        Inl e \<Rightarrow> (Inl (crypto_error e), r)
      | Inr token \<Rightarrow>
          let token_hash = sha256_hex E token;
              user_key = user_sessions_key E user_id;
              r1 = r_set_ex now ttl (session_key token_hash) (session_record E user_id) r;
              r2 = r_sadd now user_key token_hash r1
          in (Inr token, r_expire now user_key ttl r2))"

definition resolve :: "ext \<Rightarrow> timestamp \<Rightarrow> string \<Rightarrow> redis \<Rightarrow> uuid option result" where
  "resolve E now token r =
     (case r_get now (session_key (sha256_hex E token)) r of
        None \<Rightarrow> Inr None
      | Some value \<Rightarrow>
          (case session_user E value of
             None \<Rightarrow> Inl (Internal ''session record'')
           | Some user_id \<Rightarrow> Inr (Some user_id)))"

definition delete_session :: "ext \<Rightarrow> timestamp \<Rightarrow> string \<Rightarrow> redis \<Rightarrow> uuid option result \<times> redis" where
  "delete_session E now token r =
     (case resolve E now token r of
        Inl e \<Rightarrow> (Inl e, r)
      | Inr None \<Rightarrow> (Inr None, r)
      | Inr (Some user_id) \<Rightarrow>
          (Inr (Some user_id),
           r_srem now (user_sessions_key E user_id) (sha256_hex E token)
             (r_del (session_key (sha256_hex E token)) r)))"

section \<open>The OAuth state\<close>

definition store_oauth_state :: "ext \<Rightarrow> timestamp \<Rightarrow> string \<Rightarrow> redis \<Rightarrow> unit result \<times> redis" where
  "store_oauth_state E now value r =
     (case r_set_ex_nx now OAUTH_STATE_TTL_SECONDS (oauth_state_key E value) ''1'' r of
        (stored, r') \<Rightarrow> if stored then (Inr (), r') else (Inl (Internal ''OAuth state collision''), r'))"

definition consume_oauth_state :: "ext \<Rightarrow> timestamp \<Rightarrow> string \<Rightarrow> redis \<Rightarrow> bool \<times> redis" where
  "consume_oauth_state E now value r =
     (case r_getdel now (oauth_state_key E value) r of (consumed, r') \<Rightarrow> (consumed \<noteq> None, r'))"

section \<open>The cookie\<close>

definition session_cookie_value :: "string \<Rightarrow> string option" where
  "session_cookie_value cookie =
     (case split_once CHR ''='' (trim cookie) of
        None \<Rightarrow> None
      | Some (name, value) \<Rightarrow> if name = SESSION_COOKIE \<and> value \<noteq> [] then Some value else None)"

text \<open>\<open>cookies\<close> is the text of the \<open>Cookie\<close> header, when it is present and visible ASCII.\<close>

definition from_headers :: "string option \<Rightarrow> string option" where
  "from_headers cookies =
     (case cookies of
        None \<Rightarrow> None
      | Some text \<Rightarrow> find_map session_cookie_value (split_on CHR '';'' text))"

definition secure_suffix :: "Environment \<Rightarrow> string" where
  "secure_suffix environment = (if environment = Production then ''; Secure'' else [])"

definition set_cookie :: "string \<Rightarrow> int \<Rightarrow> Environment \<Rightarrow> string" where
  "set_cookie token ttl environment =
     SESSION_COOKIE @ ''='' @ token @ ''; Path=/; HttpOnly; SameSite=Lax; Max-Age='' @ show_int ttl @
     secure_suffix environment"

definition clear_cookie :: "Environment \<Rightarrow> string" where
  "clear_cookie environment =
     SESSION_COOKIE @ ''=; Path=/; HttpOnly; SameSite=Lax; Max-Age=0'' @ secure_suffix environment"

section \<open>Facts\<close>

text \<open>What is relied on of serde and uuid: a session record reads back as its user.\<close>

definition session_codec_ok :: "ext \<Rightarrow> bool" where
  "session_codec_ok E \<longleftrightarrow> (\<forall>user_id. session_user E (session_record E user_id) = Some user_id)"

lemma keys_differ:
  "session_key a \<noteq> user_sessions_key E b" "user_sessions_key E b \<noteq> session_key a"
  by (simp_all add: session_key_def user_sessions_key_def)

lemma issue_get:
  assumes "new_session_token encode getrandom = Inr token" and "issue E encode getrandom now ttl user r = (res, r')"
  shows "res = Inr token \<and>
     r_get t (session_key h) r' =
       (if h = sha256_hex E token then (if t < now + seconds ttl then Some (session_record E user) else None)
        else r_get t (session_key h) r)"
proof -
  have inj: "session_key h = session_key h' \<longleftrightarrow> h = h'" for h h' by (simp add: session_key_def)
  have r': "r' = r_expire now (user_sessions_key E user) ttl
      (r_sadd now (user_sessions_key E user) (sha256_hex E token)
        (r_set_ex now ttl (session_key (sha256_hex E token)) (session_record E user) r))"
    and res: "res = Inr token"
    using assms by (auto simp: issue_def Let_def)
  show ?thesis
    unfolding r' using res
    by (simp add: keys_differ redis_store.get_put redis_store.get_put_other inj)
qed

lemma delete_get:
  assumes "delete_session E now token r = (Inr u, r')"
  shows "r_get t (session_key h) r' =
     (if u \<noteq> None \<and> h = sha256_hex E token then None else r_get t (session_key h) r)"
proof -
  have inj: "session_key h = session_key h' \<longleftrightarrow> h = h'" for h h' by (simp add: session_key_def)
  show ?thesis
    using assms
    by (cases "h = sha256_hex E token")
      (auto simp: delete_session_def keys_differ redis_store.get_del redis_store.get_del_other inj
        split: sum.splits option.splits)
qed

section \<open>Properties\<close>

definition session_ext :: ext where
  "session_ext = demo_ext\<lparr>json_from_slice := (\<lambda>bs.
      let s = map (\<lambda>b. char_of (unat b)) bs
      in Some (JObj [(''user_id'', JStr (take (length s - 14) (drop 12 s)))])),
     sha256_digest := (\<lambda>bs. bs)\<rparr>"

lemma session_ext_ok: "session_codec_ok session_ext"
proof -
  have "session_user session_ext (session_record session_ext u) = Some u" for u
    by (simp add: session_user_def session_record_def session_ext_def demo_ext_def Let_def bytes_back
        de_SessionRecord_def de_required_def, simp add: as_bytes_def)
  then show ?thesis by (simp add: session_codec_ok_def)
qed

text \<open>
  C15. The life of a session: a token resolves to its user from the moment it is issued
  until its time to live has passed and not afterwards; logging out ends it at once; and
  neither issuing nor deleting one token changes what any token with another hash resolves
  to.
\<close>

theorem session_lifecycle:
  assumes "session_codec_ok E" and "new_session_token encode getrandom = Inr token"
    and "issue E encode getrandom now ttl user r = (res, r1)"
    and "sha256_hex E other \<noteq> sha256_hex E token"
  shows "res = Inr token \<and>
     resolve E t token r1 = Inr (if t < now + seconds ttl then Some user else None) \<and>
     resolve E t other r1 = resolve E t other r \<and>
     (delete_session E t1 token r1 = (Inr u, r2) \<longrightarrow> t1 \<le> t2 \<longrightarrow>
        resolve E t2 token r2 = Inr None \<and> resolve E t2 other r2 = resolve E t2 other r)"
proof -
  note get = issue_get [OF assms(2,3)]
  have res: "resolve E t token r1 = Inr (if t < now + seconds ttl then Some user else None)" for t
    using assms(1) get by (simp add: resolve_def session_codec_ok_def)
  have oth: "resolve E t other r1 = resolve E t other r" for t
    using assms(4) get by (simp add: resolve_def)
  have "resolve E t2 token r2 = Inr None \<and> resolve E t2 other r2 = resolve E t2 other r1"
    if del: "delete_session E t1 token r1 = (Inr u, r2)" and le: "t1 \<le> t2"
  proof -
    have u: "u = (if t1 < now + seconds ttl then Some user else None)"
      using del res [of t1] by (auto simp: delete_session_def split: if_splits)
    show ?thesis
      using delete_get [OF del] u le res [of t2] assms(4) by (auto simp: resolve_def split: if_splits)
  qed
  with get res oth show ?thesis by simp
qed

theorem session_lifecycle_witness:
  "\<exists>r1. issue session_ext (\<lambda>_. ''tok'') (\<lambda>_. Some []) 0 60 7 Map.empty = (Inr ''tok'', r1) \<and>
     resolve session_ext 5 ''tok'' r1 = Inr (Some 7) \<and>
     resolve session_ext 60000000 ''tok'' r1 = Inr None"
proof -
  let ?E = session_ext
  have tok: "new_session_token (\<lambda>_. ''tok'') (\<lambda>_. Some []) = Inr ''tok''"
    by (simp add: new_session_token_def random_urlsafe_def)
  have ne: "sha256_hex ?E ''x'' \<noteq> sha256_hex ?E ''tok''" 
    by (simp add: sha256_hex_def hex_lower_def as_bytes_def session_ext_def sha256_def)
  obtain res r1 where run: "issue ?E (\<lambda>_. ''tok'') (\<lambda>_. Some []) 0 60 7 Map.empty = (res, r1)" by fastforce
  from session_lifecycle [OF session_ext_ok tok run ne, of 5] session_lifecycle [OF session_ext_ok tok run ne, of 60000000] run
  show ?thesis by (auto simp: seconds_def)
qed

text \<open>
  The OAuth state is single use: a stored state is accepted once within ten minutes,
  never a second time and never after its expiry, and a state that was not stored is not
  accepted.
\<close>

theorem oauth_state_single_use:
  assumes "store_oauth_state E now value r = (Inr (), r1)"
  shows "fst (consume_oauth_state E t value r1) = (t < now + seconds 600) \<and>
     \<not> fst (consume_oauth_state E t' value (snd (consume_oauth_state E t value r1))) \<and>
     \<not> fst (consume_oauth_state E t value Map.empty)"
proof -
  have "r1 = r_set_ex now OAUTH_STATE_TTL_SECONDS (oauth_state_key E value) ''1'' r"
    using assms by (auto simp: store_oauth_state_def r_set_ex_nx_def split: if_splits)
  then show ?thesis
    by (simp add: consume_oauth_state_def r_getdel_def redis_store.get_put redis_store.get_del OAUTH_STATE_TTL_SECONDS_def)
      (simp add: r_get_def live_def)
qed

theorem oauth_state_single_use_witness:
  "\<exists>r1. store_oauth_state demo_ext 0 ''s'' Map.empty = (Inr (), r1) \<and> fst (consume_oauth_state demo_ext 1 ''s'' r1)"
proof -
  obtain r1 where run: "store_oauth_state demo_ext 0 ''s'' Map.empty = (Inr (), r1)"
    by (simp add: store_oauth_state_def r_set_ex_nx_def live_def)
  from oauth_state_single_use [OF run, of 1] run show ?thesis by (auto simp: seconds_def)
qed

end
