(* ===== verification/Auth.thy ===== *)
theory Auth
  imports Sessions Schema
begin

text \<open>
  \<^verbatim>\<open>gateway/src/auth.rs\<close> and \<^verbatim>\<open>gateway/src/audit.rs\<close>: who a request acts
  as (an API token in the \<open>Authorization\<close> header or a session cookie), the organization
  roles and the role check, and the audit entries written beside every privileged change.
  A function that may panic returns \<open>None\<close> for the panic.
\<close>

section \<open>Principals and roles\<close>

definition API_TOKEN_PREFIX_LEN :: nat where
  "API_TOKEN_PREFIX_LEN = 12"

datatype CredentialKind = Session | ApiToken

record Principal =
  p_user_id :: uuid
  p_credential :: CredentialKind
  p_api_token_id :: "uuid option"
  p_token_organization_id :: "uuid option"

definition require_session :: "Principal \<Rightarrow> unit result" where
  "require_session p = (if p_credential p = Session then Inr () else Inl Forbidden)"

datatype OrganizationRole = Viewer | Member | Admin | Owner

definition parse_role :: "string \<Rightarrow> OrganizationRole option" where
  "parse_role value =
     (if value = ''viewer'' then Some Viewer
      else if value = ''member'' then Some Member
      else if value = ''admin'' then Some Admin
      else if value = ''owner'' then Some Owner
      else None)"

fun role_as_str :: "OrganizationRole \<Rightarrow> string" where
  "role_as_str Viewer = ''viewer''"
| "role_as_str Member = ''member''"
| "role_as_str Admin = ''admin''"
| "role_as_str Owner = ''owner''"

fun level :: "OrganizationRole \<Rightarrow> u8" where
  "level Viewer = 0"
| "level Member = 1"
| "level Admin = 2"
| "level Owner = 3"

text \<open>The levels order the roles, so that \<open>\<le>\<close> on roles is \<open>level() <= level()\<close>.\<close>

instantiation OrganizationRole :: linorder
begin

definition less_eq_OrganizationRole :: "OrganizationRole \<Rightarrow> OrganizationRole \<Rightarrow> bool" where
  "less_eq_OrganizationRole a b \<longleftrightarrow> level a \<le> level b"

definition less_OrganizationRole :: "OrganizationRole \<Rightarrow> OrganizationRole \<Rightarrow> bool" where
  "less_OrganizationRole a b \<longleftrightarrow> level a < level b"

instance
proof
  fix a b :: OrganizationRole
  show "a \<le> b \<Longrightarrow> b \<le> a \<Longrightarrow> a = b"
    by (cases a; cases b) (simp_all add: less_eq_OrganizationRole_def word_le_nat_alt)
qed (auto simp: less_eq_OrganizationRole_def less_OrganizationRole_def)

end

lemma parse_role_as_str [simp]: "parse_role (role_as_str role) = Some role"
  by (cases role) (simp_all add: parse_role_def)

lemma parse_role_Some: "parse_role s = Some role \<longleftrightarrow> s = role_as_str role"
  by (cases role) (auto simp: parse_role_def)

lemma role_as_str_inject [simp]: "role_as_str a = role_as_str b \<longleftrightarrow> a = b"
  by (metis option.inject parse_role_as_str)

lemma below_admin: "\<not> Admin \<le> role \<longleftrightarrow> role = Viewer \<or> role = Member"
  by (cases role) (simp_all add: less_eq_OrganizationRole_def word_le_nat_alt)

lemma owner_top [simp]: "role \<le> Owner" and viewer_bot [simp]: "Viewer \<le> role"
  by (cases role; simp add: less_eq_OrganizationRole_def word_le_nat_alt)+

section \<open>Authentication\<close>

text \<open>
  The two header fields a request is authenticated by. \<open>rq_authorization\<close> is \<open>None\<close>
  when the header is absent and \<open>Some None\<close> when its value is not visible ASCII
  (\<open>HeaderValue::to_str\<close> fails); \<open>rq_cookie\<close> is the readable \<open>Cookie\<close> text.
\<close>

record request =
  rq_authorization :: "string option option"
  rq_cookie :: "string option"

definition active_user :: "uuid \<Rightarrow> db \<Rightarrow> bool" where
  "active_user user d \<longleftrightarrow> (\<exists>u\<in>set (users d). u_id u = user \<and> u_is_active u \<and> u_deleted_at u = None)"

definition live_organization :: "uuid \<Rightarrow> db \<Rightarrow> bool" where
  "live_organization org d \<longleftrightarrow> (\<exists>x\<in>set (organizations d). o_id x = org \<and> o_deleted_at x = None)"

definition member_row :: "uuid \<Rightarrow> uuid \<Rightarrow> db \<Rightarrow> organization_member option" where
  "member_row org user d =
     find (\<lambda>m. m_organization_id m = org \<and> m_user_id m = user) (organization_members d)"

definition token_usable :: "timestamp \<Rightarrow> db \<Rightarrow> api_token \<Rightarrow> bool" where
  "token_usable now d t \<longleftrightarrow>
     t_revoked_at t = None \<and>
     (case t_expires_at t of None \<Rightarrow> True | Some e \<Rightarrow> now < e) \<and>
     ''read'' \<in> set (t_scopes t) \<and>
     (case t_organization_id t of
        None \<Rightarrow> True
      | Some org \<Rightarrow> member_row org (t_user_id t) d \<noteq> None \<and> live_organization org d) \<and>
     active_user (t_user_id t) d"

definition touch_token :: "timestamp \<Rightarrow> uuid \<Rightarrow> db \<Rightarrow> db" where
  "touch_token now i d = d\<lparr>api_tokens :=
     upd_where (\<lambda>t. t_id t = i \<and>
                  (case t_last_used_at t of None \<Rightarrow> True | Some u \<Rightarrow> u < now - seconds 300))
       (\<lambda>t. t\<lparr>t_last_used_at := Some now\<rparr>) (api_tokens d)\<rparr>"

definition resolve_api_token ::
  "ext \<Rightarrow> timestamp \<Rightarrow> string \<Rightarrow> db \<Rightarrow> (Principal result \<times> db) option" where
  "resolve_api_token E now token d =
     (if \<not> starts_with token ''blq_'' \<or> length token < API_TOKEN_PREFIX_LEN
      then Some (Inl Unauthorized, d)
      else case slice_to API_TOKEN_PREFIX_LEN token of
        None \<Rightarrow> None
      | Some prefix \<Rightarrow>
          (case find (\<lambda>t. t_token_prefix t = prefix \<and> t_token_hash t = sha256 E token \<and> token_usable now d t)
                  (api_tokens d) of
             None \<Rightarrow> Some (Inl Unauthorized, d)
           | Some t \<Rightarrow>
               Some (Inr \<lparr>p_user_id = t_user_id t, p_credential = ApiToken,
                          p_api_token_id = Some (t_id t), p_token_organization_id = t_organization_id t\<rparr>,
                     touch_token now (t_id t) d)))"

definition session_principal :: "uuid \<Rightarrow> Principal" where
  "session_principal user =
     \<lparr>p_user_id = user, p_credential = Session, p_api_token_id = None, p_token_organization_id = None\<rparr>"

definition from_request_parts ::
  "ext \<Rightarrow> timestamp \<Rightarrow> redis \<Rightarrow> request \<Rightarrow> db \<Rightarrow> (Principal result \<times> db) option" where
  "from_request_parts E now r rq d =
     (case rq_authorization rq of
        Some header \<Rightarrow>
          (case Option.bind header (\<lambda>value. strip_prefix value ''Bearer '') of
             None \<Rightarrow> Some (Inl Unauthorized, d)
           | Some token \<Rightarrow>
               if token = [] then Some (Inl Unauthorized, d) else resolve_api_token E now token d)
      | None \<Rightarrow>
          (case from_headers (rq_cookie rq) of
             None \<Rightarrow> Some (Inl Unauthorized, d)
           | Some token \<Rightarrow>
               (case resolve E now token r of
                  Inl e \<Rightarrow> Some (Inl e, d)
                | Inr None \<Rightarrow> Some (Inl Unauthorized, d)
                | Inr (Some user) \<Rightarrow>
                    if active_user user d then Some (Inr (session_principal user), d)
                    else Some (Inl Unauthorized, d))))"

text \<open>The extractor for \<open>Option<Principal>\<close>.\<close>

definition optional_from_request_parts ::
  "ext \<Rightarrow> timestamp \<Rightarrow> redis \<Rightarrow> request \<Rightarrow> db \<Rightarrow> (Principal option result \<times> db) option" where
  "optional_from_request_parts E now r rq d =
     (if rq_authorization rq = None \<and> from_headers (rq_cookie rq) = None then Some (Inr None, d)
      else map_option (\<lambda>(res, d'). (map_sum id Some res, d')) (from_request_parts E now r rq d))"

section \<open>The role check\<close>

definition require_organization_role ::
  "Principal \<Rightarrow> uuid \<Rightarrow> OrganizationRole \<Rightarrow> db \<Rightarrow> OrganizationRole result" where
  "require_organization_role p org minimum d =
     (if (case p_token_organization_id p of None \<Rightarrow> False | Some scope \<Rightarrow> scope \<noteq> org) then Inl Forbidden
      else case (if live_organization org d then member_row org (p_user_id p) d else None) of
        None \<Rightarrow> Inl Forbidden
      | Some m \<Rightarrow>
          (case parse_role (m_role m) of
             None \<Rightarrow> Inl Forbidden
           | Some role \<Rightarrow> if level role < level minimum then Inl Forbidden else Inr role))"

section \<open>Audit entries (audit.rs)\<close>

text \<open>The peer address is the text the cast to \<open>inet\<close> reads, when the connection has one.\<close>

record AuditContext =
  ac_ip_address :: "string option"
  ac_user_agent :: "string option"

definition audit_context :: "string option \<Rightarrow> string option option \<Rightarrow> AuditContext" where
  "audit_context connect_info user_agent =
     \<lparr>ac_ip_address = connect_info, ac_user_agent = Option.bind user_agent id\<rparr>"

definition ref_ok :: "uuid option \<Rightarrow> uuid list \<Rightarrow> bool" where
  "ref_ok reference ids = (case reference of None \<Rightarrow> True | Some i \<Rightarrow> i \<in> set ids)"

definition write_actor ::
  "string \<Rightarrow> uuid option \<Rightarrow> uuid option \<Rightarrow> AuditContext \<Rightarrow> uuid option \<Rightarrow> string \<Rightarrow>
   string option \<Rightarrow> uuid option \<Rightarrow> json \<Rightarrow> unit tx" where
  "write_actor actor_type actor_user token context org action entity_type entity_id metadata d =
     (if \<not> ref_ok org (map o_id (organizations d)) then Inl (Internal ''audit_logs_organization_id_fkey'')
      else if \<not> ref_ok actor_user (map u_id (users d)) then Inl (Internal ''audit_logs_actor_user_id_fkey'')
      else if \<not> ref_ok token (map t_id (api_tokens d)) then Inl (Internal ''audit_logs_api_token_id_fkey'')
      else Inr ((), d\<lparr>next_id := Suc (next_id d),
                     audit_logs := audit_logs d @
                       [\<lparr>al_id = next_id d, al_organization_id = org, al_actor_type = actor_type,
                         al_actor_user_id = actor_user, al_api_token_id = token, al_action = action,
                         al_entity_type = entity_type, al_entity_id = entity_id, al_metadata = metadata,
                         al_ip_address = ac_ip_address context, al_user_agent = ac_user_agent context\<rparr>]\<rparr>))"

definition actor_type :: "CredentialKind \<Rightarrow> string" where
  "actor_type credential = (case credential of Session \<Rightarrow> ''user'' | ApiToken \<Rightarrow> ''api_token'')"

definition write_audit ::
  "Principal \<Rightarrow> AuditContext \<Rightarrow> uuid option \<Rightarrow> string \<Rightarrow> string option \<Rightarrow> uuid option \<Rightarrow> json \<Rightarrow> unit tx" where
  "write_audit p context org action entity_type entity_id metadata =
     write_actor (actor_type (p_credential p)) (Some (p_user_id p)) (p_api_token_id p) context
       org action entity_type entity_id metadata"

section \<open>Facts on authentication\<close>

definition tokens_inv :: "db \<Rightarrow> bool" where
  "tokens_inv d \<longleftrightarrow> table_ok t_token_hash t_id (next_id d) (api_tokens d)"

definition token_principal :: "api_token \<Rightarrow> Principal" where
  "token_principal t =
     \<lparr>p_user_id = t_user_id t, p_credential = ApiToken, p_api_token_id = Some (t_id t),
      p_token_organization_id = t_organization_id t\<rparr>"

text \<open>The row a presented token is accepted by.\<close>

definition accepts_token :: "ext \<Rightarrow> timestamp \<Rightarrow> db \<Rightarrow> string \<Rightarrow> api_token \<Rightarrow> bool" where
  "accepts_token E now d token t \<longleftrightarrow>
     starts_with token ''blq_'' \<and> API_TOKEN_PREFIX_LEN \<le> length token \<and> t \<in> set (api_tokens d) \<and>
     t_token_prefix t = take API_TOKEN_PREFIX_LEN token \<and> t_token_hash t = sha256 E token \<and>
     token_usable now d t"

lemma find_unique_hash:
  assumes "distinct (map key xs)" and "x \<in> set xs" and "P x" and "\<And>y. P y \<Longrightarrow> key y = key x"
  shows "find P xs = Some x"
proof -
  obtain y where y: "find P xs = Some y" using find_Some_ex [of x xs P] assms(2,3) by blast
  then have "P y" and "y \<in> set xs" by (auto dest: find_SomeD)
  with assms have "y = x" by (meson distinct_key_unique)
  with y show ?thesis by simp
qed

lemma resolve_api_token_accepts:
  assumes "tokens_inv d" and "is_ascii token" and "accepts_token E now d token t"
  shows "resolve_api_token E now token d = Some (Inr (token_principal t), touch_token now (t_id t) d)"
proof -
  let ?P = "\<lambda>t. t_token_prefix t = take API_TOKEN_PREFIX_LEN token \<and> t_token_hash t = sha256 E token \<and> token_usable now d t"
  have "find ?P (api_tokens d) = Some t"
    using assms(1,3) by (intro find_unique_hash [where key = t_token_hash])
      (auto simp: tokens_inv_def table_ok_def accepts_token_def)
  then show ?thesis
    using assms(2,3) by (auto simp: resolve_api_token_def accepts_token_def slice_to_ascii token_principal_def)
qed

lemma resolve_api_token_rejects:
  assumes "is_ascii token" and "\<And>t. \<not> accepts_token E now d token t"
  shows "resolve_api_token E now token d = Some (Inl Unauthorized, d)"
proof (cases "starts_with token ''blq_'' \<and> API_TOKEN_PREFIX_LEN \<le> length token")
  case True
  then have "find (\<lambda>t. t_token_prefix t = take API_TOKEN_PREFIX_LEN token \<and> t_token_hash t = sha256 E token \<and>
      token_usable now d t) (api_tokens d) = None"
    using assms(2) by (auto simp: find_None_iff_all accepts_token_def)
  with True assms(1) show ?thesis by (auto simp: resolve_api_token_def slice_to_ascii)
qed (auto simp: resolve_api_token_def)

lemma is_ascii_strip: "is_ascii s \<Longrightarrow> strip_prefix s p = Some t \<Longrightarrow> is_ascii t"
  by (auto simp: is_ascii_def strip_prefix_Some)

text \<open>What the caller of an authenticated endpoint may rely on.\<close>

definition credential_of :: "ext \<Rightarrow> timestamp \<Rightarrow> redis \<Rightarrow> request \<Rightarrow> db \<Rightarrow> Principal \<Rightarrow> bool" where
  "credential_of E now r rq d p \<longleftrightarrow>
     (case rq_authorization rq of
        Some header \<Rightarrow>
          \<exists>token t. header = Some (''Bearer '' @ token) \<and> accepts_token E now d token t \<and> p = token_principal t
      | None \<Rightarrow>
          \<exists>token user. from_headers (rq_cookie rq) = Some token \<and> resolve E now token r = Inr (Some user) \<and>
            active_user user d \<and> p = session_principal user)"

text \<open>Two databases that differ only in when tokens were last used.\<close>

definition same_but_last_used :: "db \<Rightarrow> db \<Rightarrow> bool" where
  "same_but_last_used d d' \<longleftrightarrow>
     map (t_last_used_at_update (\<lambda>_. None)) (api_tokens d') = map (t_last_used_at_update (\<lambda>_. None)) (api_tokens d) \<and>
     d'\<lparr>api_tokens := []\<rparr> = d\<lparr>api_tokens := []\<rparr>"

lemma touch_token_same: "same_but_last_used d (touch_token now i d)"
  by (auto simp: same_but_last_used_def touch_token_def upd_where_def)

lemma same_but_last_used_refl: "same_but_last_used d d"
  by (simp add: same_but_last_used_def)

section \<open>Properties\<close>

lemma no_bearer:
  assumes "rq_authorization rq = Some header" and "\<nexists>token. header = Some (''Bearer '' @ token) \<and> token \<noteq> []"
  shows "from_request_parts E now r rq d = Some (Inl Unauthorized, d)" and "\<not> credential_of E now r rq d p"
proof -
  have "\<not> accepts_token E now d [] t" for t
    by (simp add: accepts_token_def API_TOKEN_PREFIX_LEN_def)
  with assms(2) show "\<not> credential_of E now r rq d p"
    unfolding credential_of_def assms(1) option.case by metis
  show "from_request_parts E now r rq d = Some (Inl Unauthorized, d)"
  proof (cases "Option.bind header (\<lambda>value. strip_prefix value ''Bearer '')")
    case None
    with assms(1) show ?thesis by (simp add: from_request_parts_def)
  next
    case (Some token)
    then have "header = Some (''Bearer '' @ token)" by (cases header) (simp_all only: bind.simps strip_prefix_Some option.distinct)
    with assms(2) have "token = []" by blast
    with Some assms(1) show ?thesis by (simp add: from_request_parts_def)
  qed
qed


definition demo_user :: user where
  "demo_user =
     \<lparr>u_id = 3, u_email = ''ada@x.io'', u_name = Some ''Ada'', u_avatar_url = None, u_is_active = True,
      u_last_login_at = None, u_deleted_at = None, u_created_at = 0\<rparr>"

definition demo_token :: api_token where
  "demo_token =
     \<lparr>t_id = 4, t_user_id = 3, t_organization_id = None, t_name = ''ci'', t_token_prefix = ''blq_abcdefgh'',
      t_token_hash = replicate 32 0, t_scopes = [''read''], t_last_used_at = None,
      t_expires_at = Some 1000, t_revoked_at = None, t_created_at = 0\<rparr>"

definition demo_auth_db :: db where
  "demo_auth_db = empty_db\<lparr>next_id := 20, users := [demo_user], api_tokens := [demo_token]\<rparr>"

definition demo_request :: request where
  "demo_request = \<lparr>rq_authorization = Some (Some ''Bearer blq_abcdefghij''), rq_cookie = None\<rparr>"


text \<open>
  The role check grants exactly what the membership table says: a principal gets role
  \<open>role\<close> in an organization if and only if its token is not scoped to another
  organization, the organization is not deleted, and a membership row gives the user that
  role and the role is at least the required one. Any refusal is \<open>Forbidden\<close>, and a
  grant for a higher minimum is a grant for a lower one.
\<close>

theorem role_check_exact:
  assumes "distinct (map (\<lambda>m. (m_organization_id m, m_user_id m)) (organization_members d))"
  shows "(require_organization_role p org minimum d = Inr role \<longleftrightarrow>
            (\<forall>scope. p_token_organization_id p = Some scope \<longrightarrow> scope = org) \<and> live_organization org d \<and>
            (\<exists>m\<in>set (organization_members d). m_organization_id m = org \<and> m_user_id m = p_user_id p \<and>
               m_role m = role_as_str role) \<and> minimum \<le> role) \<and>
    (require_organization_role p org minimum d = Inl e \<longrightarrow> e = Forbidden) \<and>
    (require_organization_role p org minimum d = Inr role \<longrightarrow> lower \<le> minimum \<longrightarrow>
       require_organization_role p org lower d = Inr role)"
proof -
  have row: "member_row org (p_user_id p) d = Some m"
    if "m \<in> set (organization_members d)" "m_organization_id m = org" "m_user_id m = p_user_id p" for m
    unfolding member_row_def using that assms
    by (intro find_unique_hash [where key = "\<lambda>m. (m_organization_id m, m_user_id m)"]) auto
  have spec: "require_organization_role p org minimum d = Inr role \<longleftrightarrow>
      (\<forall>scope. p_token_organization_id p = Some scope \<longrightarrow> scope = org) \<and> live_organization org d \<and>
      (\<exists>m. member_row org (p_user_id p) d = Some m \<and> m_role m = role_as_str role) \<and> minimum \<le> role" for minimum
    by (auto simp: require_organization_role_def parse_role_Some less_eq_OrganizationRole_def not_less
        split: option.splits if_splits)
  have mem: "(\<exists>m. member_row org (p_user_id p) d = Some m \<and> m_role m = role_as_str role) \<longleftrightarrow>
      (\<exists>m\<in>set (organization_members d). m_organization_id m = org \<and> m_user_id m = p_user_id p \<and>
         m_role m = role_as_str role)"
    using row by (auto simp: member_row_def dest!: find_SomeD)
  have "require_organization_role p org minimum d = Inl e \<Longrightarrow> e = Forbidden"
    by (auto simp: require_organization_role_def split: option.splits if_splits)
  then show ?thesis unfolding spec mem by auto
qed

theorem role_check_exact_witness:
  "require_organization_role (session_principal 3) 2 Viewer
     (demo_auth_db\<lparr>organizations := [\<lparr>o_id = 2, o_slug = ''t'', o_name = ''T'', o_kind = Team,
        o_github_installation_id = None, o_created_by = Some 3, o_created_at = 0, o_deleted_at = None\<rparr>],
      organization_members := [\<lparr>m_id = 6, m_organization_id = 2, m_user_id = 3, m_role = ''admin'',
        m_invited_by = None, m_created_at = 0\<rparr>]\<rparr>) = Inr Admin"
  using role_check_exact [of "demo_auth_db\<lparr>organizations := [\<lparr>o_id = 2, o_slug = ''t'', o_name = ''T'', o_kind = Team,
        o_github_installation_id = None, o_created_by = Some 3, o_created_at = 0, o_deleted_at = None\<rparr>],
      organization_members := [\<lparr>m_id = 6, m_organization_id = 2, m_user_id = 3, m_role = ''admin'',
        m_invited_by = None, m_created_at = 0\<rparr>]\<rparr>" "session_principal 3" 2 Viewer Admin]
  by (simp add: live_organization_def session_principal_def)

end
