(* ===== verification/Api_Tokens.thy ===== *)
theory Api_Tokens
  imports Auth
begin

text \<open>
  \<^verbatim>\<open>gateway/src/routes/api_tokens.rs\<close>: issuing, listing and revoking API tokens. The
  raw token leaves in the response only; the table keeps its prefix and its hash. A panic is
  \<open>None\<close>.
\<close>

section \<open>Requests and responses\<close>

record CreateToken =
  ct_name :: string
  ct_organization_id :: "uuid option"
  ct_scopes :: "string list option"
  ct_expires_at :: "timestamp option"

record CreatedTokenResponse =
  cr_id :: uuid
  cr_name :: string
  cr_token_prefix :: string
  cr_token :: string
  cr_organization_id :: "uuid option"
  cr_scopes :: "string list"
  cr_expires_at :: "timestamp option"

record TokenResponse =
  tr_id :: uuid
  tr_organization_id :: "uuid option"
  tr_name :: string
  tr_token_prefix :: string
  tr_scopes :: "string list"
  tr_last_used_at :: "timestamp option"
  tr_expires_at :: "timestamp option"
  tr_revoked_at :: "timestamp option"
  tr_created_at :: timestamp

section \<open>Handlers\<close>

definition insert_token :: "api_token \<Rightarrow> unit tx" where
  "insert_token t d =
     (if list_ex (\<lambda>x. t_token_hash x = t_token_hash t) (api_tokens d) then Inl (Internal ''api_tokens_token_hash_key'')
      else if t_user_id t \<notin> set (map u_id (users d)) then Inl (Internal ''api_tokens_user_id_fkey'')
      else if \<not> ref_ok (t_organization_id t) (map o_id (organizations d))
      then Inl (Internal ''api_tokens_organization_id_fkey'')
      else Inr ((), d\<lparr>next_id := Suc (next_id d), api_tokens := api_tokens d @ [t]\<rparr>))"

definition store_token ::
  "ext \<Rightarrow> timestamp \<Rightarrow> Principal \<Rightarrow> AuditContext \<Rightarrow> CreateToken \<Rightarrow> string list \<Rightarrow> string \<Rightarrow> string \<Rightarrow>
   (nat \<times> CreatedTokenResponse) tx" where
  "store_token E now p context request scopes raw_token prefix d =
     (let name = trim (ct_name request); token_id = next_id d
      in case insert_token
           \<lparr>t_id = token_id, t_user_id = p_user_id p, t_organization_id = ct_organization_id request,
            t_name = name, t_token_prefix = prefix, t_token_hash = sha256 E raw_token, t_scopes = scopes,
            t_last_used_at = None, t_expires_at = ct_expires_at request, t_revoked_at = None,
            t_created_at = now\<rparr> d of
           Inl e \<Rightarrow> Inl e
         | Inr (_, d1) \<Rightarrow>
             (case write_audit p context (ct_organization_id request) ''api_token.created'' (Some ''api_token'')
                     (Some token_id)
                     (JObj [(''name'', JStr name), (''prefix'', JStr prefix), (''scopes'', JArr (map JStr scopes))]) d1 of
                Inl e \<Rightarrow> Inl e
              | Inr (_, d2) \<Rightarrow>
                  Inr ((201, \<lparr>cr_id = token_id, cr_name = name, cr_token_prefix = prefix, cr_token = raw_token,
                              cr_organization_id = ct_organization_id request, cr_scopes = scopes,
                              cr_expires_at = ct_expires_at request\<rparr>), d2)))"

text \<open>The checks of \<open>create\<close> before the token is drawn; \<open>utc\<close> is \<open>Utc::now()\<close>.\<close>

definition check_create :: "timestamp \<Rightarrow> Principal \<Rightarrow> CreateToken \<Rightarrow> db \<Rightarrow> string list result" where
  "check_create utc p request d =
     (case require_session p of Inl e \<Rightarrow> Inl e | Inr _ \<Rightarrow>
      (let name = trim (ct_name request)
       in if name = [] \<or> length (chars name) > 100
          then Inl (BadRequest ''token name must be between 1 and 100 characters'')
          else if (case ct_expires_at request of None \<Rightarrow> False | Some expires \<Rightarrow> expires \<le> utc)
          then Inl (BadRequest ''token expiry must be in the future'')
          else (case (case ct_organization_id request of
                        None \<Rightarrow> Inr Viewer
                      | Some org \<Rightarrow> require_organization_role p org Viewer d) of
                  Inl e \<Rightarrow> Inl e
                | Inr _ \<Rightarrow>
                    let scopes = (case ct_scopes request of None \<Rightarrow> [''read''] | Some s \<Rightarrow> s)
                    in if scopes \<noteq> [''read'']
                       then Inl (BadRequest ''Phase 2 API tokens support only the read scope'')
                       else Inr scopes)))"

definition create_token ::
  "ext \<Rightarrow> (u8 list \<Rightarrow> string) \<Rightarrow> (nat \<Rightarrow> u8 list option) \<Rightarrow> timestamp \<Rightarrow> timestamp \<Rightarrow> Principal \<Rightarrow>
   AuditContext \<Rightarrow> CreateToken \<Rightarrow> db \<Rightarrow> ((nat \<times> CreatedTokenResponse) result \<times> db) option" where
  "create_token E encode getrandom utc now p context request d =
     (case check_create utc p request d of
        Inl e \<Rightarrow> Some (Inl e, d)
      | Inr scopes \<Rightarrow>
          (case new_api_token encode getrandom of
             Inl e \<Rightarrow> Some (Inl (crypto_error e), d)
           | Inr raw_token \<Rightarrow>
               (case slice_to API_TOKEN_PREFIX_LEN raw_token of
                  None \<Rightarrow> None
                | Some prefix \<Rightarrow>
                    Some (transact (store_token E now p context request scopes raw_token prefix) d))))"

definition list_tokens :: "Principal \<Rightarrow> db \<Rightarrow> TokenResponse list result" where
  "list_tokens p d =
     (case require_session p of Inl e \<Rightarrow> Inl e | Inr _ \<Rightarrow>
      Inr (map (\<lambda>t. \<lparr>tr_id = t_id t, tr_organization_id = t_organization_id t, tr_name = t_name t,
                     tr_token_prefix = t_token_prefix t, tr_scopes = t_scopes t,
                     tr_last_used_at = t_last_used_at t, tr_expires_at = t_expires_at t,
                     tr_revoked_at = t_revoked_at t, tr_created_at = t_created_at t\<rparr>)
            (order_by (\<lambda>a b. t_created_at b \<le> t_created_at a)
               (filter (\<lambda>t. t_user_id t = p_user_id p) (api_tokens d)))))"

definition revocable :: "Principal \<Rightarrow> uuid \<Rightarrow> api_token \<Rightarrow> bool" where
  "revocable p token_id t \<longleftrightarrow> t_id t = token_id \<and> t_user_id t = p_user_id p \<and> t_revoked_at t = None"

definition revoke_token_tx :: "timestamp \<Rightarrow> Principal \<Rightarrow> AuditContext \<Rightarrow> uuid \<Rightarrow> nat tx" where
  "revoke_token_tx now p context token_id d =
     (case find (revocable p token_id) (api_tokens d) of
        None \<Rightarrow> Inl NotFound
      | Some t \<Rightarrow>
          (case write_audit p context (t_organization_id t) ''api_token.revoked'' (Some ''api_token'')
                  (Some token_id) (JObj [])
                  (d\<lparr>api_tokens := upd_where (revocable p token_id) (\<lambda>t. t\<lparr>t_revoked_at := Some now\<rparr>) (api_tokens d)\<rparr>) of
             Inl e \<Rightarrow> Inl e
           | Inr (_, d1) \<Rightarrow> Inr (204, d1)))"

definition revoke_token ::
  "timestamp \<Rightarrow> Principal \<Rightarrow> AuditContext \<Rightarrow> uuid \<Rightarrow> db \<Rightarrow> nat result \<times> db" where
  "revoke_token now p context token_id d =
     (case require_session p of
        Inl e \<Rightarrow> (Inl e, d)
      | Inr _ \<Rightarrow> transact (revoke_token_tx now p context token_id) d)"

section \<open>Facts\<close>

lemma insert_token_ok:
  assumes "tokens_inv d" and "insert_token t d = Inr (x, d1)" and "t_id t = next_id d"
  shows "tokens_inv d1 \<and> api_tokens d1 = api_tokens d @ [t] \<and> next_id d1 = Suc (next_id d) \<and>
    d1\<lparr>next_id := 0, api_tokens := []\<rparr> = d\<lparr>next_id := 0, api_tokens := []\<rparr>"
proof -
  have "d1 = d\<lparr>next_id := Suc (next_id d), api_tokens := api_tokens d @ [t]\<rparr>"
    and "t_token_hash t \<notin> t_token_hash ` set (api_tokens d)"
    using assms(2) by (auto simp: insert_token_def list_ex_iff split: if_splits)
  with assms(1,3) show ?thesis by (auto simp: tokens_inv_def intro: table_ok_insert)
qed

lemma write_audit_tokens:
  assumes "write_audit p context org action ty i metadata d = Inr (x, d')"
  shows "api_tokens d' = api_tokens d \<and> next_id d' = Suc (next_id d) \<and> users d' = users d \<and>
    organizations d' = organizations d \<and> organization_members d' = organization_members d"
  using assms by (auto simp: write_audit_def write_actor_def split: if_splits)

lemma create_token_run:
  assumes "create_token E encode getrandom utc now p context request d = Some (Inr (status, resp), d')"
  shows "\<exists>prefix scopes d1. check_create utc p request d = Inr scopes \<and>
    new_api_token encode getrandom = Inr (cr_token resp) \<and>
    slice_to API_TOKEN_PREFIX_LEN (cr_token resp) = Some prefix \<and>
    insert_token \<lparr>t_id = next_id d, t_user_id = p_user_id p, t_organization_id = ct_organization_id request,
      t_name = trim (ct_name request), t_token_prefix = prefix, t_token_hash = sha256 E (cr_token resp),
      t_scopes = scopes, t_last_used_at = None, t_expires_at = ct_expires_at request, t_revoked_at = None,
      t_created_at = now\<rparr> d = Inr ((), d1) \<and> status = 201 \<and> cr_id resp = next_id d \<and>
    write_audit p context (ct_organization_id request) ''api_token.created'' (Some ''api_token'') (Some (next_id d))
      (JObj [(''name'', JStr (trim (ct_name request))), (''prefix'', JStr prefix), (''scopes'', JArr (map JStr scopes))]) d1 = Inr ((), d')"
  using assms unfolding create_token_def
  by (auto simp: transact_def store_token_def Let_def error_simps split: sum.splits option.splits prod.splits)

lemma check_create_scopes: "check_create utc p request d = Inr scopes \<Longrightarrow> scopes = [''read''] \<and> p_credential p = Session"
  by (auto simp: check_create_def require_session_def Let_def error_simps split: if_splits)

lemma usable_cong:
  "organization_members d' = organization_members d \<Longrightarrow> organizations d' = organizations d \<Longrightarrow> users d' = users d \<Longrightarrow>
     token_usable t d' row = token_usable t d row"
  by (simp add: token_usable_def member_row_def live_organization_def active_user_def split: option.splits)

text \<open>What is relied on of URL-safe base64: 32 bytes encode to ASCII text of at least eight characters.\<close>

definition urlsafe_ok :: "(u8 list \<Rightarrow> string) \<Rightarrow> bool" where
  "urlsafe_ok encode \<longleftrightarrow> (\<forall>bs. length bs = TOKEN_BYTES \<longrightarrow> is_ascii (encode bs) \<and> 8 \<le> length (encode bs))"

lemma new_api_token_shape:
  assumes "urlsafe_ok encode" and "\<And>n bs. getrandom n = Some bs \<Longrightarrow> length bs = n" and "new_api_token encode getrandom = Inr token"
  shows "is_ascii token \<and> starts_with token ''blq_'' \<and> API_TOKEN_PREFIX_LEN \<le> length token"
  using assms
  by (fastforce simp: new_api_token_def random_urlsafe_def urlsafe_ok_def is_ascii_def starts_with_def
      API_TOKEN_PREFIX_LEN_def split: option.splits)

section \<open>The life of tokens\<close>

definition revoked_in :: "db \<Rightarrow> uuid \<Rightarrow> bool" where
  "revoked_in d i \<longleftrightarrow> i < next_id d \<and> (\<forall>t\<in>set (api_tokens d). t_id t = i \<longrightarrow> t_revoked_at t \<noteq> None)"

text \<open>
  Everything that happens to the token table: issuing, revoking and authenticating, each with
  any outcome, and steps elsewhere, which leave it alone.
\<close>

inductive token_step :: "db \<Rightarrow> db \<Rightarrow> bool" where
  issued: "create_token E encode getrandom utc now p context request d = Some (res, d') \<Longrightarrow> token_step d d'"
| revoked: "revoke_token now p context token_id d = (res', d') \<Longrightarrow> token_step d d'"
| used: "from_request_parts E now r rq d = Some (res'', d') \<Longrightarrow> token_step d d'"
| elsewhere: "api_tokens d' = api_tokens d \<Longrightarrow> next_id d \<le> next_id d' \<Longrightarrow> token_step d d'"

lemma tokens_inv_frame:
  "tokens_inv d \<Longrightarrow> api_tokens d' = api_tokens d \<Longrightarrow> next_id d \<le> next_id d' \<Longrightarrow> tokens_inv d'"
  by (auto simp: tokens_inv_def intro: table_ok_mono)

lemma issued_step:
  assumes inv: "tokens_inv d" and run: "create_token E encode getrandom utc now p context request d = Some (res, d')"
  shows "tokens_inv d' \<and> (revoked_in d i \<longrightarrow> revoked_in d' i)"
proof (cases res)
  case (Inl e)
  with run have "d' = d"
    by (auto simp: create_token_def dest: transact_error split: sum.splits option.splits)
  with inv show ?thesis by simp
next
  case (Inr x)
  obtain status resp where "x = (status, resp)" by (cases x)
  then obtain t d1 a b c e f where ins: "insert_token t d = Inr ((), d1)" and t: "t_id t = next_id d"
    and audit: "write_audit p context a b c e f d1 = Inr ((), d')"
    using create_token_run [of E encode getrandom utc now p "context" request d status resp d'] run Inr by force
  from insert_token_ok [OF inv ins t] write_audit_tokens [OF audit] t show ?thesis
    by (auto simp: revoked_in_def intro: tokens_inv_frame)
qed

lemma revoke_token_run:
  assumes "revoke_token now p context token_id d = (Inr status, d')"
  shows "status = 204 \<and> p_credential p = Session \<and> (\<exists>t\<in>set (api_tokens d). revocable p token_id t) \<and>
    api_tokens d' = upd_where (revocable p token_id) (\<lambda>t. t\<lparr>t_revoked_at := Some now\<rparr>) (api_tokens d) \<and>
    next_id d' = Suc (next_id d)"
  using assms unfolding revoke_token_def
  by (auto simp: transact_def revoke_token_tx_def require_session_def error_simps
      split: sum.splits option.splits prod.splits if_splits dest!: find_SomeD write_audit_tokens)

lemma revoked_step:
  assumes inv: "tokens_inv d" and run: "revoke_token now p context token_id d = (res, d')"
  shows "tokens_inv d' \<and> (revoked_in d i \<longrightarrow> revoked_in d' i)"
proof (cases res)
  case (Inl e)
  with run have "d' = d" by (auto simp: revoke_token_def dest: transact_error split: sum.splits)
  with inv show ?thesis by simp
next
  case (Inr status)
  with run have toks: "api_tokens d' = upd_where (revocable p token_id) (\<lambda>t. t\<lparr>t_revoked_at := Some now\<rparr>) (api_tokens d)"
    and n: "next_id d' = Suc (next_id d)" using revoke_token_run by blast+
  have "table_ok t_token_hash t_id (next_id d) (api_tokens d')"
    unfolding toks using inv by (intro table_ok_upd) (auto simp: tokens_inv_def)
  then have "tokens_inv d'" unfolding tokens_inv_def n by (rule table_ok_mono) simp
  moreover have "revoked_in d i \<longrightarrow> revoked_in d' i"
    by (auto simp: revoked_in_def n toks set_upd_where)
  ultimately show ?thesis by simp
qed

lemma touched_tokens:
  assumes "same_but_last_used d d'"
  shows "next_id d' = next_id d \<and> map t_id (api_tokens d') = map t_id (api_tokens d) \<and>
    map t_token_hash (api_tokens d') = map t_token_hash (api_tokens d) \<and>
    map (\<lambda>t. (t_id t, t_revoked_at t)) (api_tokens d') = map (\<lambda>t. (t_id t, t_revoked_at t)) (api_tokens d)"
proof -
  note eq = conjunct1 [OF assms [unfolded same_but_last_used_def]]
  have "next_id (d'\<lparr>api_tokens := []\<rparr>) = next_id (d\<lparr>api_tokens := []\<rparr>)"
    using assms by (simp only: same_but_last_used_def)
  with arg_cong [OF eq, of "map t_id"] arg_cong [OF eq, of "map t_token_hash"]
    arg_cong [OF eq, of "map (\<lambda>t. (t_id t, t_revoked_at t))"]
  show ?thesis by (simp add: comp_def)
qed

lemma used_step:
  assumes inv: "tokens_inv d" and same: "same_but_last_used d d'"
  shows "tokens_inv d' \<and> (revoked_in d i \<longrightarrow> revoked_in d' i)"
proof -
  note t = touched_tokens [OF same]
  have ids: "set (map (\<lambda>t. (t_id t, t_revoked_at t)) (api_tokens d')) = set (map (\<lambda>t. (t_id t, t_revoked_at t)) (api_tokens d))"
    using t by simp
  have "t_id x < next_id d" if "x \<in> set (api_tokens d')" for x
  proof -
    have "t_id x \<in> set (map t_id (api_tokens d'))" using that by simp
    then have "t_id x \<in> set (map t_id (api_tokens d))" using t by simp
    with inv show ?thesis by (auto simp: tokens_inv_def table_ok_def)
  qed
  with inv t have "tokens_inv d'" by (simp add: tokens_inv_def table_ok_def)
  moreover have "revoked_in d i \<longrightarrow> revoked_in d' i"
  proof
    assume rev: "revoked_in d i"
    have "t_revoked_at x \<noteq> None" if x: "x \<in> set (api_tokens d')" "t_id x = i" for x
    proof -
      have "(i, t_revoked_at x) \<in> set (map (\<lambda>t. (t_id t, t_revoked_at t)) (api_tokens d))"
        unfolding ids [symmetric] using x by force
      then obtain y where "y \<in> set (api_tokens d)" "t_id y = i" "t_revoked_at y = t_revoked_at x" by auto
      with rev show ?thesis unfolding revoked_in_def by metis
    qed
    with rev t show "revoked_in d' i" by (simp add: revoked_in_def)
  qed
  ultimately show ?thesis by simp
qed

lemma from_request_parts_same:
  "from_request_parts E now r rq d = Some (res, d') \<Longrightarrow> same_but_last_used d d'"
  by (auto simp: from_request_parts_def resolve_api_token_def same_but_last_used_refl touch_token_same
      split: option.splits if_splits sum.splits)

lemma authenticated_token_live:
  assumes "from_request_parts E now r rq d = Some (Inr p, d')" and "p_api_token_id p = Some i"
  shows "\<exists>t\<in>set (api_tokens d). t_id t = i \<and> token_usable now d t"
  using assms
  by (auto simp: from_request_parts_def resolve_api_token_def session_principal_def
      split: option.splits if_splits sum.splits dest!: find_SomeD)

text \<open>
  C22. Revocation is final: from a state in which token \<open>i\<close> is revoked, whatever tokens are
  issued, revoked or used afterwards and whatever else the program does, no request is ever
  again authenticated by token \<open>i\<close>.
\<close>

theorem revoked_token_is_dead:
  assumes "token_step\<^sup>*\<^sup>* d d'" and "tokens_inv d" and "revoked_in d i"
    and "from_request_parts E now r rq d' = Some (Inr p, d'')"
  shows "p_api_token_id p \<noteq> Some i"
proof -
  have "tokens_inv d' \<and> revoked_in d' i"
    using assms(1)
  proof (induction rule: rtranclp_induct)
    case (step y z)
    from step.hyps(2) show ?case
    proof cases
      case issued
      with step.IH issued_step show ?thesis by blast
    next
      case revoked
      with step.IH revoked_step show ?thesis by blast
    next
      case used
      with step.IH used_step from_request_parts_same show ?thesis by blast
    next
      case elsewhere
      with step.IH show ?thesis by (auto simp: revoked_in_def intro: tokens_inv_frame)
    qed
  qed (simp add: assms(2,3))
  then show ?thesis
    using authenticated_token_live [OF assms(4)] unfolding revoked_in_def token_usable_def by blast
qed

definition bearer :: "string \<Rightarrow> request" where
  "bearer token = \<lparr>rq_authorization = Some (Some (''Bearer '' @ token)), rq_cookie = None\<rparr>"

lemma bearer_resolves: "token \<noteq> [] \<Longrightarrow> from_request_parts E now r (bearer token) d = resolve_api_token E now token d"
  using strip_prefix_append [of "''Bearer ''" token] by (simp add: bearer_def from_request_parts_def)

lemma issued_row:
  assumes inv: "tokens_inv d" and enc: "urlsafe_ok encode" and rnd: "\<And>n bs. getrandom n = Some bs \<Longrightarrow> length bs = n"
    and run: "create_token E encode getrandom utc now p context request d = Some (Inr (status, resp), d')"
  shows "\<exists>row\<in>set (api_tokens d'). tokens_inv d' \<and> t_id row = cr_id resp \<and> t_user_id row = p_user_id p \<and>
    t_organization_id row = ct_organization_id request \<and> t_expires_at row = ct_expires_at request \<and>
    t_revoked_at row = None \<and> t_scopes row = [''read''] \<and>
    t_token_prefix row = take API_TOKEN_PREFIX_LEN (cr_token resp) \<and> t_token_hash row = sha256 E (cr_token resp) \<and>
    is_ascii (cr_token resp) \<and> starts_with (cr_token resp) ''blq_'' \<and> API_TOKEN_PREFIX_LEN \<le> length (cr_token resp) \<and>
    users d' = users d \<and> organizations d' = organizations d \<and> organization_members d' = organization_members d"
proof -
  obtain prefix scopes d1 a b row where chk: "check_create utc p request d = Inr scopes"
    and tok: "new_api_token encode getrandom = Inr (cr_token resp)"
    and pre: "slice_to API_TOKEN_PREFIX_LEN (cr_token resp) = Some prefix"
    and row: "row = \<lparr>t_id = next_id d, t_user_id = p_user_id p, t_organization_id = ct_organization_id request,
      t_name = trim (ct_name request), t_token_prefix = prefix, t_token_hash = sha256 E (cr_token resp),
      t_scopes = scopes, t_last_used_at = None, t_expires_at = ct_expires_at request, t_revoked_at = None,
      t_created_at = now\<rparr>"
    and ins: "insert_token row d = Inr ((), d1)" and id: "cr_id resp = next_id d"
    and audit: "write_audit p context (ct_organization_id request) ''api_token.created'' (Some ''api_token'') a b d1 = Inr ((), d')"
    using create_token_run [OF run] by blast
  note shape = new_api_token_shape [OF enc rnd tok]
  have ok: "tokens_inv d1 \<and> api_tokens d1 = api_tokens d @ [row] \<and> next_id d1 = Suc (next_id d)"
    using insert_token_ok [OF inv ins] by (simp add: row)
  have "users d1 = users d \<and> organizations d1 = organizations d \<and> organization_members d1 = organization_members d"
    using ins by (auto simp: insert_token_def split: if_splits)
  with ok write_audit_tokens [OF audit] have "tokens_inv d'" "row \<in> set (api_tokens d')"
    "users d' = users d" "organizations d' = organizations d" "organization_members d' = organization_members d"
    by (auto intro: tokens_inv_frame)
  then show ?thesis
    using shape pre check_create_scopes [OF chk] id by (intro bexI [of _ row]) (auto simp: row slice_to_ascii)
qed

text \<open>
  C23. An issued token works exactly as long as it should. Issuing never panics. The token in
  the response authenticates, at any later time and against the memberships of that moment, as
  its owner with the requested organization scope, if and only if it has not expired, the owner
  is active, and the owner is a member of the live organization it is scoped to; otherwise the
  answer is \<open>Unauthorized\<close>.
\<close>

theorem issued_token_authenticates:
  assumes inv: "tokens_inv d" and enc: "urlsafe_ok encode" and rnd: "\<And>n bs. getrandom n = Some bs \<Longrightarrow> length bs = n"
  shows "create_token E encode getrandom utc now p context request d \<noteq> None \<and>
    (create_token E encode getrandom utc now p context request d = Some (Inr (status, resp), d') \<longrightarrow>
     map_option fst (from_request_parts E t r (bearer (cr_token resp)) d') = Some
       (if (case ct_expires_at request of None \<Rightarrow> True | Some e \<Rightarrow> t < e) \<and> active_user (p_user_id p) d \<and>
           (case ct_organization_id request of None \<Rightarrow> True
            | Some org \<Rightarrow> member_row org (p_user_id p) d \<noteq> None \<and> live_organization org d)
        then Inr \<lparr>p_user_id = p_user_id p, p_credential = ApiToken, p_api_token_id = Some (cr_id resp),
                  p_token_organization_id = ct_organization_id request\<rparr>
        else Inl Unauthorized))"
proof (intro conjI impI)
  show "create_token E encode getrandom utc now p context request d \<noteq> None"
    using new_api_token_shape [OF enc rnd]
    by (auto simp: create_token_def slice_to_ascii split: sum.splits option.splits)
  assume run: "create_token E encode getrandom utc now p context request d = Some (Inr (status, resp), d')"
  let ?tok = "cr_token resp"
  obtain row where row: "row \<in> set (api_tokens d')" and inv': "tokens_inv d'"
    and fields: "t_id row = cr_id resp" "t_user_id row = p_user_id p" "t_organization_id row = ct_organization_id request"
      "t_expires_at row = ct_expires_at request" "t_revoked_at row = None" "t_scopes row = [''read'']"
      "t_token_prefix row = take API_TOKEN_PREFIX_LEN ?tok" "t_token_hash row = sha256 E ?tok"
    and tok: "is_ascii ?tok" "starts_with ?tok ''blq_''" "API_TOKEN_PREFIX_LEN \<le> length ?tok"
    and frame: "users d' = users d" "organizations d' = organizations d" "organization_members d' = organization_members d"
    using issued_row [OF inv enc rnd run] by blast
  have only: "x = row" if "accepts_token E t d' ?tok x" for x
    using that row fields(8) inv' distinct_key_unique [of t_token_hash "api_tokens d'" x row]
    by (auto simp: accepts_token_def tokens_inv_def table_ok_def)
  have acc: "accepts_token E t d' ?tok row \<longleftrightarrow> token_usable t d row"
    using row fields tok usable_cong [OF frame(3,2,1)] by (simp add: accepts_token_def)
  have usable: "token_usable t d row \<longleftrightarrow>
      (case ct_expires_at request of None \<Rightarrow> True | Some e \<Rightarrow> t < e) \<and> active_user (p_user_id p) d \<and>
      (case ct_organization_id request of None \<Rightarrow> True
       | Some org \<Rightarrow> member_row org (p_user_id p) d \<noteq> None \<and> live_organization org d)"
    by (auto simp: token_usable_def fields split: option.splits)
  have ne: "?tok \<noteq> []" using tok(3) by (auto simp: API_TOKEN_PREFIX_LEN_def)
  show "map_option fst (from_request_parts E t r (bearer ?tok) d') = Some
       (if (case ct_expires_at request of None \<Rightarrow> True | Some e \<Rightarrow> t < e) \<and> active_user (p_user_id p) d \<and>
           (case ct_organization_id request of None \<Rightarrow> True
            | Some org \<Rightarrow> member_row org (p_user_id p) d \<noteq> None \<and> live_organization org d)
        then Inr \<lparr>p_user_id = p_user_id p, p_credential = ApiToken, p_api_token_id = Some (cr_id resp),
                  p_token_organization_id = ct_organization_id request\<rparr>
        else Inl Unauthorized)"
  proof (cases "token_usable t d row")
    case True
    with resolve_api_token_accepts [OF inv' tok(1)] acc bearer_resolves [OF ne] show ?thesis
      unfolding if_P [OF True [unfolded usable]] by (simp add: token_principal_def fields)
  next
    case False
    then have "\<not> accepts_token E t d' ?tok x" for x using only acc by blast
    with resolve_api_token_rejects [OF tok(1)] bearer_resolves [OF ne] show ?thesis
      unfolding if_not_P [OF False [unfolded usable]] by simp
  qed
qed

lemma demo_tokens_inv: "tokens_inv demo_auth_db"
  by (simp add: tokens_inv_def table_ok_def demo_auth_db_def demo_token_def)

definition demo_create :: CreateToken where
  "demo_create = \<lparr>ct_name = ''ci'', ct_organization_id = None, ct_scopes = None, ct_expires_at = Some 90\<rparr>"

definition demo_encode :: "u8 list \<Rightarrow> string" where
  "demo_encode bs = replicate 43 CHR ''A''"

definition demo_random :: "nat \<Rightarrow> u8 list option" where
  "demo_random n = Some (replicate n 7)"

definition demo_ctx :: AuditContext where
  "demo_ctx = \<lparr>ac_ip_address = None, ac_user_agent = None\<rparr>"

theorem issued_token_authenticates_witness:
  "\<exists>status resp d'. create_token session_ext demo_encode demo_random 5 5 (session_principal 3) demo_ctx demo_create demo_auth_db
       = Some (Inr (status, resp), d') \<and>
     map_option (isl \<circ> fst) (from_request_parts session_ext 89 Map.empty (bearer (cr_token resp)) d') = Some False \<and>
     map_option fst (from_request_parts session_ext 90 Map.empty (bearer (cr_token resp)) d') = Some (Inl Unauthorized)"
proof -
  have enc: "urlsafe_ok demo_encode" by (simp add: urlsafe_ok_def demo_encode_def is_ascii_def)
  have rnd: "length bs = n" if "demo_random n = Some bs" for n bs using that by (auto simp: demo_random_def)
  have trim: "trim ''ci'' = ''ci''" by (rule trim_ascii_id) (simp_all add: is_ascii_def white_space_def)
  have chk: "check_create 5 (session_principal 3) demo_create demo_auth_db = Inr [''read'']"
    by (simp add: check_create_def require_session_def session_principal_def demo_create_def trim chars_ascii is_ascii_def)
  have tok: "new_api_token demo_encode demo_random = Inr (''blq_'' @ replicate 43 CHR ''A'')"
    by (simp add: new_api_token_def random_urlsafe_def demo_random_def demo_encode_def)
  have pre: "slice_to API_TOKEN_PREFIX_LEN (''blq_'' @ replicate 43 CHR ''A'') = Some (take API_TOKEN_PREFIX_LEN (''blq_'' @ replicate 43 CHR ''A''))"
    by (rule slice_to_ascii) (simp_all add: is_ascii_def API_TOKEN_PREFIX_LEN_def)
  have "sha256 session_ext (''blq_'' @ replicate 43 CHR ''A'') \<noteq> replicate 32 0"
  proof
    assume "sha256 session_ext (''blq_'' @ replicate 43 CHR ''A'') = replicate 32 0"
    from arg_cong [OF this, of length] show False by (simp add: sha256_def session_ext_def as_bytes_def)
  qed
  then have "\<exists>status resp d'. create_token session_ext demo_encode demo_random 5 5 (session_principal 3) demo_ctx demo_create demo_auth_db
      = Some (Inr (status, resp), d')"
    unfolding create_token_def chk tok pre sum.case option.case
    by (simp add: transact_def store_token_def insert_token_def Let_def demo_auth_db_def demo_token_def demo_user_def
        demo_create_def ref_ok_def write_audit_def write_actor_def session_principal_def)
  then obtain status resp d' where run: "create_token session_ext demo_encode demo_random 5 5 (session_principal 3) demo_ctx demo_create demo_auth_db
      = Some (Inr (status, resp), d')" by blast
  have "active_user 3 demo_auth_db" by (simp add: active_user_def demo_auth_db_def demo_user_def)
  with issued_token_authenticates [of demo_auth_db demo_encode demo_random session_ext 5 5 "session_principal 3" demo_ctx demo_create status resp d' 89 Map.empty, OF demo_tokens_inv enc rnd]
    issued_token_authenticates [of demo_auth_db demo_encode demo_random session_ext 5 5 "session_principal 3" demo_ctx demo_create status resp d' 90 Map.empty, OF demo_tokens_inv enc rnd]
    run
  show ?thesis by (auto simp: demo_create_def session_principal_def)
qed

theorem revoked_token_is_dead_witness:
  "\<exists>d'. revoke_token 6 (session_principal 3) demo_ctx 4 demo_auth_db = (Inr 204, d') \<and>
     (\<nexists>d''. from_request_parts demo_ext 7 Map.empty demo_request d' = Some (Inr (token_principal demo_token), d''))"
proof -
  obtain d' where run: "revoke_token 6 (session_principal 3) demo_ctx 4 demo_auth_db = (Inr 204, d')"
    by (simp add: revoke_token_def require_session_def session_principal_def transact_def revoke_token_tx_def demo_auth_db_def
        demo_token_def revocable_def write_audit_def write_actor_def ref_ok_def demo_user_def)
  have "revoked_in d' 4"
    using revoke_token_run [OF run] by (auto simp: revoked_in_def demo_auth_db_def demo_token_def revocable_def session_principal_def)
  with run revoked_step [OF demo_tokens_inv run] revoked_token_is_dead [OF rtranclp.rtrancl_refl, of d' 4 demo_ext 7 Map.empty demo_request]
  show ?thesis by (fastforce simp: token_principal_def demo_token_def)
qed

end
