(* ===== verification/Organizations.thy ===== *)
theory Organizations
  imports Auth
begin

text \<open>
  \<^verbatim>\<open>gateway/src/routes/organizations.rs\<close>: creating team workspaces, listing them and
  their members, adding, re-roling and removing members, and the slug rules. A member
  transaction holds the row lock of its organization (\<open>FOR UPDATE\<close>), so two of them on
  one organization are serialised and each is one step on the database.
\<close>

section \<open>Slugs\<close>

text \<open>A Rust \<open>char\<close> is a byte group; only one-byte groups are ASCII.\<close>

definition ascii_alphanumeric_group :: "string \<Rightarrow> bool" where
  "ascii_alphanumeric_group g = (case g of [c] \<Rightarrow> is_ascii_alphanumeric c | _ \<Rightarrow> False)"

fun slug_loop :: "string list \<Rightarrow> string \<Rightarrow> bool \<Rightarrow> string" where
  "slug_loop [] output previous_dash = output"
| "slug_loop (character # rest) output previous_dash =
     (if ascii_alphanumeric_group character
      then slug_loop rest (output @ map to_ascii_lowercase character) False
      else if \<not> previous_dash \<and> output \<noteq> [] then slug_loop rest (output @ ''-'') True
      else slug_loop rest output previous_dash)"

definition slugify :: "string \<Rightarrow> string" where
  "slugify value = concat (take 63 (chars (trim_matches CHR ''-'' (slug_loop (chars value) [] False))))"

definition slug_byte :: "char \<Rightarrow> bool" where
  "slug_byte c \<longleftrightarrow> is_ascii_lowercase c \<or> is_ascii_digit c \<or> c = CHR ''-''"

definition valid_slug :: "string \<Rightarrow> bool" where
  "valid_slug slug \<longleftrightarrow>
     3 \<le> length slug \<and> length slug \<le> 63 \<and> \<not> starts_with slug ''-'' \<and> \<not> ends_with slug ''-'' \<and>
     list_all slug_byte slug"

definition validate_slug :: "string \<Rightarrow> unit result" where
  "validate_slug slug =
     (if \<not> valid_slug slug
      then Inl (BadRequest ''slug must be 3-63 lowercase letters, numbers, or hyphens'')
      else Inr ())"

section \<open>Workspaces\<close>

record CreateOrganization =
  co_name :: string
  co_slug :: "string option"

record OrganizationResponse =
  or_id :: uuid
  or_slug :: string
  or_name :: string
  or_kind :: string
  or_role :: string
  or_created_at :: timestamp

definition kind_text :: "org_kind \<Rightarrow> string" where
  "kind_text kind = (case kind of Personal \<Rightarrow> ''personal'' | Team \<Rightarrow> ''team'')"

definition list_organizations :: "ext \<Rightarrow> Principal \<Rightarrow> db \<Rightarrow> OrganizationResponse list" where
  "list_organizations E p d =
     order_by (\<lambda>a b. text_le E (or_name a) (or_name b))
       [\<lparr>or_id = o_id x, or_slug = o_slug x, or_name = o_name x, or_kind = kind_text (o_kind x),
         or_role = m_role m, or_created_at = o_created_at x\<rparr>.
        m \<leftarrow> organization_members d, m_user_id m = p_user_id p,
        x \<leftarrow> organizations d, o_id x = m_organization_id m \<and> o_deleted_at x = None \<and>
          (case p_token_organization_id p of None \<Rightarrow> True | Some scope \<Rightarrow> o_id x = scope)]"

text \<open>
  The two inserts and the audit entry of \<open>create\<close>. A duplicate slug is the unique
  violation \<open>map_slug_conflict\<close> turns into a conflict; the slug column is \<open>citext\<close>.
\<close>

definition insert_team :: "ext \<Rightarrow> timestamp \<Rightarrow> Principal \<Rightarrow> string \<Rightarrow> string \<Rightarrow> uuid tx" where
  "insert_team E now p slug name d =
     (if list_ex (\<lambda>x. citext E (o_slug x) = citext E slug) (organizations d)
      then Inl (Conflict ''that organization slug is already in use'')
      else if p_user_id p \<notin> set (map u_id (users d)) then Inl (Internal ''organizations_created_by_fkey'')
      else Inr (next_id d,
             d\<lparr>next_id := next_id d + 2,
               organizations := organizations d @
                 [\<lparr>o_id = next_id d, o_slug = slug, o_name = name, o_kind = Team,
                   o_github_installation_id = None, o_created_by = Some (p_user_id p),
                   o_created_at = now, o_deleted_at = None\<rparr>],
               organization_members := organization_members d @
                 [\<lparr>m_id = Suc (next_id d), m_organization_id = next_id d, m_user_id = p_user_id p,
                   m_role = ''owner'', m_invited_by = None, m_created_at = now\<rparr>]\<rparr>))"

definition create_organization ::
  "ext \<Rightarrow> timestamp \<Rightarrow> Principal \<Rightarrow> AuditContext \<Rightarrow> CreateOrganization \<Rightarrow> db \<Rightarrow>
   (nat \<times> OrganizationResponse) result \<times> db" where
  "create_organization E now p context request d =
     (case require_session p of
        Inl e \<Rightarrow> (Inl e, d)
      | Inr _ \<Rightarrow>
          let name = trim (co_name request)
          in if name = [] \<or> length (chars name) > 100
             then (Inl (BadRequest ''organization name must be between 1 and 100 characters''), d)
             else
               let slug = (case co_slug request of Some s \<Rightarrow> s | None \<Rightarrow> slugify name)
               in case validate_slug slug of
                    Inl e \<Rightarrow> (Inl e, d)
                  | Inr _ \<Rightarrow>
                      transact (\<lambda>d.
                        case insert_team E now p slug name d of
                          Inl e \<Rightarrow> Inl e
                        | Inr (org, d1) \<Rightarrow>
                            (case write_audit p context (Some org) ''organization.created''
                                    (Some ''organization'') (Some org) (JObj [(''slug'', JStr slug)]) d1 of
                               Inl e \<Rightarrow> Inl e
                             | Inr (_, d2) \<Rightarrow>
                                 Inr ((201, \<lparr>or_id = org, or_slug = slug, or_name = name, or_kind = ''team'',
                                             or_role = ''owner'', or_created_at = now\<rparr>), d2))) d)"

section \<open>Members\<close>

record AddMember =
  am_email :: string
  am_role :: string

record MemberResponse =
  mr_user_id :: uuid
  mr_email :: string
  mr_name :: "string option"
  mr_avatar_url :: "string option"
  mr_role :: string
  mr_created_at :: timestamp

text \<open>\<open>ORDER BY u.name NULLS LAST, u.email\<close>.\<close>

definition member_le :: "ext \<Rightarrow> MemberResponse \<Rightarrow> MemberResponse \<Rightarrow> bool" where
  "member_le E a b =
     (let emails = text_le E (citext E (mr_email a)) (citext E (mr_email b))
      in case (mr_name a, mr_name b) of
           (None, None) \<Rightarrow> emails
         | (None, Some _) \<Rightarrow> False
         | (Some _, None) \<Rightarrow> True
         | (Some x, Some y) \<Rightarrow> if text_le E x y \<and> text_le E y x then emails else text_le E x y)"

definition list_members :: "ext \<Rightarrow> Principal \<Rightarrow> uuid \<Rightarrow> db \<Rightarrow> MemberResponse list result" where
  "list_members E p org d =
     (case require_organization_role p org Viewer d of
        Inl e \<Rightarrow> Inl e
      | Inr _ \<Rightarrow>
          Inr (order_by (member_le E)
            [\<lparr>mr_user_id = u_id u, mr_email = u_email u, mr_name = u_name u, mr_avatar_url = u_avatar_url u,
              mr_role = m_role m, mr_created_at = m_created_at m\<rparr>.
             m \<leftarrow> organization_members d, m_organization_id m = org,
             u \<leftarrow> users d, u_id u = m_user_id m \<and> u_deleted_at u = None]))"

definition lock_team_organization :: "uuid \<Rightarrow> db \<Rightarrow> unit result" where
  "lock_team_organization org d =
     (case find (\<lambda>x. o_id x = org \<and> o_deleted_at x = None) (organizations d) of
        None \<Rightarrow> Inl NotFound
      | Some x \<Rightarrow>
          if o_kind x \<noteq> Team then Inl (BadRequest ''personal organizations cannot have additional members'')
          else Inr ())"

definition require_transaction_role :: "uuid \<Rightarrow> uuid \<Rightarrow> OrganizationRole \<Rightarrow> db \<Rightarrow> OrganizationRole result" where
  "require_transaction_role org user minimum d =
     (case Option.bind (member_row org user d) (\<lambda>m. parse_role (m_role m)) of
        None \<Rightarrow> Inl Forbidden
      | Some role \<Rightarrow> if level role < level minimum then Inl Forbidden else Inr role)"

definition ensure_another_owner :: "uuid \<Rightarrow> db \<Rightarrow> unit result" where
  "ensure_another_owner org d =
     (if length (filter (\<lambda>m. m_organization_id m = org \<and> m_role m = ''owner'') (organization_members d)) \<le> 1
      then Inl (Conflict ''an organization must retain at least one owner'')
      else Inr ())"

definition find_active_email :: "ext \<Rightarrow> string \<Rightarrow> db \<Rightarrow> user option" where
  "find_active_email E email d =
     find (\<lambda>u. bound_fold E (u_email u) = bound_fold E email \<and> u_is_active u \<and> u_deleted_at u = None) (users d)"

text \<open>\<open>INSERT \<dots> ON CONFLICT (organization_id, user_id) DO UPDATE SET role\<close>: id and creation time.\<close>

definition put_member ::
  "timestamp \<Rightarrow> uuid \<Rightarrow> uuid \<Rightarrow> OrganizationRole \<Rightarrow> uuid \<Rightarrow> (uuid \<times> timestamp) tx" where
  "put_member now org user role invited_by d =
     (case member_row org user d of
        Some m \<Rightarrow>
          Inr ((m_id m, m_created_at m),
               d\<lparr>next_id := Suc (next_id d),
                 organization_members :=
                   upd_where (\<lambda>m. m_organization_id m = org \<and> m_user_id m = user)
                     (\<lambda>m. m\<lparr>m_role := role_as_str role\<rparr>) (organization_members d)\<rparr>)
      | None \<Rightarrow>
          if invited_by \<notin> set (map u_id (users d)) then Inl (Internal ''organization_members_invited_by_fkey'')
          else Inr ((next_id d, now),
                    d\<lparr>next_id := Suc (next_id d),
                      organization_members := organization_members d @
                        [\<lparr>m_id = next_id d, m_organization_id = org, m_user_id = user,
                          m_role = role_as_str role, m_invited_by = Some invited_by,
                          m_created_at = now\<rparr>]\<rparr>))"

definition add_member_tx ::
  "ext \<Rightarrow> timestamp \<Rightarrow> Principal \<Rightarrow> AuditContext \<Rightarrow> uuid \<Rightarrow> AddMember \<Rightarrow> (nat \<times> MemberResponse) tx" where
  "add_member_tx E now p context org request d =
     (case lock_team_organization org d of Inl e \<Rightarrow> Inl e | Inr _ \<Rightarrow>
      (case require_transaction_role org (p_user_id p) Admin d of Inl e \<Rightarrow> Inl e | Inr actor_role \<Rightarrow>
       (case parse_role (am_role request) of
          None \<Rightarrow> Inl (BadRequest ''role must be owner, admin, member, or viewer'')
        | Some target_role \<Rightarrow>
            if level Admin \<le> level target_role \<and> actor_role \<noteq> Owner then Inl Forbidden
            else
              (case find_active_email E (trim (am_email request)) d of
                 None \<Rightarrow> Inl (BadRequest ''no active BuildLens user has that email'')
               | Some user \<Rightarrow>
                   let previous_role = map_option m_role (member_row org (u_id user) d)
                   in (case (if previous_role = Some ''owner'' \<and> target_role \<noteq> Owner
                             then ensure_another_owner org d else Inr ()) of
                         Inl e \<Rightarrow> Inl e
                       | Inr _ \<Rightarrow>
                           (case put_member now org (u_id user) target_role (p_user_id p) d of
                              Inl e \<Rightarrow> Inl e
                            | Inr ((membership_id, created_at), d1) \<Rightarrow>
                                (case write_audit p context (Some org)
                                        (if previous_role \<noteq> None then ''organization_membership.role_changed''
                                         else ''organization_membership.added'')
                                        (Some ''organization_membership'') (Some membership_id)
                                        (JObj [(''previous_role'', j_option JStr previous_role),
                                               (''role'', JStr (role_as_str target_role))]) d1 of
                                   Inl e \<Rightarrow> Inl e
                                 | Inr (_, d2) \<Rightarrow>
                                     Inr ((if previous_role \<noteq> None then 200 else 201,
                                           \<lparr>mr_user_id = u_id user, mr_email = u_email user,
                                            mr_name = u_name user, mr_avatar_url = u_avatar_url user,
                                            mr_role = role_as_str target_role,
                                            mr_created_at = created_at\<rparr>), d2))))))))"

definition add_member ::
  "ext \<Rightarrow> timestamp \<Rightarrow> Principal \<Rightarrow> AuditContext \<Rightarrow> uuid \<Rightarrow> AddMember \<Rightarrow> db \<Rightarrow>
   (nat \<times> MemberResponse) result \<times> db" where
  "add_member E now p context org request d =
     (case require_session p of
        Inl e \<Rightarrow> (Inl e, d)
      | Inr _ \<Rightarrow> transact (add_member_tx E now p context org request) d)"

definition remove_member_tx :: "Principal \<Rightarrow> AuditContext \<Rightarrow> uuid \<Rightarrow> uuid \<Rightarrow> nat tx" where
  "remove_member_tx p context org user d =
     (case lock_team_organization org d of Inl e \<Rightarrow> Inl e | Inr _ \<Rightarrow>
      (case require_transaction_role org (p_user_id p) Admin d of Inl e \<Rightarrow> Inl e | Inr actor_role \<Rightarrow>
       (case member_row org user d of
          None \<Rightarrow> Inl NotFound
        | Some target \<Rightarrow>
            (case parse_role (m_role target) of
               None \<Rightarrow> Inl (Internal ''organization membership contains an invalid role'')
             | Some target_role \<Rightarrow>
                 if level Admin \<le> level target_role \<and> actor_role \<noteq> Owner then Inl Forbidden
                 else
                   (case (if target_role = Owner then ensure_another_owner org d else Inr ()) of
                      Inl e \<Rightarrow> Inl e
                    | Inr _ \<Rightarrow>
                        (case write_audit p context (Some org) ''organization_membership.removed''
                                (Some ''organization_membership'') (Some (m_id target))
                                (JObj [(''role'', JStr (role_as_str target_role))])
                                (d\<lparr>organization_members :=
                                    del_where (\<lambda>m. m_organization_id m = org \<and> m_user_id m = user)
                                      (organization_members d)\<rparr>) of
                           Inl e \<Rightarrow> Inl e
                         | Inr (_, d2) \<Rightarrow> Inr (204, d2)))))))"

definition remove_member ::
  "Principal \<Rightarrow> AuditContext \<Rightarrow> uuid \<Rightarrow> uuid \<Rightarrow> db \<Rightarrow> nat result \<times> db" where
  "remove_member p context org user d =
     (case require_session p of
        Inl e \<Rightarrow> (Inl e, d)
      | Inr _ \<Rightarrow> transact (remove_member_tx p context org user) d)"

section \<open>The access policy\<close>

text \<open>
  The abstract state of one workspace is the map from users to their roles. The policy says
  who may give whom which role and who may remove whom; a change of policy is a change here.
\<close>

type_synonym role_map = "uuid \<rightharpoonup> OrganizationRole"

definition roles :: "uuid \<Rightarrow> db \<Rightarrow> role_map" where
  "roles org d user = Option.bind (member_row org user d) (\<lambda>m. parse_role (m_role m))"

definition manages :: "role_map \<Rightarrow> uuid \<Rightarrow> bool" where
  "manages r actor \<longleftrightarrow> r actor = Some Admin \<or> r actor = Some Owner"

definition may_handle :: "role_map \<Rightarrow> uuid \<Rightarrow> OrganizationRole \<Rightarrow> bool" where
  "may_handle r actor role \<longleftrightarrow> manages r actor \<and> (Admin \<le> role \<longrightarrow> r actor = Some Owner)"

definition keeps_owner :: "role_map \<Rightarrow> uuid \<Rightarrow> bool" where
  "keeps_owner r user \<longleftrightarrow> (\<exists>u. u \<noteq> user \<and> r u = Some Owner)"

definition may_set :: "role_map \<Rightarrow> uuid \<Rightarrow> uuid \<Rightarrow> OrganizationRole \<Rightarrow> bool" where
  "may_set r actor user role \<longleftrightarrow>
     may_handle r actor role \<and> (r user = Some Owner \<and> role \<noteq> Owner \<longrightarrow> keeps_owner r user)"

definition may_remove :: "role_map \<Rightarrow> uuid \<Rightarrow> uuid \<Rightarrow> bool" where
  "may_remove r actor user \<longleftrightarrow>
     (\<exists>role. r user = Some role \<and> may_handle r actor role \<and> (role = Owner \<longrightarrow> keeps_owner r user))"

definition is_team :: "uuid \<Rightarrow> db \<Rightarrow> bool" where
  "is_team org d \<longleftrightarrow> lock_team_organization org d = Inr ()"

definition member_key :: "organization_member \<Rightarrow> uuid \<times> uuid" where
  "member_key m = (m_organization_id m, m_user_id m)"

definition members_inv :: "db \<Rightarrow> bool" where
  "members_inv d \<longleftrightarrow>
     distinct (map member_key (organization_members d)) \<and>
     (\<forall>m\<in>set (organization_members d). parse_role (m_role m) \<noteq> None \<and> m_organization_id m < next_id d) \<and>
     (\<forall>x\<in>set (organizations d). o_id x < next_id d)"

subsection \<open>How the statements act on the role map\<close>

lemma find_del_where_other:
  "(\<And>r. P r \<Longrightarrow> \<not> Q r) \<Longrightarrow> find Q (del_where P rows) = find Q rows"
  by (induction rows) (auto simp: del_where_def)

lemma roles_put:
  assumes "put_member now org user role invited d = Inr (x, d')"
  shows "roles o' d' u = (if o' = org \<and> u = user then Some role else roles o' d u)"
proof (cases "member_row org user d")
  case None
  with assms show ?thesis
    by (auto simp: put_member_def roles_def member_row_def find_append split: if_splits option.splits)
next
  case (Some m)
  let ?ms = "upd_where (\<lambda>m. m_organization_id m = org \<and> m_user_id m = user)
      (\<lambda>m. m\<lparr>m_role := role_as_str role\<rparr>) (organization_members d)"
  let ?Q = "\<lambda>m. m_organization_id m = o' \<and> m_user_id m = u"
  have ms: "organization_members d' = ?ms" using assms Some by (auto simp: put_member_def)
  show ?thesis
  proof (cases "o' = org \<and> u = user")
    case True
    then have "find ?Q ?ms = map_option (\<lambda>m. m\<lparr>m_role := role_as_str role\<rparr>) (find ?Q (organization_members d))"
      by (intro find_upd_where_same) auto
    with True Some ms show ?thesis by (simp add: roles_def member_row_def)
  next
    case False
    then have "find ?Q ?ms = find ?Q (organization_members d)" by (intro find_upd_where_other) auto
    with ms show ?thesis unfolding if_not_P [OF False] by (simp add: roles_def member_row_def)
  qed
qed

lemma roles_delete:
  "roles o' (d\<lparr>organization_members :=
       del_where (\<lambda>m. m_organization_id m = org \<and> m_user_id m = user) (organization_members d)\<rparr>) u =
     (if o' = org \<and> u = user then None else roles o' d u)"
proof -
  let ?Q = "\<lambda>m. m_organization_id m = o' \<and> m_user_id m = u"
  let ?P = "\<lambda>m. m_organization_id m = org \<and> m_user_id m = user"
  show ?thesis
  proof (cases "o' = org \<and> u = user")
    case True
    then have "find ?Q (del_where ?P (organization_members d)) = None"
      by (auto simp: find_None_iff_all)
    with True show ?thesis by (simp add: roles_def member_row_def)
  next
    case False
    then have "find ?Q (del_where ?P (organization_members d)) = find ?Q (organization_members d)"
      by (intro find_del_where_other) auto
    then show ?thesis unfolding if_not_P [OF False] by (simp add: roles_def member_row_def)
  qed
qed

lemma roles_cong: "organization_members d' = organization_members d \<Longrightarrow> roles org d' = roles org d"
  by (simp add: roles_def [abs_def] member_row_def)

text \<open>An audit entry is one appended row and leaves the other tables alone.\<close>

lemma write_audit_frame:
  assumes "write_audit p context org action ty i metadata d = Inr (x, d')"
  shows "\<exists>row. d' = d\<lparr>next_id := Suc (next_id d), audit_logs := audit_logs d @ [row]\<rparr> \<and>
    al_action row = action \<and> al_actor_user_id row = Some (p_user_id p) \<and> al_organization_id row = org \<and>
    al_entity_id row = i"
  using assms by (auto simp: write_audit_def write_actor_def split: if_splits)

lemma write_audit_ok:
  assumes "the org \<in> set (map o_id (organizations d))" and "p = session_principal actor"
    and "actor \<in> set (map u_id (users d))"
  shows "\<exists>d'. write_audit p context org action ty i metadata d = Inr ((), d')"
  using assms by (auto simp: write_audit_def write_actor_def session_principal_def ref_ok_def split: option.splits)

subsection \<open>Counting owners\<close>

lemma member_row_unique:
  assumes "members_inv d" and "m \<in> set (organization_members d)"
  shows "member_row (m_organization_id m) (m_user_id m) d = Some m"
  unfolding member_row_def using assms
  by (intro find_unique_hash [where key = member_key]) (auto simp: members_inv_def member_key_def)

lemma roles_Some_iff:
  assumes "members_inv d"
  shows "roles org d user = Some role \<longleftrightarrow>
    (\<exists>m\<in>set (organization_members d). m_organization_id m = org \<and> m_user_id m = user \<and> m_role m = role_as_str role)"
proof
  assume "roles org d user = Some role"
  then obtain m where "member_row org user d = Some m" "parse_role (m_role m) = Some role"
    by (auto simp: roles_def bind_eq_Some_conv)
  then show "\<exists>m\<in>set (organization_members d). m_organization_id m = org \<and> m_user_id m = user \<and> m_role m = role_as_str role"
    by (auto simp: member_row_def parse_role_Some dest!: find_SomeD)
next
  assume "\<exists>m\<in>set (organization_members d). m_organization_id m = org \<and> m_user_id m = user \<and> m_role m = role_as_str role"
  then show "roles org d user = Some role"
    using member_row_unique [OF assms] by (auto simp: roles_def)
qed

lemma another_owner_iff:
  assumes inv: "members_inv d" and owner: "roles org d user = Some Owner"
  shows "ensure_another_owner org d = Inr () \<longleftrightarrow> keeps_owner (roles org d) user"
proof -
  let ?ms = "filter (\<lambda>m. m_organization_id m = org \<and> m_role m = ''owner'') (organization_members d)"
  let ?O = "{u. roles org d u = Some Owner}"
  have "roles org d u = Some Owner \<longleftrightarrow> u \<in> m_user_id ` set ?ms" for u
    unfolding roles_Some_iff [OF inv] by auto
  then have O: "?O = m_user_id ` set ?ms" by blast
  have "distinct (map member_key ?ms)"
    using inv by (simp add: members_inv_def distinct_map_filter)
  moreover have "map member_key ?ms = map (Pair org) (map m_user_id ?ms)"
    by (simp add: member_key_def)
  ultimately have "distinct (map m_user_id ?ms)" by (simp only: distinct_map)
  then have len: "length ?ms = card ?O"
    unfolding O using distinct_card [of "map m_user_id ?ms"] by simp
  have fin: "finite ?O" unfolding O by simp
  have "1 < card ?O \<longleftrightarrow> (\<exists>u. u \<noteq> user \<and> roles org d u = Some Owner)"
  proof
    assume "1 < card ?O"
    then have "?O \<noteq> {user}" by auto
    with owner show "\<exists>u. u \<noteq> user \<and> roles org d u = Some Owner" by auto
  next
    assume "\<exists>u. u \<noteq> user \<and> roles org d u = Some Owner"
    then obtain u where "u \<noteq> user" "{user, u} \<subseteq> ?O" using owner by blast
    then show "1 < card ?O" using card_mono [OF fin, of "{user, u}"] by simp
  qed
  then show ?thesis
    unfolding ensure_another_owner_def keeps_owner_def len by auto
qed

lemma transaction_role_iff:
  "require_transaction_role org actor Admin d = Inr role \<longleftrightarrow> roles org d actor = Some role \<and> Admin \<le> role"
  by (auto simp: require_transaction_role_def roles_def less_eq_OrganizationRole_def not_less split: option.splits if_splits)

lemma manages_iff: "manages r actor \<longleftrightarrow> (\<exists>role. r actor = Some role \<and> Admin \<le> role)"
  unfolding manages_def using below_admin by (metis OrganizationRole.exhaust order_refl owner_top option.inject)

lemma require_session_principal [simp]: "require_session (session_principal u) = Inr ()"
  by (simp add: require_session_def session_principal_def)

lemma p_user_id_session [simp]: "p_user_id (session_principal u) = u"
  by (simp add: session_principal_def)

lemma is_team_known: "is_team org d \<Longrightarrow> org \<in> set (map o_id (organizations d))"
  by (auto simp: is_team_def lock_team_organization_def split: option.splits dest!: find_SomeD)

section \<open>The handlers implement the policy\<close>

lemma may_handle_iff:
  "r actor = Some actor_role \<Longrightarrow> Admin \<le> actor_role \<Longrightarrow>
     may_handle r actor role \<longleftrightarrow> \<not> (level Admin \<le> level role \<and> actor_role \<noteq> Owner)"
  by (auto simp: may_handle_def manages_iff less_eq_OrganizationRole_def)

lemma may_handleD: "may_handle r actor role \<Longrightarrow> \<exists>actor_role. r actor = Some actor_role \<and> Admin \<le> actor_role"
  by (simp add: may_handle_def manages_iff)

lemma owner_text: "parse_role s = Some Owner \<longleftrightarrow> s = ''owner''"
  by (simp add: parse_role_Some)

lemma member_role_owner: "map_option m_role (member_row org user d) = Some ''owner'' \<longleftrightarrow> roles org d user = Some Owner"
  by (auto simp: roles_def bind_eq_Some_conv parse_role_Some)

text \<open>The guard of \<open>add_member\<close>, in terms of the role map.\<close>

definition add_guard :: "ext \<Rightarrow> uuid \<Rightarrow> uuid \<Rightarrow> AddMember \<Rightarrow> db \<Rightarrow> OrganizationRole \<Rightarrow> user \<Rightarrow> bool" where
  "add_guard E actor org request d role user \<longleftrightarrow>
     is_team org d \<and> parse_role (am_role request) = Some role \<and>
     find_active_email E (trim (am_email request)) d = Some user \<and>
     may_set (roles org d) actor (u_id user) role"

lemma owner_check_iff:
  assumes "members_inv d"
  shows "(if map_option m_role (member_row org user d) = Some ''owner'' \<and> role \<noteq> Owner
          then ensure_another_owner org d else Inr ()) = Inr () \<longleftrightarrow>
     (roles org d user = Some Owner \<and> role \<noteq> Owner \<longrightarrow> keeps_owner (roles org d) user)"
  using another_owner_iff [OF assms, of org user] unfolding member_role_owner by auto

lemma add_member_tx_iff:
  assumes inv: "members_inv d"
  shows "add_member_tx E now p context org request d = Inr (x, d2) \<longleftrightarrow>
    (\<exists>role user mid created d1.
       add_guard E (p_user_id p) org request d role user \<and>
       put_member now org (u_id user) role (p_user_id p) d = Inr ((mid, created), d1) \<and>
       write_audit p context (Some org)
         (if member_row org (u_id user) d \<noteq> None then ''organization_membership.role_changed''
          else ''organization_membership.added'')
         (Some ''organization_membership'') (Some mid)
         (JObj [(''previous_role'', j_option JStr (map_option m_role (member_row org (u_id user) d))),
                (''role'', JStr (role_as_str role))]) d1 = Inr ((), d2) \<and>
       x = (if member_row org (u_id user) d \<noteq> None then 200 else 201,
            \<lparr>mr_user_id = u_id user, mr_email = u_email user, mr_name = u_name user,
             mr_avatar_url = u_avatar_url user, mr_role = role_as_str role, mr_created_at = created\<rparr>))"
    (is "_ \<longleftrightarrow> (\<exists>role user mid created d1. ?G role user \<and> ?put role user mid created d1 \<and> ?audit role user mid d1 \<and> ?x role user created)")
proof
  assume run: "add_member_tx E now p context org request d = Inr (x, d2)"
  then obtain actor_role role user mid created d1 where
    team: "lock_team_organization org d = Inr ()" and
    actor: "require_transaction_role org (p_user_id p) Admin d = Inr actor_role" and
    role: "parse_role (am_role request) = Some role" and
    ok: "\<not> (level Admin \<le> level role \<and> actor_role \<noteq> Owner)" and
    user: "find_active_email E (trim (am_email request)) d = Some user" and
    another: "(if map_option m_role (member_row org (u_id user) d) = Some ''owner'' \<and> role \<noteq> Owner
       then ensure_another_owner org d else Inr ()) = Inr ()" and
    rest: "?put role user mid created d1" "?audit role user mid d1" "?x role user created"
    unfolding add_member_tx_def Let_def error_simps by (auto simp: error_simps split: prod.splits)
  have "may_handle (roles org d) (p_user_id p) role"
    using actor ok may_handle_iff [of "roles org d"] by (simp add: transaction_role_iff)
  with another have "may_set (roles org d) (p_user_id p) (u_id user) role"
    unfolding owner_check_iff [OF inv] by (simp add: may_set_def)
  with team role user have "?G role user" by (simp add: add_guard_def is_team_def)
  with rest show "\<exists>role user mid created d1. ?G role user \<and> ?put role user mid created d1 \<and> ?audit role user mid d1 \<and> ?x role user created"
    by blast
next
  assume "\<exists>role user mid created d1. ?G role user \<and> ?put role user mid created d1 \<and> ?audit role user mid d1 \<and> ?x role user created"
  then obtain role user mid created d1 where G: "?G role user" and rest: "?put role user mid created d1" "?audit role user mid d1" "?x role user created"
    by blast
  from G have set: "may_set (roles org d) (p_user_id p) (u_id user) role" by (simp add: add_guard_def)
  then have handle: "may_handle (roles org d) (p_user_id p) role" by (simp add: may_set_def)
  then obtain actor_role where actor: "require_transaction_role org (p_user_id p) Admin d = Inr actor_role"
    and "\<not> (level Admin \<le> level role \<and> actor_role \<noteq> Owner)"
    using may_handleD may_handle_iff transaction_role_iff by metis
  moreover have "(if map_option m_role (member_row org (u_id user) d) = Some ''owner'' \<and> role \<noteq> Owner
       then ensure_another_owner org d else Inr ()) = Inr ()"
    unfolding owner_check_iff [OF inv] using set by (simp add: may_set_def)
  ultimately show "add_member_tx E now p context org request d = Inr (x, d2)"
    using G rest by (simp add: add_member_tx_def add_guard_def is_team_def Let_def)
qed

lemma put_member_total:
  assumes "actor \<in> set (map u_id (users d))"
  shows "\<exists>mid created d1. put_member now org user role actor d = Inr ((mid, created), d1) \<and>
    organizations d1 = organizations d \<and> users d1 = users d \<and> audit_logs d1 = audit_logs d"
  using assms by (cases "member_row org user d") (auto simp: put_member_def)

lemma put_member_frame:
  "put_member now org user role actor d = Inr (x, d1) \<Longrightarrow>
     audit_logs d1 = audit_logs d \<and> organizations d1 = organizations d \<and> users d1 = users d \<and> next_id d1 = Suc (next_id d)"
  by (auto simp: put_member_def split: option.splits if_splits)

lemma member_row_None_iff: "members_inv d \<Longrightarrow> member_row org user d = None \<longleftrightarrow> roles org d user = None"
  by (cases "member_row org user d") (auto simp: roles_def members_inv_def member_row_def dest!: find_SomeD)

lemma add_member_run:
  "add_member E now p context org request d = (Inr x, d') \<longleftrightarrow>
     require_session p = Inr () \<and> add_member_tx E now p context org request d = Inr (x, d')"
  by (auto simp: add_member_def transact_def split: sum.splits prod.splits)

lemma add_member_succeeds_iff:
  assumes inv: "members_inv d" and actor: "actor \<in> set (map u_id (users d))"
  shows "(\<exists>x d'. add_member E now (session_principal actor) context org request d = (Inr x, d')) \<longleftrightarrow>
       (\<exists>role user. add_guard E actor org request d role user)"
proof
  let ?p = "session_principal actor"
  assume "\<exists>role user. add_guard E actor org request d role user"
  then obtain role user where G: "add_guard E actor org request d role user" by blast
  obtain mid created d1 where put: "put_member now org (u_id user) role actor d = Inr ((mid, created), d1)"
    and frame: "organizations d1 = organizations d" "users d1 = users d"
    using put_member_total [OF actor] by blast
  have "org \<in> set (map o_id (organizations d1))"
    using G is_team_known frame(1) by (simp add: add_guard_def)
  then have "\<exists>d2. write_audit ?p context (Some org) a t i m d1 = Inr ((), d2)" for a t i m
    using actor frame(2) by (intro write_audit_ok) auto
  with G put show "\<exists>x d'. add_member E now ?p context org request d = (Inr x, d')"
    unfolding add_member_run add_member_tx_iff [OF inv] p_user_id_session require_session_principal by metis
qed (auto simp: add_member_run add_member_tx_iff [OF inv])

lemma add_member_effect:
  assumes inv: "members_inv d"
    and run: "add_member E now p context org request d = (Inr (status, resp), d')"
  shows "\<exists>role. add_guard E (p_user_id p) org request d role (the (find_active_email E (trim (am_email request)) d)) \<and>
      roles org d' = (roles org d)(mr_user_id resp \<mapsto> role) \<and>
      (\<forall>o'. o' \<noteq> org \<longrightarrow> roles o' d' = roles o' d) \<and>
      status = (if roles org d (mr_user_id resp) = None then 201 else 200) \<and>
      (\<exists>row. audit_logs d' = audit_logs d @ [row] \<and> al_actor_user_id row = Some (p_user_id p) \<and> al_organization_id row = Some org)"
proof -
  obtain role user mid created d1 a t i m where G: "add_guard E (p_user_id p) org request d role user"
    and put: "put_member now org (u_id user) role (p_user_id p) d = Inr ((mid, created), d1)"
    and audit: "write_audit p context (Some org) a t i m d1 = Inr ((), d')"
    and st: "status = (if member_row org (u_id user) d \<noteq> None then 200 else 201)" "mr_user_id resp = u_id user"
    using run unfolding add_member_run add_member_tx_iff [OF inv] by auto
  obtain row where d': "d' = d1\<lparr>next_id := Suc (next_id d1), audit_logs := audit_logs d1 @ [row]\<rparr>"
    and row: "al_actor_user_id row = Some (p_user_id p)" "al_organization_id row = Some org"
    using write_audit_frame [OF audit] by auto
  have "roles o' d' = roles o' d1" for o' by (rule roles_cong) (simp add: d')
  then have roles: "roles o' d' u = (if o' = org \<and> u = u_id user then Some role else roles o' d u)" for o' u
    using roles_put [OF put] by simp
  then have "roles org d' = (roles org d)(mr_user_id resp \<mapsto> role)" "\<forall>o'. o' \<noteq> org \<longrightarrow> roles o' d' = roles o' d"
    by (auto simp: fun_eq_iff st)
  moreover have "audit_logs d' = audit_logs d @ [row]" using d' put_member_frame [OF put] by simp
  moreover have "user = the (find_active_email E (trim (am_email request)) d)" using G by (simp add: add_guard_def)
  ultimately show ?thesis
    using G row st member_row_None_iff [OF inv, of org "u_id user"] by auto
qed

text \<open>The same for \<open>remove_member\<close>.\<close>

lemma remove_member_run:
  "remove_member p context org user d = (Inr x, d') \<longleftrightarrow>
     require_session p = Inr () \<and> remove_member_tx p context org user d = Inr (x, d')"
  by (auto simp: remove_member_def transact_def split: sum.splits prod.splits)

lemma remove_member_tx_iff:
  assumes inv: "members_inv d"
  shows "remove_member_tx p context org user d = Inr (x, d2) \<longleftrightarrow>
    is_team org d \<and> may_remove (roles org d) (p_user_id p) user \<and> x = 204 \<and>
    (\<exists>target role. member_row org user d = Some target \<and> parse_role (m_role target) = Some role \<and>
       write_audit p context (Some org) ''organization_membership.removed''
         (Some ''organization_membership'') (Some (m_id target)) (JObj [(''role'', JStr (role_as_str role))])
         (d\<lparr>organization_members :=
             del_where (\<lambda>m. m_organization_id m = org \<and> m_user_id m = user) (organization_members d)\<rparr>) = Inr ((), d2))"
    (is "_ = (?T \<and> ?M \<and> _ \<and> (\<exists>target role. ?row target \<and> ?role target role \<and> ?audit target role))")
proof -
  have owner: "roles org d user = Some role \<Longrightarrow>
      (if role = Owner then ensure_another_owner org d else Inr ()) = Inr () \<longleftrightarrow>
      (role = Owner \<longrightarrow> keeps_owner (roles org d) user)" for role
    using another_owner_iff [OF inv, of org user] by auto
  have actor: "(\<exists>a. require_transaction_role org (p_user_id p) Admin d = Inr a \<and>
      \<not> (level Admin \<le> level role \<and> a \<noteq> Owner)) \<longleftrightarrow> may_handle (roles org d) (p_user_id p) role" for role
    unfolding transaction_role_iff using may_handle_iff [of "roles org d" "p_user_id p"] may_handleD by blast
  have roles: "?row target \<Longrightarrow> ?role target role \<Longrightarrow> roles org d user = Some role" for target role
    by (simp add: roles_def)
  have "remove_member_tx p context org user d = Inr (x, d2) \<longleftrightarrow>
      ?T \<and> x = 204 \<and> (\<exists>target role. ?row target \<and> ?role target role \<and>
        (\<exists>a. require_transaction_role org (p_user_id p) Admin d = Inr a \<and> \<not> (level Admin \<le> level role \<and> a \<noteq> Owner)) \<and>
        (if role = Owner then ensure_another_owner org d else Inr ()) = Inr () \<and> ?audit target role)"
    unfolding remove_member_tx_def error_simps is_team_def by (auto simp: error_simps split: prod.splits)
  also have "\<dots> \<longleftrightarrow> ?T \<and> ?M \<and> x = 204 \<and> (\<exists>target role. ?row target \<and> ?role target role \<and> ?audit target role)"
  proof -
    have "?M \<longleftrightarrow> may_handle (roles org d) (p_user_id p) role \<and>
        (if role = Owner then ensure_another_owner org d else Inr ()) = Inr ()"
      if "?row target" "?role target role" for target role
      using roles [OF that] owner [OF roles [OF that]] by (auto simp: may_remove_def)
    then show ?thesis unfolding actor by blast
  qed
  finally show ?thesis .
qed

lemma remove_member_succeeds_iff:
  assumes inv: "members_inv d" and actor: "actor \<in> set (map u_id (users d))"
  shows "(\<exists>x d'. remove_member (session_principal actor) context org user d = (Inr x, d')) \<longleftrightarrow>
     is_team org d \<and> may_remove (roles org d) actor user"
proof
  assume ok: "is_team org d \<and> may_remove (roles org d) actor user"
  then obtain target role where "member_row org user d = Some target" "parse_role (m_role target) = Some role"
    by (auto simp: may_remove_def roles_def bind_eq_Some_conv)
  moreover have "\<exists>d2. write_audit (session_principal actor) context (Some org) a t i m
      (d\<lparr>organization_members := ms\<rparr>) = Inr ((), d2)" for a t i m ms
    using ok actor is_team_known by (intro write_audit_ok) auto
  ultimately show "\<exists>x d'. remove_member (session_principal actor) context org user d = (Inr x, d')"
    using ok unfolding remove_member_run remove_member_tx_iff [OF inv] p_user_id_session require_session_principal by metis
qed (auto simp: remove_member_run remove_member_tx_iff [OF inv])

lemma remove_member_effect:
  assumes inv: "members_inv d" and run: "remove_member p context org user d = (Inr status, d')"
  shows "status = 204 \<and> roles org d' = (roles org d)(user := None) \<and> (\<forall>o'. o' \<noteq> org \<longrightarrow> roles o' d' = roles o' d) \<and>
    may_remove (roles org d) (p_user_id p) user \<and>
    (\<exists>row. audit_logs d' = audit_logs d @ [row] \<and> al_actor_user_id row = Some (p_user_id p) \<and> al_organization_id row = Some org)"
proof -
  let ?d = "d\<lparr>organization_members := del_where (\<lambda>m. m_organization_id m = org \<and> m_user_id m = user) (organization_members d)\<rparr>"
  obtain a t i m where st: "status = 204" "may_remove (roles org d) (p_user_id p) user"
    and audit: "write_audit p context (Some org) a t i m ?d = Inr ((), d')"
    using run unfolding remove_member_run remove_member_tx_iff [OF inv] by auto
  obtain row where d': "d' = ?d\<lparr>next_id := Suc (next_id ?d), audit_logs := audit_logs ?d @ [row]\<rparr>"
    and row: "al_actor_user_id row = Some (p_user_id p)" "al_organization_id row = Some org"
    using write_audit_frame [OF audit] by auto
  have "roles o' d' = roles o' ?d" for o' by (rule roles_cong) (simp add: d')
  then have "roles o' d' u = (if o' = org \<and> u = user then None else roles o' d u)" for o' u
    by (simp add: roles_delete)
  then have "roles org d' = (roles org d)(user := None)" "\<forall>o'. o' \<noteq> org \<longrightarrow> roles o' d' = roles o' d"
    by (auto simp: fun_eq_iff)
  with st row d' show ?thesis by auto
qed

text \<open>
  C16. Adding or re-roling a member implements the access policy. For a signed-in user the
  request succeeds if and only if the workspace is a live team, the role is one of the four,
  an active user has the email, and the policy lets the actor give that user that role;
  success changes exactly that user's entry of the role map of exactly that workspace, answers
  201 for a new member and 200 for a changed one, and writes one audit row naming the actor.
  A refusal changes nothing.
\<close>

theorem add_member_implements_policy:
  assumes inv: "members_inv d" and actor: "actor \<in> set (map u_id (users d))"
  shows "((\<exists>x d'. add_member E now (session_principal actor) context org request d = (Inr x, d')) \<longleftrightarrow>
       (\<exists>role user. add_guard E actor org request d role user)) \<and>
    (add_member E now (session_principal actor) context org request d = (Inr (status, resp), d') \<longrightarrow>
       (\<exists>role. am_role request = role_as_str role \<and>
          roles org d' = (roles org d)(mr_user_id resp \<mapsto> role) \<and>
          (\<forall>o'. o' \<noteq> org \<longrightarrow> roles o' d' = roles o' d) \<and>
          status = (if roles org d (mr_user_id resp) = None then 201 else 200) \<and>
          (\<exists>row. audit_logs d' = audit_logs d @ [row] \<and> al_actor_user_id row = Some actor \<and>
             al_organization_id row = Some org))) \<and>
    (add_member E now (session_principal actor) context org request d = (Inl e, d') \<longrightarrow> d' = d)"
proof (intro conjI impI)
  show "add_member E now (session_principal actor) context org request d = (Inl e, d') \<Longrightarrow> d' = d"
    by (auto simp: add_member_def dest: transact_error)
  show "(\<exists>x d'. add_member E now (session_principal actor) context org request d = (Inr x, d')) \<longleftrightarrow>
       (\<exists>role user. add_guard E actor org request d role user)"
    by (rule add_member_succeeds_iff [OF assms])
qed (auto simp: add_guard_def parse_role_Some dest!: add_member_effect [OF inv])

text \<open>
  C17. Removing a member implements the access policy: it succeeds for a signed-in user if
  and only if the workspace is a live team and the policy lets the actor remove that member;
  success erases exactly that entry of the role map, answers 204 and writes one audit row;
  a refusal changes nothing.
\<close>

theorem remove_member_implements_policy:
  assumes inv: "members_inv d" and actor: "actor \<in> set (map u_id (users d))"
  shows "((\<exists>x d'. remove_member (session_principal actor) context org user d = (Inr x, d')) \<longleftrightarrow>
       is_team org d \<and> may_remove (roles org d) actor user) \<and>
    (remove_member (session_principal actor) context org user d = (Inr status, d') \<longrightarrow>
       status = 204 \<and> roles org d' = (roles org d)(user := None) \<and>
       (\<forall>o'. o' \<noteq> org \<longrightarrow> roles o' d' = roles o' d) \<and>
       (\<exists>row. audit_logs d' = audit_logs d @ [row] \<and> al_actor_user_id row = Some actor \<and>
          al_organization_id row = Some org)) \<and>
    (remove_member (session_principal actor) context org user d = (Inl e, d') \<longrightarrow> d' = d)"
proof (intro conjI impI)
  show "remove_member (session_principal actor) context org user d = (Inl e, d') \<Longrightarrow> d' = d"
    by (auto simp: remove_member_def dest: transact_error)
  show "(\<exists>x d'. remove_member (session_principal actor) context org user d = (Inr x, d')) \<longleftrightarrow>
       is_team org d \<and> may_remove (roles org d) actor user"
    by (rule remove_member_succeeds_iff [OF assms])
qed (auto dest!: remove_member_effect [OF inv])

section \<open>Every team keeps an owner\<close>

definition owned :: "db \<Rightarrow> bool" where
  "owned d \<longleftrightarrow> (\<forall>x\<in>set (organizations d). o_kind x = Team \<longrightarrow> (\<exists>u. roles (o_id x) d u = Some Owner))"

definition org_inv :: "db \<Rightarrow> bool" where
  "org_inv d \<longleftrightarrow> members_inv d \<and> owned d"

text \<open>
  The steps that touch workspaces and memberships, with every outcome, and the steps of the
  rest of the program, which leave kinds and memberships alone.
\<close>

inductive org_step :: "db \<Rightarrow> db \<Rightarrow> bool" where
  created: "create_organization E now p context creq d = (res, d') \<Longrightarrow> org_step d d'"
| added: "add_member E now p context org areq d = (res', d') \<Longrightarrow> org_step d d'"
| removed: "remove_member p context org user d = (res'', d') \<Longrightarrow> org_step d d'"
| elsewhere: "organization_members d' = organization_members d \<Longrightarrow>
    map (\<lambda>x. (o_id x, o_kind x)) (organizations d') = map (\<lambda>x. (o_id x, o_kind x)) (organizations d) \<Longrightarrow>
    next_id d \<le> next_id d' \<Longrightarrow> org_step d d'"

lemma members_inv_frame:
  assumes "members_inv d" and "organization_members d' = organization_members d"
    and "map o_id (organizations d') = map o_id (organizations d)" and "next_id d \<le> next_id d'"
  shows "members_inv d'"
proof -
  have "o_id x < next_id d'" if "x \<in> set (organizations d')" for x
  proof -
    have "o_id x \<in> set (map o_id (organizations d))" using that unfolding assms(3) [symmetric] by auto
    with assms(1,4) show ?thesis by (fastforce simp: members_inv_def)
  qed
  with assms show ?thesis by (fastforce simp: members_inv_def)
qed

lemma put_member_inv:
  assumes inv: "members_inv d" and run: "put_member now org user role actor d = Inr (x, d1)" and "org < next_id d"
  shows "members_inv d1"
proof (cases "member_row org user d")
  case None
  then have "(org, user) \<notin> member_key ` set (organization_members d)"
    by (auto simp: member_row_def find_None_iff_all member_key_def)
  with None assms show ?thesis
    by (fastforce simp: put_member_def members_inv_def member_key_def split: if_splits)
next
  case (Some m)
  let ?ms = "upd_where (\<lambda>m. m_organization_id m = org \<and> m_user_id m = user) (\<lambda>m. m\<lparr>m_role := role_as_str role\<rparr>) (organization_members d)"
  have d1: "d1 = d\<lparr>next_id := Suc (next_id d), organization_members := ?ms\<rparr>" using Some run by (auto simp: put_member_def)
  have "map member_key ?ms = map member_key (organization_members d)" by (rule map_upd_where) (simp add: member_key_def)
  with inv show ?thesis by (auto simp: d1 members_inv_def set_upd_where less_Suc_eq)
qed

lemma write_audit_inv:
  assumes "members_inv d" and "write_audit p context org action ty i metadata d = Inr (x, d')"
  shows "members_inv d'"
proof -
  obtain row where "d' = d\<lparr>next_id := Suc (next_id d), audit_logs := audit_logs d @ [row]\<rparr>"
    using write_audit_frame [OF assms(2)] by blast
  then show ?thesis by (intro members_inv_frame [OF assms(1)]) auto
qed

lemma is_team_bound: "members_inv d \<Longrightarrow> is_team org d \<Longrightarrow> org < next_id d"
  by (auto simp: members_inv_def dest!: is_team_known)

lemma add_member_inv:
  assumes inv: "members_inv d" and run: "add_member E now p context org request d = (Inr x, d')"
  shows "members_inv d' \<and> map (\<lambda>x. (o_id x, o_kind x)) (organizations d') = map (\<lambda>x. (o_id x, o_kind x)) (organizations d)"
proof -
  obtain role user mid created d1 a t i m where G: "add_guard E (p_user_id p) org request d role user"
    and put: "put_member now org (u_id user) role (p_user_id p) d = Inr ((mid, created), d1)"
    and audit: "write_audit p context (Some org) a t i m d1 = Inr ((), d')"
    using run unfolding add_member_run add_member_tx_iff [OF inv] by auto
  have "members_inv d1" using G is_team_bound [OF inv] by (intro put_member_inv [OF inv put]) (simp add: add_guard_def)
  from write_audit_inv [OF this audit] write_audit_frame [OF audit] put_member_frame [OF put] show ?thesis by auto
qed

lemma remove_member_inv:
  assumes inv: "members_inv d" and run: "remove_member p context org user d = (Inr x, d')"
  shows "members_inv d' \<and> map (\<lambda>x. (o_id x, o_kind x)) (organizations d') = map (\<lambda>x. (o_id x, o_kind x)) (organizations d)"
proof -
  let ?d = "d\<lparr>organization_members := del_where (\<lambda>m. m_organization_id m = org \<and> m_user_id m = user) (organization_members d)\<rparr>"
  obtain a t i m where audit: "write_audit p context (Some org) a t i m ?d = Inr ((), d')"
    using run unfolding remove_member_run remove_member_tx_iff [OF inv] by auto
  have "members_inv ?d" using inv by (auto simp: members_inv_def distinct_del_where)
  from write_audit_inv [OF this audit] write_audit_frame [OF audit] show ?thesis by auto
qed

lemma create_organization_run:
  assumes "create_organization E now p context request d = (Inr x, d')"
  shows "\<exists>slug d1 row. insert_team E now p slug (trim (co_name request)) d = Inr (next_id d, d1) \<and> valid_slug slug \<and>
    d' = d1\<lparr>next_id := Suc (next_id d1), audit_logs := audit_logs d1 @ [row]\<rparr> \<and>
    al_actor_user_id row = Some (p_user_id p) \<and> snd x = \<lparr>or_id = next_id d, or_slug = slug,
      or_name = trim (co_name request), or_kind = ''team'', or_role = ''owner'', or_created_at = now\<rparr>"
proof -
  obtain slug org d1 a where slug: "valid_slug slug"
    and ins: "insert_team E now p slug (trim (co_name request)) d = Inr (org, d1)"
    and audit: "write_audit p context (Some org) ''organization.created'' (Some ''organization'') (Some org) a d1 = Inr ((), d')"
    and x: "snd x = \<lparr>or_id = org, or_slug = slug, or_name = trim (co_name request), or_kind = ''team'', or_role = ''owner'', or_created_at = now\<rparr>"
    using assms unfolding create_organization_def Let_def
    by (auto simp: transact_def validate_slug_def split: sum.splits prod.splits if_splits option.splits)
  moreover have "org = next_id d" using ins by (auto simp: insert_team_def split: if_splits)
  ultimately show ?thesis using write_audit_frame [OF audit] by auto
qed

lemma insert_team_roles:
  assumes inv: "members_inv d" and run: "insert_team E now p slug name d = Inr (org, d1)"
  shows "roles o' d1 = (if o' = org then [p_user_id p \<mapsto> Owner] else roles o' d)"
proof -
  have fresh: "member_row (next_id d) u d = None" for u
    using inv by (fastforce simp: member_row_def find_None_iff_all members_inv_def)
  have org: "org = next_id d" using run by (auto simp: insert_team_def split: if_splits)
  show ?thesis
    using run fresh
    by (auto simp: fun_eq_iff org insert_team_def roles_def member_row_def find_append parse_role_def
        split: if_splits option.splits)
qed

lemma insert_team_inv:
  assumes inv: "members_inv d" and run: "insert_team E now p slug name d = Inr (org, d1)"
  shows "members_inv d1"
proof -
  have "(next_id d, p_user_id p) \<notin> member_key ` set (organization_members d)"
    using inv by (fastforce simp: members_inv_def member_key_def)
  with inv run show ?thesis
    by (fastforce simp: insert_team_def members_inv_def member_key_def parse_role_def split: if_splits)
qed

lemma owned_frame:
  assumes "owned d" and "map (\<lambda>x. (o_id x, o_kind x)) (organizations d') = map (\<lambda>x. (o_id x, o_kind x)) (organizations d)"
    and "\<And>org. (\<exists>u. roles org d u = Some Owner) \<Longrightarrow> \<exists>u. roles org d' u = Some Owner"
  shows "owned d'"
  unfolding owned_def
proof (intro ballI impI)
  fix x assume x: "x \<in> set (organizations d')" "o_kind x = Team"
  then have "(o_id x, Team) \<in> set (map (\<lambda>x. (o_id x, o_kind x)) (organizations d))"
    unfolding assms(2) [symmetric] by force
  then obtain y where "y \<in> set (organizations d)" "o_id y = o_id x" "o_kind y = Team" by auto
  with assms(1) have "\<exists>u. roles (o_id x) d u = Some Owner" by (metis owned_def)
  then show "\<exists>u. roles (o_id x) d' u = Some Owner" by (rule assms(3))
qed

lemma create_keeps:
  assumes "org_inv d" and "create_organization E now p context request d = (res, d')"
  shows "org_inv d'"
proof (cases res)
  case (Inl e)
  with assms have "d' = d"
    by (auto simp: create_organization_def Let_def dest: transact_error split: sum.splits if_splits)
  with assms show ?thesis by simp
next
  case (Inr x)
  then obtain slug d1 row where ins: "insert_team E now p slug (trim (co_name request)) d = Inr (next_id d, d1)"
    and d': "d' = d1\<lparr>next_id := Suc (next_id d1), audit_logs := audit_logs d1 @ [row]\<rparr>"
    using assms(2) create_organization_run by blast
  have inv: "members_inv d" using assms(1) by (simp add: org_inv_def)
  have "members_inv d'" unfolding d' by (rule members_inv_frame [OF insert_team_inv [OF inv ins]]) auto
  moreover have "roles o' d' = roles o' d1" for o' by (rule roles_cong) (simp add: d')
  then have "roles o' d' = (if o' = next_id d then [p_user_id p \<mapsto> Owner] else roles o' d)" for o'
    by (simp add: insert_team_roles [OF inv ins])
  moreover have "set (organizations d') \<subseteq> insert (last (organizations d')) (set (organizations d)) \<and> o_id (last (organizations d')) = next_id d"
    using ins by (auto simp: d' insert_team_def split: if_splits)
  ultimately show ?thesis
    using assms(1) by (auto simp: org_inv_def owned_def subset_iff)
qed

lemma add_keeps:
  assumes "org_inv d" and "add_member E now p context org request d = (res, d')"
  shows "org_inv d'"
proof (cases res)
  case (Inl e)
  with assms show ?thesis by (auto simp: add_member_def dest: transact_error split: sum.splits)
next
  case (Inr x)
  obtain status resp where x: "x = (status, resp)" by (cases x)
  have inv: "members_inv d" using assms(1) by (simp add: org_inv_def)
  have run: "add_member E now p context org request d = (Inr (status, resp), d')" using assms(2) Inr x by simp
  obtain role where G: "add_guard E (p_user_id p) org request d role (the (find_active_email E (trim (am_email request)) d))"
    and r: "roles org d' = (roles org d)(mr_user_id resp \<mapsto> role)" "\<And>o'. o' \<noteq> org \<Longrightarrow> roles o' d' = roles o' d"
    and u: "mr_user_id resp = u_id (the (find_active_email E (trim (am_email request)) d))"
    using add_member_effect [OF inv run] run
    unfolding add_member_run add_member_tx_iff [OF inv] by (auto simp: add_guard_def)
  have "\<exists>u. roles o' d' u = Some Owner" if "\<exists>u. roles o' d u = Some Owner" for o'
  proof (cases "o' = org")
    case True
    have set: "may_set (roles org d) (p_user_id p) (mr_user_id resp) role" using G u by (simp add: add_guard_def)
    from that obtain v where v: "roles org d v = Some Owner" using True by blast
    show ?thesis
    proof (cases "v = mr_user_id resp \<and> role \<noteq> Owner")
      case True
      with set v obtain w where "w \<noteq> mr_user_id resp" "roles org d w = Some Owner" by (auto simp: may_set_def keeps_owner_def)
      with \<open>o' = org\<close> r(1) show ?thesis by (intro exI [of _ w]) simp
    next
      case False
      with v \<open>o' = org\<close> r(1) show ?thesis by (intro exI [of _ v]) auto
    qed
  qed (use that r(2) in auto)
  with assms(1) add_member_inv [OF inv run] owned_frame show ?thesis unfolding org_inv_def by blast
qed

lemma remove_keeps:
  assumes "org_inv d" and "remove_member p context org user d = (res, d')"
  shows "org_inv d'"
proof (cases res)
  case (Inl e)
  with assms show ?thesis by (auto simp: remove_member_def dest: transact_error split: sum.splits)
next
  case (Inr x)
  have inv: "members_inv d" using assms(1) by (simp add: org_inv_def)
  have run: "remove_member p context org user d = (Inr x, d')" using assms(2) Inr by simp
  have r: "roles org d' = (roles org d)(user := None)" "\<And>o'. o' \<noteq> org \<Longrightarrow> roles o' d' = roles o' d"
    and may: "may_remove (roles org d) (p_user_id p) user"
    using remove_member_effect [OF inv run] by auto
  have "\<exists>u. roles o' d' u = Some Owner" if "\<exists>u. roles o' d u = Some Owner" for o'
  proof (cases "o' = org")
    case True
    from that obtain v where v: "roles org d v = Some Owner" using True by blast
    then have "\<exists>w. w \<noteq> user \<and> roles org d w = Some Owner"
      using may by (cases "v = user") (auto simp: may_remove_def keeps_owner_def)
    with True r(1) show ?thesis by auto
  qed (use that r(2) in auto)
  with assms(1) remove_member_inv [OF inv run] owned_frame show ?thesis unfolding org_inv_def by blast
qed


definition demo_member :: "uuid \<Rightarrow> uuid \<Rightarrow> string \<Rightarrow> organization_member" where
  "demo_member i user role =
     \<lparr>m_id = i, m_organization_id = 2, m_user_id = user, m_role = role, m_invited_by = None, m_created_at = 0\<rparr>"

definition demo_team :: organization where
  "demo_team =
     \<lparr>o_id = 2, o_slug = ''team'', o_name = ''Team'', o_kind = Team, o_github_installation_id = None,
      o_created_by = Some 3, o_created_at = 0, o_deleted_at = None\<rparr>"

definition demo_team_db :: db where
  "demo_team_db = empty_db\<lparr>next_id := 20,
     users := [demo_user, demo_user\<lparr>u_id := 5, u_email := ''bob@x.io''\<rparr>, demo_user\<lparr>u_id := 7, u_email := ''eve@x.io''\<rparr>],
     organizations := [demo_team],
     organization_members := [demo_member 10 3 ''owner'', demo_member 11 5 ''admin'', demo_member 12 7 ''owner'']\<rparr>"

definition demo_context :: AuditContext where
  "demo_context = \<lparr>ac_ip_address = None, ac_user_agent = None\<rparr>"

lemmas team_eval =
  demo_team_db_def demo_team_def demo_member_def demo_user_def empty_db_def roles_def member_row_def parse_role_def

lemma demo_roles:
  "roles 2 demo_team_db 3 = Some Owner" "roles 2 demo_team_db 5 = Some Admin" "roles 2 demo_team_db 7 = Some Owner"
  by (simp_all add: team_eval)

lemma demo_team_inv: "org_inv demo_team_db"
proof -
  have "owned demo_team_db" using demo_roles(1) by (auto simp: owned_def demo_team_db_def demo_team_def)
  moreover have "members_inv demo_team_db"
    by (simp add: members_inv_def member_key_def team_eval)
  ultimately show ?thesis by (simp add: org_inv_def)
qed

lemma demo_is_team: "is_team 2 demo_team_db"
  by (simp add: is_team_def lock_team_organization_def demo_team_db_def demo_team_def)

lemma demo_trim: "trim ''eve@x.io'' = ''eve@x.io''"
  by (rule trim_ascii_id) (simp_all add: is_ascii_def white_space_def)

lemma demo_keeps: "keeps_owner (roles 2 demo_team_db) 7"
  unfolding keeps_owner_def by (rule exI [of _ 3]) (simp add: demo_roles)

lemma demo_email:
  "find_active_email demo_ext (trim ''eve@x.io'') demo_team_db = Some (demo_user\<lparr>u_id := 7, u_email := ''eve@x.io''\<rparr>)"
  by (simp add: find_active_email_def demo_trim demo_ext_def demo_team_db_def demo_user_def)

lemma demo_may_remove: "may_remove (roles 2 demo_team_db) 3 7"
  by (simp add: may_remove_def may_handle_def manages_def demo_roles demo_keeps)


theorem add_member_implements_policy_witness:
  "\<exists>x d'. add_member demo_ext 5 (session_principal 3) demo_context 2 \<lparr>am_email = ''eve@x.io'', am_role = ''viewer''\<rparr> demo_team_db = (Inr x, d')"
proof -
  have inv: "members_inv demo_team_db" using demo_team_inv by (simp add: org_inv_def)
  have actor: "3 \<in> set (map u_id (users demo_team_db))" by (simp add: demo_team_db_def demo_user_def)
  have "add_guard demo_ext 3 2 \<lparr>am_email = ''eve@x.io'', am_role = ''viewer''\<rparr> demo_team_db Viewer (demo_user\<lparr>u_id := 7, u_email := ''eve@x.io''\<rparr>)"
    by (simp add: add_guard_def demo_is_team demo_email demo_roles demo_keeps parse_role_def may_set_def may_handle_def manages_def)
  with add_member_implements_policy [OF inv actor, of demo_ext 5 demo_context 2 "\<lparr>am_email = ''eve@x.io'', am_role = ''viewer''\<rparr>"]
  show ?thesis by blast
qed

theorem remove_member_implements_policy_witness:
  "\<exists>x d'. remove_member (session_principal 3) demo_context 2 7 demo_team_db = (Inr x, d')"
proof -
  have inv: "members_inv demo_team_db" using demo_team_inv by (simp add: org_inv_def)
  have actor: "3 \<in> set (map u_id (users demo_team_db))" by (simp add: demo_team_db_def demo_user_def)
  from remove_member_implements_policy [OF inv actor, of demo_context 2 7] demo_is_team demo_may_remove
  show ?thesis by blast
qed



section \<open>Slug facts\<close>

definition no_double_dash :: "string \<Rightarrow> bool" where
  "no_double_dash s \<longleftrightarrow> successively (\<lambda>x y. \<not> (x = CHR ''-'' \<and> y = CHR ''-'')) s"

definition slug_state :: "string \<Rightarrow> bool \<Rightarrow> bool" where
  "slug_state output previous_dash \<longleftrightarrow>
     list_all slug_byte output \<and> no_double_dash output \<and>
     (output \<noteq> [] \<longrightarrow> hd output \<noteq> CHR ''-'' \<and> (last output = CHR ''-'' \<longrightarrow> previous_dash))"

lemma lower_not_dash: "is_ascii_alphanumeric c \<Longrightarrow> to_ascii_lowercase c \<noteq> CHR ''-'' \<and> slug_byte (to_ascii_lowercase c)"
proof -
  assume alnum: "is_ascii_alphanumeric c"
  have "\<not> is_ascii_lowercase CHR ''-''" "\<not> is_ascii_digit CHR ''-''"
    by (simp_all add: is_ascii_lowercase_def is_ascii_digit_def)
  with lower_alphanumeric [OF alnum] show ?thesis unfolding slug_byte_def by metis
qed

lemma slug_state_push:
  assumes "slug_state output previous_dash" and "slug_byte c" and "c \<noteq> CHR ''-'' \<or> output \<noteq> [] \<and> \<not> previous_dash"
  shows "slug_state (output @ [c]) (c = CHR ''-'')"
proof -
  have "no_double_dash (output @ [c])"
    using assms by (auto simp: slug_state_def no_double_dash_def successively_append_iff)
  with assms show ?thesis by (auto simp: slug_state_def hd_append)
qed

lemma slug_loop_state: "slug_state output previous_dash \<Longrightarrow> \<exists>pd. slug_state (slug_loop gs output previous_dash) pd"
proof (induction gs "output" previous_dash rule: slug_loop.induct)
  case (2 g rest "output" previous_dash)
  show ?case
  proof (cases "ascii_alphanumeric_group g")
    case True
    then obtain c where c: "g = [c]" "is_ascii_alphanumeric c"
      by (auto simp: ascii_alphanumeric_group_def split: list.splits)
    from slug_state_push [OF 2(4)] lower_not_dash [OF c(2)]
    have "slug_state (output @ map to_ascii_lowercase g) False" by (force simp: c)
    with True 2(1) show ?thesis by simp
  next
    case False
    show ?thesis
    proof (cases "\<not> previous_dash \<and> output \<noteq> []")
      case True
      from slug_state_push [OF 2(4), of "CHR ''-''"] True
      have "slug_state (output @ ''-'') True" by (simp add: slug_byte_def)
      with True False 2(2) show ?thesis by simp
    next
      case not: False
      with False 2(3,4) show ?thesis by auto
    qed
  qed
qed auto

lemma trim_matches_infix: "\<exists>a b. s = a @ trim_matches c s @ b"
proof -
  let ?d = "dropWhile (\<lambda>x. x = c) s"
  have "rev ?d = takeWhile (\<lambda>x. x = c) (rev ?d) @ dropWhile (\<lambda>x. x = c) (rev ?d)" by simp
  then have "?d = trim_matches c s @ rev (takeWhile (\<lambda>x. x = c) (rev ?d))"
    unfolding trim_matches_def trim_groups_def by (metis rev_append rev_rev_ident)
  then show ?thesis by (metis takeWhile_dropWhile_id)
qed

lemma slugify_take: "slugify value = take 63 (trim_matches CHR ''-'' (slug_loop (chars value) [] False))"
proof -
  let ?s = "slug_loop (chars value) [] False"
  obtain pd where "slug_state ?s pd" using slug_loop_state [of "[]" False "chars value"] by (auto simp: slug_state_def no_double_dash_def)
  then have "list_all slug_byte ?s" by (simp add: slug_state_def)
  moreover obtain a b where "?s = a @ trim_matches CHR ''-'' ?s @ b" using trim_matches_infix by blast
  ultimately have "list_all slug_byte (trim_matches CHR ''-'' ?s)" by (metis list_all_append)
  then have "is_ascii (trim_matches CHR ''-'' ?s)"
    by (auto simp: is_ascii_def list_all_iff slug_byte_def is_ascii_lowercase_def is_ascii_digit_def)
  then show ?thesis by (simp add: slugify_def chars_ascii take_map concat_map_singleton)
qed

text \<open>
  The shape of a derived slug: for every name it has at most 63 bytes, all of them
  lowercase letters, digits or hyphens, no two hyphens in a row and no leading hyphen; so it is
  rejected only for being shorter than three bytes or for ending in a hyphen.
\<close>

theorem slugify_shape:
  "length (slugify name) \<le> 63 \<and> list_all slug_byte (slugify name) \<and> no_double_dash (slugify name) \<and>
   \<not> starts_with (slugify name) ''-'' \<and>
   (validate_slug (slugify name) = Inr () \<longleftrightarrow> 3 \<le> length (slugify name) \<and> \<not> ends_with (slugify name) ''-'')"
proof -
  let ?s = "slug_loop (chars name) [] False"
  let ?t = "trim_matches CHR ''-'' ?s"
  obtain pd where st: "slug_state ?s pd" using slug_loop_state [of "[]" False "chars name"] by (auto simp: slug_state_def no_double_dash_def)
  obtain a b where s: "?s = a @ ?t @ b" using trim_matches_infix by blast
  have split: "?t = take 63 ?t @ drop 63 ?t" by simp
  have bytes: "list_all slug_byte (slugify name)" and dashes: "no_double_dash (slugify name)"
    using st s split unfolding slugify_take slug_state_def no_double_dash_def
    by (metis list_all_append, metis successively_append_iff)
  have "\<not> starts_with (slugify name) ''-''"
  proof
    assume "starts_with (slugify name) ''-''"
    then have "take 1 (slugify name) = ''-''" by (simp add: starts_with_def)
    then have "?t \<noteq> []" "hd ?t = CHR ''-''" by (cases ?t; simp add: slugify_take)+
    then show False using trim_groups_hd [of "\<lambda>x. x = CHR ''-''" ?s] by (simp add: trim_matches_def)
  qed
  with bytes dashes show ?thesis by (auto simp: validate_slug_def valid_slug_def slugify_take)
qed

lemma slug_loop_letters:
  "slug_loop (map (\<lambda>c. [c]) (replicate n CHR ''a'') @ gs) out False = slug_loop gs (out @ replicate n CHR ''a'') False"
proof (induction n arbitrary: out)
  case (Suc n)
  have "ascii_alphanumeric_group ''a''" and "to_ascii_lowercase CHR ''a'' = CHR ''a''"
    by (simp_all add: ascii_alphanumeric_group_def is_ascii_alphanumeric_def is_ascii_lowercase_def
        to_ascii_lowercase_def is_ascii_uppercase_def)
  with Suc [of "out @ ''a''"] show ?case by simp
qed simp

text \<open>
  A name within the limits can fail to get a slug: trimming happens before the cut at 63
  characters, so a name whose 63rd slug character is a separator yields a slug that ends in a
  hyphen, which validation then refuses, and creating the workspace without an explicit slug
  fails.
\<close>

theorem slugify_cut_is_rejected:
  "create_organization demo_ext 5 (session_principal 3) demo_context
     \<lparr>co_name = replicate 62 CHR ''a'' @ '' bb'', co_slug = None\<rparr> demo_team_db =
   (Inl (BadRequest ''slug must be 3-63 lowercase letters, numbers, or hyphens''), demo_team_db)"
proof -
  let ?name = "replicate 62 CHR ''a'' @ '' bb''"
  have "is_ascii ?name" by (simp add: is_ascii_def)
  then have chars: "chars ?name = map (\<lambda>c. [c]) ?name" by (rule chars_ascii)
  have trim: "trim ?name = ?name"
    using \<open>is_ascii ?name\<close> by (rule trim_ascii_id) (simp_all add: white_space_def hd_append hd_replicate)
  have "slug_loop (chars ?name) [] False = slug_loop ['' '', ''b'', ''b''] (replicate 62 CHR ''a'') False"
    using slug_loop_letters [of 62 "['' '', ''b'', ''b'']" "[]"] by (simp add: chars)
  then have loop: "slug_loop (chars ?name) [] False = replicate 62 CHR ''a'' @ ''-bb''"
    by (simp add: ascii_alphanumeric_group_def is_ascii_alphanumeric_def is_ascii_digit_def is_ascii_lowercase_def
        is_ascii_uppercase_def to_ascii_lowercase_def)
  have "trim_matches CHR ''-'' (replicate 62 CHR ''a'' @ ''-bb'') = replicate 62 CHR ''a'' @ ''-bb''"
    unfolding trim_matches_def by (rule trim_groups_id) (simp_all add: hd_append hd_replicate)
  then have "slugify ?name = replicate 62 CHR ''a'' @ ''-''"
    unfolding slugify_take loop by simp
  then have "validate_slug (slugify ?name) = Inl (BadRequest ''slug must be 3-63 lowercase letters, numbers, or hyphens'')"
    by (simp add: validate_slug_def valid_slug_def ends_with_def)
  moreover have "length (chars ?name) = 65" by (simp add: chars)
  moreover have "?name \<noteq> []" by simp
  ultimately show ?thesis unfolding create_organization_def Let_def by (simp add: trim)
qed

end
