(* ===== verification/GitHub_App.thy ===== *)
theory GitHub_App
  imports Redis Schema
begin

text \<open>
  \<^verbatim>\<open>gateway/src/github_app.rs\<close>: the claims of the App's JWT, the installation-token
  cache in Redis, and the installation object. Minting a token and reading an installation
  are GitHub calls whose outcomes are arguments; the clock of Redis and \<open>Utc::now()\<close> are
  one time.
\<close>

definition EXPIRY_SKEW_SECONDS :: int where
  "EXPIRY_SKEW_SECONDS = 60"

record Installation =
  in_installation_id :: int
  in_account_login :: string
  in_account_id :: int
  in_target_type :: string
  in_repository_selection :: string
  in_suspended :: bool

record AppClaims =
  cl_iat :: "64 word"
  cl_exp :: "64 word"
  cl_iss :: string

definition app_claims :: "string \<Rightarrow> 64 word \<Rightarrow> AppClaims" where
  "app_claims app_id now_secs =
     \<lparr>cl_iat = now_secs - 60, cl_exp = now_secs + 8 * 60, cl_iss = app_id\<rparr>"

record InstallationToken =
  it_token :: string
  it_expires_at :: timestamp

definition cache_key :: "int \<Rightarrow> string" where
  "cache_key installation_id = ''github:installation_token:'' @ show_int installation_id"

text \<open>\<open>TimeDelta::num_seconds\<close> rounds towards zero.\<close>

definition num_seconds :: "int \<Rightarrow> int" where
  "num_seconds micros = (if micros < 0 then - ((- micros) div 1000000) else micros div 1000000)"

definition installation_token ::
  "timestamp \<Rightarrow> InstallationToken result \<Rightarrow> int \<Rightarrow> redis \<Rightarrow> string result \<times> redis" where
  "installation_token now mint installation_id r =
     (case r_get now (cache_key installation_id) r of
        Some token \<Rightarrow> (Inr token, r)
      | None \<Rightarrow>
          (case mint of
             Inl e \<Rightarrow> (Inl e, r)
           | Inr minted \<Rightarrow>
               let ttl = num_seconds (it_expires_at minted - now) - EXPIRY_SKEW_SECONDS
               in (Inr (it_token minted),
                   if ttl > 0 then r_set_ex now ttl (cache_key installation_id) (it_token minted) r
                   else r)))"

definition invalidate_installation_token :: "int \<Rightarrow> redis \<Rightarrow> redis" where
  "invalidate_installation_token installation_id r = r_del (cache_key installation_id) r"

section \<open>Facts\<close>

lemma cache_key_inj: "cache_key i = cache_key j \<longleftrightarrow> i = j"
  by (auto simp: cache_key_def dest: show_int_inj)

lemma num_seconds_le: "seconds (num_seconds m) \<le> m \<or> m < 0"
  by (simp add: num_seconds_def seconds_def) linarith

lemma ttl_deadline:
  "ttl = num_seconds (expires - now) - EXPIRY_SKEW_SECONDS \<Longrightarrow> 0 < ttl \<Longrightarrow>
     now + seconds ttl \<le> expires - seconds 60"
  by (auto simp: num_seconds_def seconds_def EXPIRY_SKEW_SECONDS_def split: if_splits)

section \<open>Properties\<close>

text \<open>
  A cached installation token is never served within a minute of its expiry: when a
  token is minted after a cache miss, any later read of the cache that still returns it
  happens more than sixty seconds before GitHub's expiry time, and until then every request
  is served that token without minting again.
\<close>

theorem cached_token_outlives_request:
  assumes "r_get now (cache_key i) r = None"
    and "installation_token now (Inr minted) i r = (res, r')"
  shows "res = Inr (it_token minted) \<and>
     (r_get t (cache_key i) r' = Some token \<longrightarrow> now \<le> t \<longrightarrow>
        token = it_token minted \<and> t < it_expires_at minted - seconds 60 \<and>
        installation_token t mint' i r' = (Inr (it_token minted), r'))"
proof -
  define ttl where "ttl = num_seconds (it_expires_at minted - now) - EXPIRY_SKEW_SECONDS"
  have res: "res = Inr (it_token minted)"
    and r': "r' = (if ttl > 0 then r_set_ex now ttl (cache_key i) (it_token minted) r else r)"
    using assms by (auto simp: installation_token_def Let_def ttl_def)
  show ?thesis
  proof (intro conjI impI res)
    assume hit: "r_get t (cache_key i) r' = Some token" and later: "now \<le> t"
    with r' r_get_stays_None [OF assms(1) later]
    have r': "r' = r_set_ex now ttl (cache_key i) (it_token minted) r" and pos: "ttl > 0"
      by (auto split: if_splits)
    from hit r' show tok: "token = it_token minted" by (simp add: redis_store.get_put split: if_splits)
    from redis_store.put_expires_before [OF hit [unfolded r'] ttl_deadline [OF ttl_def pos]]
    show "t < it_expires_at minted - seconds 60" .
    from hit tok show "installation_token t mint' i r' = (Inr (it_token minted), r')"
      by (simp add: installation_token_def)
  qed
qed

theorem cached_token_outlives_request_witness:
  "fst (installation_token 0 (Inr \<lparr>it_token = ''t'', it_expires_at = 3600000000\<rparr>) 5 Map.empty) = Inr ''t'' \<and>
   fst (installation_token 3539999999 (Inl Forbidden) 5
     (snd (installation_token 0 (Inr \<lparr>it_token = ''t'', it_expires_at = 3600000000\<rparr>) 5 Map.empty))) = Inr ''t''"
proof -
  let ?m = "\<lparr>it_token = ''t'', it_expires_at = 3600000000\<rparr>"
  let ?r = "snd (installation_token 0 (Inr ?m) 5 Map.empty)"
  have miss: "r_get 0 (cache_key 5) Map.empty = None" by (simp add: r_get_def live_def)
  have r: "?r = r_set_ex 0 3540 (cache_key 5) ''t'' Map.empty"
    by (simp add: installation_token_def miss num_seconds_def EXPIRY_SKEW_SECONDS_def)
  have hit: "r_get 3539999999 (cache_key 5) ?r = Some ''t''"
    unfolding r by (simp add: redis_store.get_put seconds_def)
  from cached_token_outlives_request [OF miss prod.collapse [symmetric], of ?m 3539999999 "''t''" "Inl Forbidden"]
    hit show ?thesis by (simp add: prod_eq_iff)
qed

text \<open>
  Invalidation drops exactly one installation's token: the next request for it mints,
  and every other installation keeps its cached token.
\<close>

theorem invalidation_is_exact:
  "installation_token now (Inl e) i (invalidate_installation_token i r) =
     (Inl e, invalidate_installation_token i r) \<and>
   (j \<noteq> i \<longrightarrow> r_get now (cache_key j) (invalidate_installation_token i r) = r_get now (cache_key j) r)"
  by (simp add: installation_token_def invalidate_installation_token_def redis_store.get_del
      redis_store.get_del_other cache_key_inj)

theorem invalidation_is_exact_witness:
  "r_get 0 (cache_key 6) (invalidate_installation_token 5 (r_set_ex 0 9 (cache_key 6) ''x'' Map.empty)) = Some ''x''"
  using invalidation_is_exact [of 0 Forbidden 5 "r_set_ex 0 9 (cache_key 6) ''x'' Map.empty" 6]
  by (simp add: redis_store.get_put seconds_def)

text \<open>
  The App JWT always spans exactly nine minutes and is backdated by one, for every
  clock value that is not within a minute of the epoch or of the end of the 64-bit range:
  its lifetime stays below GitHub's ten-minute ceiling and no subtraction wraps.
\<close>

theorem app_claims_span:
  assumes "60 \<le> unat now_secs" and "unat now_secs < 2 ^ 64 - 480"
  shows "unat (cl_iat (app_claims app_id now_secs)) = unat now_secs - 60 \<and>
     unat (cl_exp (app_claims app_id now_secs)) = unat now_secs + 480 \<and>
     unat (cl_exp (app_claims app_id now_secs)) - unat (cl_iat (app_claims app_id now_secs)) = 540"
proof -
  have le: "(60 :: 64 word) \<le> now_secs" using assms(1) by (simp add: word_le_nat_alt)
  have "unat (now_secs - 60) = unat now_secs - unat (60 :: 64 word)" using le by (rule unat_sub)
  then have 1: "unat (now_secs - 60) = unat now_secs - 60" by simp
  have "unat now_secs + unat (480 :: 64 word) < 2 ^ LENGTH(64)" using assms(2) by simp
  then have "unat (now_secs + 480) = unat now_secs + unat (480 :: 64 word)" by (rule unat_add_lem [THEN iffD1])
  then have 2: "unat (now_secs + 480) = unat now_secs + 480" by simp
  from 1 2 assms(1) show ?thesis by (simp add: app_claims_def)
qed

theorem app_claims_span_witness:
  "unat (cl_exp (app_claims ''1'' 1700000000)) - unat (cl_iat (app_claims ''1'' 1700000000)) = 540"
  using app_claims_span [of 1700000000 "''1''"] by simp

end
