(* ===== verification/GitHub_Types.thy ===== *)
theory GitHub_Types
  imports Json
begin

text \<open>
  The GitHub objects the gateway reads from webhooks and REST pages: the structs of
  \<^verbatim>\<open>gateway/src/github_api.rs\<close> as records (a prefix per struct) and their derived
  \<open>Deserialize\<close> implementations, field by field in the order of the struct. A
  deserialiser returns \<open>None\<close> where serde reports an error.
\<close>

abbreviation de_str :: "string de" where "de_str \<equiv> as_str"
abbreviation de_i64 :: "int de" where "de_i64 \<equiv> as_i64"

abbreviation de_date :: "ext \<Rightarrow> timestamp de" where "de_date E \<equiv> de_time (parse_time E)"

definition one :: int where
  "one = 1"

section \<open>Actions\<close>

record GitHubUserSummary =
  us_id :: int
  us_login :: string

definition de_GitHubUserSummary :: "GitHubUserSummary de" where
  "de_GitHubUserSummary v = do {
     i \<leftarrow> de_required ''id'' de_i64 v;
     login \<leftarrow> de_required ''login'' de_str v;
     Some \<lparr>us_id = i, us_login = login\<rparr>
   }"

record GitHubRunPullRequest =
  rp_number :: int

definition de_GitHubRunPullRequest :: "GitHubRunPullRequest de" where
  "de_GitHubRunPullRequest v = do {
     number \<leftarrow> de_required ''number'' de_i32 v;
     Some \<lparr>rp_number = number\<rparr>
   }"

record GitHubWorkflowRun =
  run_gid :: int
  run_name :: "string option"
  run_workflow_id :: int
  run_number :: int
  run_attempt :: int
  run_event :: string
  run_status :: string
  run_conclusion :: "string option"
  run_head_sha :: string
  run_head_branch :: "string option"
  run_actor :: "GitHubUserSummary option"
  run_triggering_actor :: "GitHubUserSummary option"
  run_created_at :: "timestamp option"
  run_run_started_at :: "timestamp option"
  run_updated_at :: "timestamp option"
  run_pull_requests :: "GitHubRunPullRequest list"

definition de_GitHubWorkflowRun :: "ext \<Rightarrow> GitHubWorkflowRun de" where
  "de_GitHubWorkflowRun E v = do {
     i \<leftarrow> de_required ''id'' de_i64 v;
     name \<leftarrow> de_optional ''name'' de_str v;
     workflow_id \<leftarrow> de_required ''workflow_id'' de_i64 v;
     number \<leftarrow> de_required ''run_number'' de_i32 v;
     attempt \<leftarrow> de_default ''run_attempt'' one de_i32 v;
     event \<leftarrow> de_required ''event'' de_str v;
     status \<leftarrow> de_required ''status'' de_str v;
     conclusion \<leftarrow> de_optional ''conclusion'' de_str v;
     head_sha \<leftarrow> de_required ''head_sha'' de_str v;
     head_branch \<leftarrow> de_optional ''head_branch'' de_str v;
     actor \<leftarrow> de_optional ''actor'' de_GitHubUserSummary v;
     triggering_actor \<leftarrow> de_optional ''triggering_actor'' de_GitHubUserSummary v;
     created_at \<leftarrow> de_optional ''created_at'' (de_date E) v;
     run_started_at \<leftarrow> de_optional ''run_started_at'' (de_date E) v;
     updated_at \<leftarrow> de_optional ''updated_at'' (de_date E) v;
     pull_requests \<leftarrow> de_default ''pull_requests'' [] (de_vec de_GitHubRunPullRequest) v;
     Some \<lparr>run_gid = i, run_name = name, run_workflow_id = workflow_id, run_number = number,
           run_attempt = attempt, run_event = event, run_status = status,
           run_conclusion = conclusion, run_head_sha = head_sha,
           run_head_branch = head_branch, run_actor = actor,
           run_triggering_actor = triggering_actor, run_created_at = created_at,
           run_run_started_at = run_started_at, run_updated_at = updated_at,
           run_pull_requests = pull_requests\<rparr>
   }"

record GitHubWorkflow =
  wf_gid :: int
  wf_name :: string
  wf_path :: string
  wf_state :: "string option"

definition de_GitHubWorkflow :: "GitHubWorkflow de" where
  "de_GitHubWorkflow v = do {
     i \<leftarrow> de_required ''id'' de_i64 v;
     name \<leftarrow> de_required ''name'' de_str v;
     path \<leftarrow> de_required ''path'' de_str v;
     state \<leftarrow> de_optional ''state'' de_str v;
     Some \<lparr>wf_gid = i, wf_name = name, wf_path = path, wf_state = state\<rparr>
   }"

record GitHubStep =
  st_number :: int
  st_name :: string
  st_status :: string
  st_conclusion :: "string option"
  st_started_at :: "timestamp option"
  st_completed_at :: "timestamp option"

definition de_GitHubStep :: "ext \<Rightarrow> GitHubStep de" where
  "de_GitHubStep E v = do {
     number \<leftarrow> de_required ''number'' de_i32 v;
     name \<leftarrow> de_required ''name'' de_str v;
     status \<leftarrow> de_required ''status'' de_str v;
     conclusion \<leftarrow> de_optional ''conclusion'' de_str v;
     started_at \<leftarrow> de_optional ''started_at'' (de_date E) v;
     completed_at \<leftarrow> de_optional ''completed_at'' (de_date E) v;
     Some \<lparr>st_number = number, st_name = name, st_status = status,
           st_conclusion = conclusion, st_started_at = started_at,
           st_completed_at = completed_at\<rparr>
   }"

record GitHubJob =
  job_gid :: int
  job_run_id :: int
  job_run_attempt :: int
  job_name :: string
  job_status :: string
  job_conclusion :: "string option"
  job_started_at :: "timestamp option"
  job_completed_at :: "timestamp option"
  job_runner_id :: "int option"
  job_runner_name :: "string option"
  job_runner_group_name :: "string option"
  job_labels :: "string list"
  job_steps :: "GitHubStep list"

definition de_GitHubJob :: "ext \<Rightarrow> GitHubJob de" where
  "de_GitHubJob E v = do {
     i \<leftarrow> de_required ''id'' de_i64 v;
     run_id \<leftarrow> de_required ''run_id'' de_i64 v;
     attempt \<leftarrow> de_default ''run_attempt'' one de_i32 v;
     name \<leftarrow> de_required ''name'' de_str v;
     status \<leftarrow> de_required ''status'' de_str v;
     conclusion \<leftarrow> de_optional ''conclusion'' de_str v;
     started_at \<leftarrow> de_optional ''started_at'' (de_date E) v;
     completed_at \<leftarrow> de_optional ''completed_at'' (de_date E) v;
     runner_id \<leftarrow> de_optional ''runner_id'' de_i64 v;
     runner_name \<leftarrow> de_optional ''runner_name'' de_str v;
     runner_group_name \<leftarrow> de_optional ''runner_group_name'' de_str v;
     labels \<leftarrow> de_default ''labels'' [] (de_vec de_str) v;
     steps \<leftarrow> de_default ''steps'' [] (de_vec (de_GitHubStep E)) v;
     Some \<lparr>job_gid = i, job_run_id = run_id, job_run_attempt = attempt, job_name = name,
           job_status = status, job_conclusion = conclusion, job_started_at = started_at,
           job_completed_at = completed_at, job_runner_id = runner_id,
           job_runner_name = runner_name, job_runner_group_name = runner_group_name,
           job_labels = labels, job_steps = steps\<rparr>
   }"

section \<open>Version control\<close>

record GitHubBranchHead =
  bh_sha :: string

definition de_GitHubBranchHead :: "GitHubBranchHead de" where
  "de_GitHubBranchHead v = do {
     sha \<leftarrow> de_required ''sha'' de_str v;
     Some \<lparr>bh_sha = sha\<rparr>
   }"

record GitHubSignature =
  sg_name :: "string option"
  sg_email :: "string option"
  sg_date :: "timestamp option"

record GitHubCommitDetail =
  cd_message :: string
  cd_author :: "GitHubSignature option"
  cd_committer :: "GitHubSignature option"

record GitHubCommit =
  gc_sha :: string
  gc_commit :: GitHubCommitDetail
  gc_author :: "GitHubUserSummary option"
  gc_parents :: "GitHubBranchHead list"

definition de_GitHubSignature :: "ext \<Rightarrow> GitHubSignature de" where
  "de_GitHubSignature E v = do {
     _ \<leftarrow> (if is_object v then Some () else None);
     name \<leftarrow> de_optional ''name'' de_str v;
     email \<leftarrow> de_optional ''email'' de_str v;
     date \<leftarrow> de_optional ''date'' (de_date E) v;
     Some \<lparr>sg_name = name, sg_email = email, sg_date = date\<rparr>
   }"

definition de_GitHubCommitDetail :: "ext \<Rightarrow> GitHubCommitDetail de" where
  "de_GitHubCommitDetail E v = do {
     message \<leftarrow> de_required ''message'' de_str v;
     author \<leftarrow> de_optional ''author'' (de_GitHubSignature E) v;
     committer \<leftarrow> de_optional ''committer'' (de_GitHubSignature E) v;
     Some \<lparr>cd_message = message, cd_author = author, cd_committer = committer\<rparr>
   }"

definition de_GitHubCommit :: "ext \<Rightarrow> GitHubCommit de" where
  "de_GitHubCommit E v = do {
     sha \<leftarrow> de_required ''sha'' de_str v;
     commit \<leftarrow> de_required ''commit'' (de_GitHubCommitDetail E) v;
     author \<leftarrow> de_optional ''author'' de_GitHubUserSummary v;
     parents \<leftarrow> de_default ''parents'' [] (de_vec de_GitHubBranchHead) v;
     Some \<lparr>gc_sha = sha, gc_commit = commit, gc_author = author, gc_parents = parents\<rparr>
   }"

record GitHubBranch =
  gb_name :: string
  gb_commit :: GitHubBranchHead
  gb_protected :: bool

definition de_GitHubBranch :: "GitHubBranch de" where
  "de_GitHubBranch v = do {
     name \<leftarrow> de_required ''name'' de_str v;
     commit \<leftarrow> de_required ''commit'' de_GitHubBranchHead v;
     protected \<leftarrow> de_default ''protected'' False de_bool v;
     Some \<lparr>gb_name = name, gb_commit = commit, gb_protected = protected\<rparr>
   }"

record GitHubPullRef =
  ref_name :: string
  ref_sha :: string

definition de_GitHubPullRef :: "GitHubPullRef de" where
  "de_GitHubPullRef v = do {
     name \<leftarrow> de_required ''ref'' de_str v;
     sha \<leftarrow> de_required ''sha'' de_str v;
     Some \<lparr>ref_name = name, ref_sha = sha\<rparr>
   }"

record GitHubPullRequest =
  gp_id :: int
  gp_number :: int
  gp_title :: string
  gp_state :: string
  gp_draft :: bool
  gp_user :: "GitHubUserSummary option"
  gp_head :: GitHubPullRef
  gp_base :: GitHubPullRef
  gp_merge_commit_sha :: "string option"
  gp_merged_by :: "GitHubUserSummary option"
  gp_additions :: "int option"
  gp_deletions :: "int option"
  gp_changed_files :: "int option"
  gp_commits :: "int option"
  gp_comments :: int
  gp_review_comments :: int
  gp_opened_at :: timestamp
  gp_closed_at :: "timestamp option"
  gp_merged_at :: "timestamp option"

text \<open>A field with a \<open>serde(alias)\<close>: either name, but not both.\<close>

definition de_aliased :: "string \<Rightarrow> string \<Rightarrow> 'a de \<Rightarrow> 'a de" where
  "de_aliased k k' d v =
     (case (get_field k v, get_field k' v) of
        (Some w, None) \<Rightarrow> d w
      | (None, Some w) \<Rightarrow> d w
      | _ \<Rightarrow> None)"

definition de_GitHubPullRequest :: "ext \<Rightarrow> GitHubPullRequest de" where
  "de_GitHubPullRequest E v = do {
     i \<leftarrow> de_required ''id'' de_i64 v;
     number \<leftarrow> de_required ''number'' de_i32 v;
     title \<leftarrow> de_required ''title'' de_str v;
     state \<leftarrow> de_required ''state'' de_str v;
     draft \<leftarrow> de_default ''draft'' False de_bool v;
     user \<leftarrow> de_optional ''user'' de_GitHubUserSummary v;
     head \<leftarrow> de_required ''head'' de_GitHubPullRef v;
     base \<leftarrow> de_required ''base'' de_GitHubPullRef v;
     merge_commit_sha \<leftarrow> de_optional ''merge_commit_sha'' de_str v;
     merged_by \<leftarrow> de_optional ''merged_by'' de_GitHubUserSummary v;
     additions \<leftarrow> de_optional ''additions'' de_i32 v;
     deletions \<leftarrow> de_optional ''deletions'' de_i32 v;
     changed_files \<leftarrow> de_optional ''changed_files'' de_i32 v;
     commits \<leftarrow> de_optional ''commits'' de_i32 v;
     comments \<leftarrow> de_default ''comments'' 0 de_i32 v;
     review_comments \<leftarrow> de_default ''review_comments'' 0 de_i32 v;
     opened_at \<leftarrow> de_aliased ''opened_at'' ''created_at'' (de_date E) v;
     closed_at \<leftarrow> de_optional ''closed_at'' (de_date E) v;
     merged_at \<leftarrow> de_optional ''merged_at'' (de_date E) v;
     Some \<lparr>gp_id = i, gp_number = number, gp_title = title, gp_state = state, gp_draft = draft,
           gp_user = user, gp_head = head, gp_base = base,
           gp_merge_commit_sha = merge_commit_sha, gp_merged_by = merged_by,
           gp_additions = additions, gp_deletions = deletions,
           gp_changed_files = changed_files, gp_commits = commits, gp_comments = comments,
           gp_review_comments = review_comments, gp_opened_at = opened_at,
           gp_closed_at = closed_at, gp_merged_at = merged_at\<rparr>
   }"

section \<open>Ranges\<close>

text \<open>What deserialisation guarantees about the integers that reach the database.\<close>

lemma de_required_SomeD: "de_required k d v = Some x \<Longrightarrow> \<exists>w. get_field k v = Some w \<and> d w = Some x"
  by (auto simp: de_required_def split: option.splits)

lemma de_default_SomeD: "de_default k x0 d v = Some x \<Longrightarrow> x = x0 \<or> (\<exists>w. d w = Some x)"
  by (auto simp: de_default_def split: option.splits)

lemma is_i32_one [simp]: "is_i32 one"
  by (simp add: one_def is_i32_def)

lemma run_ranges:
  "de_GitHubWorkflowRun E v = Some run \<Longrightarrow>
     is_i64 (run_gid run) \<and> is_i32 (run_attempt run) \<and> is_i32 (run_number run)"
  unfolding de_GitHubWorkflowRun_def
  by (clarsimp simp: Option.bind_eq_Some_conv)
    (auto dest!: de_required_SomeD de_default_SomeD intro: as_i64_range de_i32_range)

end
