(* ===== verification/GitHub_Api.thy ===== *)
theory GitHub_Api
  imports GitHub_App GitHub_Types Crypto
begin

text \<open>
  \<^verbatim>\<open>gateway/src/github_api.rs\<close>, the REST client: conditional requests, the two page
  shapes, link-header pagination, errors and rate limits, artifact and log downloads, and the
  choice of the token a workspace acts with. The network is a \<open>net\<close>: the replies that
  GitHub will give to the requests in the order they are made, and the log of the requests made
  so far. A call that still waits for a reply has not returned: \<open>None\<close>.
\<close>

section \<open>The network\<close>

record http_request =
  hq_url :: string
  hq_if_none_match :: "string option"
  hq_form :: "(string \<times> string) list"

text \<open>\<open>hr_body = None\<close> is a body whose transfer failed.\<close>

record http_response =
  hr_status :: nat
  hr_headers :: "string \<rightharpoonup> string"
  hr_body :: "u8 list option"
  hr_content_length :: "nat option"

record net =
  replies :: "(string + http_response) list"
  sent :: "http_request list"

type_synonym 'a api = "net \<Rightarrow> ('a result \<times> net) option"

definition send :: "http_request \<Rightarrow> http_response api" where
  "send request n =
     (case replies n of
        [] \<Rightarrow> None
      | reply # rest \<Rightarrow>
          Some (map_sum Upstream id reply, n\<lparr>replies := rest, sent := sent n @ [request]\<rparr>))"

definition is_success :: "nat \<Rightarrow> bool" where
  "is_success status \<longleftrightarrow> 200 \<le> status \<and> status < 300"

section \<open>Headers and errors\<close>

definition header_text :: "(string \<rightharpoonup> string) \<Rightarrow> string \<Rightarrow> string option" where
  "header_text headers name = headers name"

text \<open>\<open>str::parse::<u64>\<close>: an optional plus sign, then digits, below \<open>2^64\<close>.\<close>

definition parse_u64 :: "string \<Rightarrow> nat option" where
  "parse_u64 s =
     (let digits = (case s of c # rest \<Rightarrow> if c = CHR ''+'' then rest else s | [] \<Rightarrow> [])
      in if digits = [] \<or> \<not> list_all is_ascii_digit digits \<or> read_nat digits \<ge> 2 ^ 64 then None
         else Some (read_nat digits))"

text \<open>
  The seconds until the reset time, when it is not in the past; \<open>SystemTime\<close> holds
  seconds below \<open>2^63\<close>.
\<close>

definition reset_delay :: "timestamp \<Rightarrow> string option \<Rightarrow> nat option" where
  "reset_delay now reset =
     (case Option.bind reset parse_u64 of
        None \<Rightarrow> None
      | Some secs \<Rightarrow>
          if secs < 2 ^ 63 \<and> now \<le> seconds (int secs)
          then Some (nat ((seconds (int secs) - now) div 1000000)) else None)"

definition rate_detail :: "timestamp \<Rightarrow> nat \<Rightarrow> (string \<rightharpoonup> string) \<Rightarrow> string" where
  "rate_detail now status headers =
     (let remaining = header_text headers ''x-ratelimit-remaining'';
          reset = reset_delay now (header_text headers ''x-ratelimit-reset'');
          retry_after = header_text headers ''retry-after''
      in if remaining = Some ''0'' \<or> status = 429
         then ''; rate limited, retry after '' @
              (case coalesce retry_after (map_option show_nat reset) of
                 Some s \<Rightarrow> s | None \<Rightarrow> ''an unspecified delay'') @ '' seconds''
         else if status = 403 \<and> retry_after \<noteq> None
         then ''; secondary rate limit, retry after '' @ the retry_after @ '' seconds''
         else [])"

definition error_message :: "ext \<Rightarrow> u8 list option \<Rightarrow> string" where
  "error_message E body =
     (case Option.bind body (\<lambda>b. Option.bind (json_from_slice E b) (de_required ''message'' de_str)) of
        Some message \<Rightarrow> message
      | None \<Rightarrow> ''request failed'')"

definition api_error :: "ext \<Rightarrow> timestamp \<Rightarrow> http_response \<Rightarrow> AppError" where
  "api_error E now response =
     Upstream (''GitHub returned '' @ show_status E (hr_status response) @ '': '' @
       error_message E (hr_body response) @ rate_detail now (hr_status response) (hr_headers response))"

text \<open>\<open>response.json::<T>()\<close>.\<close>

definition read_json :: "ext \<Rightarrow> 'a de \<Rightarrow> string \<Rightarrow> http_response \<Rightarrow> 'a result" where
  "read_json E de url response =
     (let body = (case hr_body response of None \<Rightarrow> [] | Some b \<Rightarrow> b)
      in case Option.bind (hr_body response) (\<lambda>b. Option.bind (json_from_slice E b) de) of
           Some x \<Rightarrow> Inr x
         | None \<Rightarrow> Inl (Upstream (''invalid response from '' @ url @ '': '' @ body_error E body)))"

section \<open>Pagination links\<close>

definition next_piece :: "ext \<Rightarrow> string \<Rightarrow> string option" where
  "next_piece E part =
     (case split_on CHR '';'' (trim part) of
        [] \<Rightarrow> None
      | target # pieces \<Rightarrow>
          if \<not> list_ex (\<lambda>piece. trim piece = ''rel='' @ [CHR 0x22] @ ''next'' @ [CHR 0x22]) pieces then None
          else Option.bind (strip_prefix (trim target) ''<'')
                 (\<lambda>t. Option.bind (strip_suffix t ''>'') (parse_url E)))"

definition next_link :: "ext \<Rightarrow> string \<Rightarrow> string option" where
  "next_link E value = find_map (next_piece E) (split_on CHR '','' value)"

section \<open>Pages\<close>

record 'a GitHubEnvelope =
  en_body :: "'a option"
  en_next :: "string option"
  en_etag :: "string option"
  en_not_modified :: bool

record 'a GitHubPage =
  pg_items :: "'a list"
  pg_next :: "string option"
  pg_etag :: "string option"
  pg_not_modified :: bool

definition envelope_of :: "ext \<Rightarrow> timestamp \<Rightarrow> 'a de \<Rightarrow> string \<Rightarrow> http_response \<Rightarrow> 'a GitHubEnvelope result" where
  "envelope_of E now de url response =
     (let headers = hr_headers response
      in if hr_status response = 304
         then Inr \<lparr>en_body = None, en_next = None, en_etag = header_text headers ''etag'', en_not_modified = True\<rparr>
         else if \<not> is_success (hr_status response) then Inl (api_error E now response)
         else (case read_json E de url response of
                 Inl e \<Rightarrow> Inl e
               | Inr body \<Rightarrow>
                   Inr \<lparr>en_body = Some body,
                        en_next = Option.bind (header_text headers ''link'') (next_link E),
                        en_etag = header_text headers ''etag'', en_not_modified = False\<rparr>))"

definition page_envelope ::
  "ext \<Rightarrow> timestamp \<Rightarrow> 'a de \<Rightarrow> string \<Rightarrow> string option \<Rightarrow> 'a GitHubEnvelope api" where
  "page_envelope E now de url etag n =
     (case send \<lparr>hq_url = url, hq_if_none_match = etag, hq_form = []\<rparr> n of
        None \<Rightarrow> None
      | Some (Inl e, n') \<Rightarrow> Some (Inl e, n')
      | Some (Inr response, n') \<Rightarrow> Some (envelope_of E now de url response, n'))"

definition page :: "ext \<Rightarrow> timestamp \<Rightarrow> 'a de \<Rightarrow> string \<Rightarrow> string option \<Rightarrow> 'a GitHubPage api" where
  "page E now de url etag n =
     map_option (map_prod (map_sum id (\<lambda>envelope.
         \<lparr>pg_items = (case en_body envelope of None \<Rightarrow> [] | Some items \<Rightarrow> items), pg_next = en_next envelope,
          pg_etag = en_etag envelope, pg_not_modified = en_not_modified envelope\<rparr>)) id)
       (page_envelope E now (de_vec de) url etag n)"

lemma send_consumes: "send q n = Some (r, n') \<Longrightarrow> length (replies n') < length (replies n)"
  by (auto simp: send_def split: list.splits)

lemma page_envelope_consumes:
  "page_envelope E now de url etag n = Some (r, n') \<Longrightarrow> length (replies n') < length (replies n)"
  by (auto simp: page_envelope_def split: option.splits sum.splits prod.splits dest: send_consumes)

text \<open>
  The loops of \<open>installation_repositories\<close>, \<open>run_jobs\<close> and \<open>all_pages\<close> are one loop
  up to the page type: \<open>extract\<close> takes the items out of a page's body.
\<close>

function collect_pages ::
  "ext \<Rightarrow> timestamp \<Rightarrow> 'a de \<Rightarrow> ('a \<Rightarrow> 'b list) \<Rightarrow> string \<Rightarrow> 'b list \<Rightarrow> 'b list api" where
  "collect_pages E now de extract url out n =
     (case page_envelope E now de url None n of
        None \<Rightarrow> None
      | Some (Inl e, n') \<Rightarrow> Some (Inl e, n')
      | Some (Inr envelope, n') \<Rightarrow>
          let out' = out @ (case en_body envelope of None \<Rightarrow> [] | Some body \<Rightarrow> extract body)
          in (case en_next envelope of
                None \<Rightarrow> Some (Inr out', n')
              | Some next \<Rightarrow> collect_pages E now de extract next out' n'))"
  by auto
termination
  by (relation "measure (\<lambda>(E, now, de, extract, url, out, n). length (replies n))")
    (auto dest: page_envelope_consumes)

declare collect_pages.simps [simp del]

section \<open>Endpoints\<close>

definition endpoint :: "ext \<Rightarrow> string \<Rightarrow> string list \<Rightarrow> string result" where
  "endpoint E base segments =
     (case url_push E base segments of
        None \<Rightarrow> Inl (Internal ''GitHub API base URL cannot be a base'')
      | Some url \<Rightarrow> Inr url)"

definition per_page :: "(string \<times> string) list" where
  "per_page = [(''per_page'', ''100'')]"

text \<open>\<open>self.endpoint(..)?\<close> followed by a call on the URL with query pairs.\<close>

definition at_endpoint :: "ext \<Rightarrow> string \<Rightarrow> string list \<Rightarrow> (string \<times> string) list \<Rightarrow> (string \<Rightarrow> 'a api) \<Rightarrow> 'a api" where
  "at_endpoint E base segments pairs call n =
     (case endpoint E base segments of
        Inl e \<Rightarrow> Some (Inl e, n)
      | Inr url \<Rightarrow> call (if pairs = [] then url else url_query E url pairs) n)"

record GitHubPermissions =
  gm_admin :: bool
  gm_maintain :: bool
  gm_push :: bool
  gm_pull :: bool

definition de_GitHubPermissions :: "GitHubPermissions de" where
  "de_GitHubPermissions v = do {
     _ \<leftarrow> (if is_object v then Some () else None);
     admin \<leftarrow> de_default ''admin'' False de_bool v;
     maintain \<leftarrow> de_default ''maintain'' False de_bool v;
     push \<leftarrow> de_default ''push'' False de_bool v;
     pull \<leftarrow> de_default ''pull'' False de_bool v;
     Some \<lparr>gm_admin = admin, gm_maintain = maintain, gm_push = push, gm_pull = pull\<rparr>
   }"

record GitHubRepository =
  gr_id :: int
  gr_name :: string
  gr_full_name :: string
  gr_owner :: GitHubUserSummary
  gr_description :: "string option"
  gr_default_branch :: string
  gr_is_private :: bool
  gr_archived :: bool
  gr_fork :: bool
  gr_language :: "string option"
  gr_html_url :: string
  gr_created_at :: "timestamp option"
  gr_pushed_at :: "timestamp option"
  gr_permissions :: "GitHubPermissions option"

definition de_GitHubRepository :: "ext \<Rightarrow> GitHubRepository de" where
  "de_GitHubRepository E v = do {
     i \<leftarrow> de_required ''id'' de_i64 v;
     name \<leftarrow> de_required ''name'' de_str v;
     full_name \<leftarrow> de_required ''full_name'' de_str v;
     owner \<leftarrow> de_required ''owner'' de_GitHubUserSummary v;
     description \<leftarrow> de_optional ''description'' de_str v;
     default_branch \<leftarrow> de_required ''default_branch'' de_str v;
     is_private \<leftarrow> de_required ''private'' de_bool v;
     archived \<leftarrow> de_required ''archived'' de_bool v;
     fork \<leftarrow> de_required ''fork'' de_bool v;
     language \<leftarrow> de_optional ''language'' de_str v;
     html_url \<leftarrow> de_required ''html_url'' de_str v;
     created_at \<leftarrow> de_optional ''created_at'' (de_date E) v;
     pushed_at \<leftarrow> de_optional ''pushed_at'' (de_date E) v;
     permissions \<leftarrow> de_optional ''permissions'' de_GitHubPermissions v;
     Some \<lparr>gr_id = i, gr_name = name, gr_full_name = full_name, gr_owner = owner, gr_description = description,
           gr_default_branch = default_branch, gr_is_private = is_private, gr_archived = archived, gr_fork = fork,
           gr_language = language, gr_html_url = html_url, gr_created_at = created_at, gr_pushed_at = pushed_at,
           gr_permissions = permissions\<rparr>
   }"

definition installation_repositories :: "ext \<Rightarrow> timestamp \<Rightarrow> string \<Rightarrow> GitHubRepository list api" where
  "installation_repositories E now base =
     at_endpoint E base [''installation'', ''repositories''] per_page
       (\<lambda>url. collect_pages E now (de_required ''repositories'' (de_vec (de_GitHubRepository E))) id url [])"

definition repository_opt :: "ext \<Rightarrow> timestamp \<Rightarrow> string \<Rightarrow> int \<Rightarrow> GitHubRepository option api" where
  "repository_opt E now base repository_id =
     at_endpoint E base [''repositories'', show_int repository_id] []
       (\<lambda>url n. case send \<lparr>hq_url = url, hq_if_none_match = None, hq_form = []\<rparr> n of
          None \<Rightarrow> None
        | Some (Inl e, n') \<Rightarrow> Some (Inl e, n')
        | Some (Inr response, n') \<Rightarrow>
            if hr_status response = 404 then Some (Inr None, n')
            else if \<not> is_success (hr_status response) then Some (Inl (api_error E now response), n')
            else Some (map_sum id Some (read_json E (de_GitHubRepository E) url response), n'))"

definition de_GitHubJobsPage :: "ext \<Rightarrow> GitHubJob list de" where
  "de_GitHubJobsPage E v = Option.bind (if is_object v then Some () else None)
     (\<lambda>_. de_default ''jobs'' [] (de_vec (de_GitHubJob E)) v)"

definition de_GitHubRunsPage :: "ext \<Rightarrow> GitHubWorkflowRun list de" where
  "de_GitHubRunsPage E v = Option.bind (if is_object v then Some () else None)
     (\<lambda>_. de_default ''workflow_runs'' [] (de_vec (de_GitHubWorkflowRun E)) v)"

definition de_GitHubWorkflowsPage :: "GitHubWorkflow list de" where
  "de_GitHubWorkflowsPage v = Option.bind (if is_object v then Some () else None)
     (\<lambda>_. de_default ''workflows'' [] (de_vec de_GitHubWorkflow) v)"

definition run_jobs :: "ext \<Rightarrow> timestamp \<Rightarrow> string \<Rightarrow> string \<Rightarrow> string \<Rightarrow> int \<Rightarrow> GitHubJob list api" where
  "run_jobs E now base owner repository run_id =
     at_endpoint E base [''repos'', owner, repository, ''actions'', ''runs'', show_int run_id, ''jobs'']
       [(''filter'', ''latest''), (''per_page'', ''100'')]
       (\<lambda>url. collect_pages E now (de_GitHubJobsPage E) id url [])"

text \<open>A download whose absence (404 or 410) is \<open>None\<close>.\<close>

definition download ::
  "ext \<Rightarrow> timestamp \<Rightarrow> (http_response \<Rightarrow> u8 list result) \<Rightarrow> string \<Rightarrow> u8 list option api" where
  "download E now read url n =
     (case send \<lparr>hq_url = url, hq_if_none_match = None, hq_form = []\<rparr> n of
        None \<Rightarrow> None
      | Some (Inl e, n') \<Rightarrow> Some (Inl e, n')
      | Some (Inr response, n') \<Rightarrow>
          if hr_status response = 404 \<or> hr_status response = 410 then Some (Inr None, n')
          else if \<not> is_success (hr_status response) then Some (Inl (api_error E now response), n')
          else Some (map_sum id Some (read response), n'))"

definition run_logs_zip :: "ext \<Rightarrow> timestamp \<Rightarrow> string \<Rightarrow> string \<Rightarrow> string \<Rightarrow> int \<Rightarrow> u8 list option api" where
  "run_logs_zip E now base owner repository run_id =
     at_endpoint E base [''repos'', owner, repository, ''actions'', ''runs'', show_int run_id, ''logs''] []
       (download E now (\<lambda>response.
          case hr_body response of None \<Rightarrow> Inl (Upstream (body_error E [])) | Some bytes \<Rightarrow> Inr bytes))"

section \<open>Artifacts\<close>

definition MAX_ARTIFACT_DOWNLOAD_BYTES :: nat where
  "MAX_ARTIFACT_DOWNLOAD_BYTES = 50 * 1024 * 1024"

record GitHubArtifact =
  af_id :: int
  af_name :: string
  af_size_in_bytes :: int
  af_expired :: bool
  af_created_at :: timestamp

definition de_GitHubArtifact :: "ext \<Rightarrow> GitHubArtifact de" where
  "de_GitHubArtifact E v = do {
     i \<leftarrow> de_required ''id'' de_i64 v;
     name \<leftarrow> de_required ''name'' de_str v;
     size \<leftarrow> de_required ''size_in_bytes'' de_i64 v;
     expired \<leftarrow> de_default ''expired'' False de_bool v;
     created_at \<leftarrow> de_required ''created_at'' (de_date E) v;
     Some \<lparr>af_id = i, af_name = name, af_size_in_bytes = size, af_expired = expired, af_created_at = created_at\<rparr>
   }"

definition de_GitHubArtifactsPage :: "ext \<Rightarrow> GitHubArtifact list de" where
  "de_GitHubArtifactsPage E v = Option.bind (if is_object v then Some () else None)
     (\<lambda>_. de_default ''artifacts'' [] (de_vec (de_GitHubArtifact E)) v)"

definition artifact_le :: "GitHubArtifact \<Rightarrow> GitHubArtifact \<Rightarrow> bool" where
  "artifact_le a b \<longleftrightarrow>
     af_created_at a < af_created_at b \<or> af_created_at a = af_created_at b \<and> af_id a \<le> af_id b"

definition run_artifacts ::
  "ext \<Rightarrow> timestamp \<Rightarrow> string \<Rightarrow> string \<Rightarrow> string \<Rightarrow> int \<Rightarrow> nat \<Rightarrow> GitHubArtifact list api" where
  "run_artifacts E now base owner repository run_id limit =
     at_endpoint E base [''repos'', owner, repository, ''actions'', ''runs'', show_int run_id, ''artifacts'']
       [(''per_page'', show_nat (min 100 (max 1 limit)))]
       (\<lambda>url n. map_option (map_prod (map_sum id (\<lambda>envelope.
            order_by artifact_le (case en_body envelope of None \<Rightarrow> [] | Some artifacts \<Rightarrow> artifacts))) id)
          (page_envelope E now (de_GitHubArtifactsPage E) url None n))"

text \<open>The streaming loop; \<open>chunks\<close> is how the transport cuts the body.\<close>

fun read_chunks :: "nat \<Rightarrow> AppError \<Rightarrow> u8 list \<Rightarrow> u8 list list \<Rightarrow> u8 list result" where
  "read_chunks limit too_long bytes [] = Inr bytes"
| "read_chunks limit too_long bytes (chunk # rest) =
     (if length bytes + length chunk > limit then Inl too_long
      else read_chunks limit too_long (bytes @ chunk) rest)"

definition read_artifact :: "ext \<Rightarrow> (u8 list \<Rightarrow> u8 list list) \<Rightarrow> int \<Rightarrow> http_response \<Rightarrow> u8 list result" where
  "read_artifact E chunks artifact_id response =
     (if (case hr_content_length response of None \<Rightarrow> False | Some len \<Rightarrow> len > MAX_ARTIFACT_DOWNLOAD_BYTES)
      then Inl (Upstream (''GitHub artifact '' @ show_int artifact_id @ '' exceeds the '' @
             show_nat MAX_ARTIFACT_DOWNLOAD_BYTES @ ''-byte limit''))
      else case hr_body response of
        None \<Rightarrow> Inl (Upstream (body_error E []))
      | Some body \<Rightarrow>
          read_chunks MAX_ARTIFACT_DOWNLOAD_BYTES
            (Upstream (''GitHub artifact '' @ show_int artifact_id @ '' exceeded the '' @
               show_nat MAX_ARTIFACT_DOWNLOAD_BYTES @ ''-byte limit'')) [] (chunks body))"

definition artifact_zip ::
  "ext \<Rightarrow> timestamp \<Rightarrow> string \<Rightarrow> (u8 list \<Rightarrow> u8 list list) \<Rightarrow> string \<Rightarrow> string \<Rightarrow> int \<Rightarrow> u8 list option api" where
  "artifact_zip E now base chunks owner repository artifact_id =
     at_endpoint E base [''repos'', owner, repository, ''actions'', ''artifacts'', show_int artifact_id, ''zip''] []
       (download E now (read_artifact E chunks artifact_id))"

section \<open>Pull requests and reviews\<close>

definition get_json :: "ext \<Rightarrow> timestamp \<Rightarrow> 'a de \<Rightarrow> string \<Rightarrow> 'a api" where
  "get_json E now de url n =
     (case send \<lparr>hq_url = url, hq_if_none_match = None, hq_form = []\<rparr> n of
        None \<Rightarrow> None
      | Some (Inl e, n') \<Rightarrow> Some (Inl e, n')
      | Some (Inr response, n') \<Rightarrow>
          if \<not> is_success (hr_status response) then Some (Inl (api_error E now response), n')
          else Some (read_json E de url response, n'))"

definition pull_request_detail ::
  "ext \<Rightarrow> timestamp \<Rightarrow> string \<Rightarrow> string \<Rightarrow> string \<Rightarrow> int \<Rightarrow> GitHubPullRequest api" where
  "pull_request_detail E now base owner repository number =
     at_endpoint E base [''repos'', owner, repository, ''pulls'', show_int number] []
       (get_json E now (de_GitHubPullRequest E))"

definition de_GitHubReview :: "ext \<Rightarrow> timestamp option de" where
  "de_GitHubReview E v = Option.bind (if is_object v then Some () else None)
     (\<lambda>_. de_optional ''submitted_at'' (de_date E) v)"

definition min_time :: "timestamp list \<Rightarrow> timestamp option" where
  "min_time ts = (case ts of [] \<Rightarrow> None | t # rest \<Rightarrow> Some (fold min rest t))"

definition first_review_at ::
  "ext \<Rightarrow> timestamp \<Rightarrow> string \<Rightarrow> string \<Rightarrow> string \<Rightarrow> int \<Rightarrow> timestamp option api" where
  "first_review_at E now base owner repository number n =
     map_option (map_prod (map_sum id (\<lambda>reviews. min_time (List.map_filter id reviews))) id)
       (at_endpoint E base [''repos'', owner, repository, ''pulls'', show_int number, ''reviews''] per_page
          (\<lambda>url. collect_pages E now (de_vec (de_GitHubReview E)) id url []) n)"

section \<open>Which token a workspace acts with\<close>

definition organization_installation_id :: "uuid \<Rightarrow> db \<Rightarrow> int option" where
  "organization_installation_id org d =
     Option.bind (find (\<lambda>x. o_id x = org \<and> o_deleted_at x = None) (organizations d)) o_github_installation_id"

definition organization_installation_token ::
  "timestamp \<Rightarrow> InstallationToken result \<Rightarrow> uuid \<Rightarrow> db \<Rightarrow> redis \<Rightarrow> string option result \<times> redis" where
  "organization_installation_token now mint org d r =
     (case organization_installation_id org d of
        None \<Rightarrow> (Inr None, r)
      | Some i \<Rightarrow> map_prod (map_sum id Some) id (installation_token now mint i r))"

definition organization_installation_token_fresh ::
  "timestamp \<Rightarrow> InstallationToken result \<Rightarrow> uuid \<Rightarrow> db \<Rightarrow> redis \<Rightarrow> string option result \<times> redis" where
  "organization_installation_token_fresh now mint org d r =
     (case organization_installation_id org d of
        None \<Rightarrow> (Inr None, r)
      | Some i \<Rightarrow>
          map_prod (map_sum id Some) id (installation_token now mint i (invalidate_installation_token i r)))"

definition repository_installation :: "uuid \<Rightarrow> db \<Rightarrow> int option" where
  "repository_installation repository_id d =
     Option.bind (find (\<lambda>x. r_id x = repository_id \<and> r_deleted_at x = None) (repositories d))
       (\<lambda>x. organization_installation_id (r_organization_id x) d)"

definition repository_token ::
  "timestamp \<Rightarrow> InstallationToken result \<Rightarrow> uuid \<Rightarrow> db \<Rightarrow> redis \<Rightarrow> string option result \<times> redis" where
  "repository_token now mint repository_id d r =
     (case repository_installation repository_id d of
        None \<Rightarrow> (Inr None, r)
      | Some i \<Rightarrow> map_prod (map_sum id Some) id (installation_token now mint i r))"

definition user_access_token :: "aead \<Rightarrow> uuid \<Rightarrow> db \<Rightarrow> string result" where
  "user_access_token cipher user d =
     (case find (\<lambda>a. ga_user_id a = user) (github_accounts d) of
        None \<Rightarrow> Inl (BadRequest ''the user has no connected GitHub account'')
      | Some account \<Rightarrow> map_sum crypto_error id (decrypt cipher (ga_access_token_encrypted account)))"

section \<open>Facts on pagination\<close>

text \<open>A run of pages: each reply is good, names the next URL, and the last one names none.\<close>

inductive page_chain ::
  "ext \<Rightarrow> timestamp \<Rightarrow> 'a de \<Rightarrow> string \<Rightarrow> http_response list \<Rightarrow> 'a GitHubEnvelope list \<Rightarrow> string list \<Rightarrow> bool"
  for E now de where
  last_page: "envelope_of E now de url r = Inr e \<Longrightarrow> en_next e = None \<Longrightarrow> page_chain E now de url [r] [e] [url]"
| more_pages: "envelope_of E now de url r = Inr e \<Longrightarrow> en_next e = Some u \<Longrightarrow> page_chain E now de u rs es us \<Longrightarrow>
    page_chain E now de url (r # rs) (e # es) (url # us)"

definition items_of :: "('a \<Rightarrow> 'b list) \<Rightarrow> 'a GitHubEnvelope \<Rightarrow> 'b list" where
  "items_of extract e = (case en_body e of None \<Rightarrow> [] | Some body \<Rightarrow> extract body)"

definition plain_get :: "string \<Rightarrow> http_request" where
  "plain_get url = \<lparr>hq_url = url, hq_if_none_match = None, hq_form = []\<rparr>"

lemma page_envelope_reply:
  "replies n = Inr r # rest \<Longrightarrow>
     page_envelope E now de url None n =
       Some (envelope_of E now de url r, n\<lparr>replies := rest, sent := sent n @ [plain_get url]\<rparr>)"
  by (simp add: page_envelope_def send_def plain_get_def)

lemma collect_follows_chain:
  assumes "page_chain E now de url rs es us" and "replies n = map Inr rs @ rest"
  shows "collect_pages E now de extract url out n =
    Some (Inr (out @ concat (map (items_of extract) es)), n\<lparr>replies := rest, sent := sent n @ map plain_get us\<rparr>)"
  using assms
proof (induction arbitrary: out n rule: page_chain.induct)
  case (last_page url r e)
  then show ?case
    by (subst collect_pages.simps) (simp add: page_envelope_reply items_of_def Let_def split: option.splits)
next
  case (more_pages url r e u rs es us)
  let ?n = "n\<lparr>replies := map Inr rs @ rest, sent := sent n @ [plain_get url]\<rparr>"
  have "collect_pages E now de extract url out n = collect_pages E now de extract u (out @ items_of extract e) ?n"
    using more_pages.hyps more_pages.prems
    by (subst collect_pages.simps) (simp add: page_envelope_reply items_of_def Let_def)
  also have "\<dots> = Some (Inr ((out @ items_of extract e) @ concat (map (items_of extract) es)),
      ?n\<lparr>replies := rest, sent := sent ?n @ map plain_get us\<rparr>)"
    by (rule more_pages.IH) simp
  finally show ?case by simp
qed

lemma page_envelope_Inr:
  assumes "page_envelope E now de url None n = Some (Inr e, n')"
  shows "\<exists>r. replies n = Inr r # replies n' \<and> envelope_of E now de url r = Inr e \<and>
    n' = n\<lparr>replies := replies n', sent := sent n @ [plain_get url]\<rparr>"
  using assms
  by (auto simp: page_envelope_def send_def plain_get_def map_sum_Inr split: list.splits sum.splits option.splits)

lemma collect_gives_chain:
  "collect_pages E now de extract url out n = Some (Inr xs, n') \<Longrightarrow>
     \<exists>rs es us. page_chain E now de url rs es us \<and> replies n = map Inr rs @ replies n'"
proof (induction E now de "extract" url "out" n rule: collect_pages.induct)
  case (1 E now de "extract" url "out" n)
  from 1(2) obtain e n1 where e: "page_envelope E now de url None n = Some (Inr e, n1)"
    by (subst (asm) collect_pages.simps) (auto split: option.splits sum.splits prod.splits)
  from page_envelope_Inr [OF e] obtain r where r: "replies n = Inr r # replies n1" "envelope_of E now de url r = Inr e" by blast
  show ?case
  proof (cases "en_next e")
    case None
    with 1(2) e have "n' = n1" by (subst (asm) collect_pages.simps) (simp add: Let_def)
    with None r show ?thesis by (intro exI [of _ "[r]"]) (auto intro: page_chain.last_page)
  next
    case (Some u)
    then have "\<exists>rs es us. page_chain E now de u rs es us \<and> replies n1 = map Inr rs @ replies n'"
      using 1(1) [OF e refl refl refl Some] 1(2) e by (subst (asm) collect_pages.simps) (simp add: Let_def)
    then obtain rs es us where "page_chain E now de u rs es us" "replies n1 = map Inr rs @ replies n'" by blast
    with Some r show ?thesis by (intro exI [of _ "r # rs"]) (auto intro: page_chain.more_pages)
  qed
qed


lemma read_chunks_spec:
  "length bytes \<le> limit \<Longrightarrow>
   read_chunks limit e bytes chunks =
     (if length bytes + length (concat chunks) \<le> limit then Inr (bytes @ concat chunks) else Inl e)"
  by (induction chunks arbitrary: bytes) auto

text \<open>
  An artifact download is bounded, however the transport cuts it: when the pieces make up
  the body, the download yields the whole body if that has at most 50 MiB and the server did
  not announce more, and an upstream error otherwise; the buffer never exceeds the limit.
\<close>

theorem artifact_download_bounded:
  assumes "\<And>body. concat (chunks body) = body"
  shows "(case read_artifact E chunks i response of Inr bytes \<Rightarrow> length bytes \<le> 52428800 | Inl e \<Rightarrow> \<exists>m. e = Upstream m) \<and>
    (read_artifact E chunks i response = Inr bytes \<longleftrightarrow>
       hr_body response = Some bytes \<and> length bytes \<le> 52428800 \<and>
       (case hr_content_length response of None \<Rightarrow> True | Some len \<Rightarrow> len \<le> 52428800))"
proof -
  have spec: "read_chunks MAX_ARTIFACT_DOWNLOAD_BYTES e [] (chunks body) =
      (if length body \<le> 52428800 then Inr body else Inl e)" for e body
    using read_chunks_spec [of "[]" MAX_ARTIFACT_DOWNLOAD_BYTES e "chunks body"] assms
    by (simp add: MAX_ARTIFACT_DOWNLOAD_BYTES_def)
  show ?thesis
    unfolding read_artifact_def spec by (auto simp: MAX_ARTIFACT_DOWNLOAD_BYTES_def split: option.splits)
qed

theorem artifact_download_bounded_witness:
  "read_artifact demo_ext (map (\<lambda>b. [b])) 4
     \<lparr>hr_status = 200, hr_headers = Map.empty, hr_body = Some [1, 2, 3], hr_content_length = None\<rparr> = Inr [1, 2, 3]"
proof -
  have "concat (map (\<lambda>b. [b]) body) = body" for body :: "u8 list" by (induction body) simp_all
  from artifact_download_bounded [OF this, where bytes = "[1, 2, 3]"] show ?thesis by simp
qed

section \<open>The link header read back\<close>

text \<open>How a server writes the header: a list of \<open><url>; rel="relation"\<close> entries.\<close>

definition link_entry :: "string \<times> string \<Rightarrow> string" where
  "link_entry entry = (case entry of (url, rel) \<Rightarrow> ''<'' @ url @ ''>; rel='' @ [CHR 0x22] @ rel @ [CHR 0x22])"

definition render_links :: "(string \<times> string) list \<Rightarrow> string" where
  "render_links entries = (case entries of [] \<Rightarrow> [] | e # es \<Rightarrow> link_entry e @ concat (map (\<lambda>e. '', '' @ link_entry e) es))"

definition clean_entry :: "string \<times> string \<Rightarrow> bool" where
  "clean_entry entry \<longleftrightarrow> (\<forall>s\<in>{fst entry, snd entry}. is_ascii s \<and> CHR '','' \<notin> set s \<and> CHR '';'' \<notin> set s)"

lemma split_entries:
  assumes "CHR '','' \<notin> set p" and "\<forall>e\<in>set es. clean_entry e"
  shows "split_on CHR '','' (p @ concat (map (\<lambda>e. '', '' @ link_entry e) es)) = p # map (\<lambda>e. CHR '' '' # link_entry e) es"
  using assms
proof (induction es arbitrary: p)
  case Nil
  then show ?case by (simp add: split_on_no_sep)
next
  case (Cons e es)
  have comma: "CHR '','' \<notin> set (CHR '' '' # link_entry e)"
    using Cons.prems(2) by (cases e) (simp add: link_entry_def clean_entry_def)
  have "split_on CHR '','' (p @ concat (map (\<lambda>e. '', '' @ link_entry e) (e # es))) =
      p # split_on CHR '','' ((CHR '' '' # link_entry e) @ concat (map (\<lambda>e. '', '' @ link_entry e) es))"
    using split_on_append_sep [OF Cons.prems(1)] by simp
  also have "\<dots> = p # (CHR '' '' # link_entry e) # map (\<lambda>e. CHR '' '' # link_entry e) es"
    unfolding Cons.IH [OF comma] using Cons.IH [OF comma] Cons.prems(2) by simp
  finally show ?case by simp
qed

lemma next_piece_entry:
  assumes "clean_entry (url, rel)" and "part = link_entry (url, rel) \<or> part = CHR '' '' # link_entry (url, rel)"
  shows "next_piece E part = (if rel = ''next'' then parse_url E url else None)"
proof -
  let ?e = "link_entry (url, rel)"
  let ?rel = "''rel='' @ [CHR 0x22] @ rel @ [CHR 0x22]"
  have clean: "is_ascii url" "CHR '';'' \<notin> set url" "is_ascii rel" "CHR '';'' \<notin> set rel"
    using assms(1) by (auto simp: clean_entry_def)
  have e: "is_ascii ?e" "?e \<noteq> []" "[hd ?e] \<notin> set white_space" "[last ?e] \<notin> set white_space"
    using clean by (simp_all add: link_entry_def is_ascii_def ball_Un white_space_def)
  have trim: "trim part = ?e" using assms(2) trim_ascii_id [OF e] trim_leading_space [OF e] by blast
  have r: "is_ascii ?rel" "?rel \<noteq> []" "[hd ?rel] \<notin> set white_space" "[last ?rel] \<notin> set white_space"
    using clean by (simp_all add: is_ascii_def ball_Un white_space_def)
  have u: "is_ascii (''<'' @ url @ ''>'')" using clean by (simp add: is_ascii_def ball_Un)
  have target: "trim (''<'' @ url @ ''>'') = ''<'' @ url @ ''>''"
    by (rule trim_ascii_id [OF u]) (simp_all add: white_space_def)
  have "?e = (''<'' @ url @ ''>'') @ CHR '';'' # (CHR '' '' # ?rel)" by (simp add: link_entry_def)
  then have "split_on CHR '';'' ?e = (''<'' @ url @ ''>'') # split_on CHR '';'' (CHR '' '' # ?rel)"
    using clean split_on_append_sep [of "CHR '';''" "''<'' @ url @ ''>''" "CHR '' '' # ?rel"] by simp
  moreover have "split_on CHR '';'' (CHR '' '' # ?rel) = [CHR '' '' # ?rel]"
    using clean by (intro split_on_no_sep) simp
  ultimately have pieces: "split_on CHR '';'' (trim part) = [''<'' @ url @ ''>'', CHR '' '' # ?rel]" using trim by simp
  have "strip_prefix (''<'' @ url @ ''>'') ''<'' = Some (url @ ''>'')" by (rule strip_prefix_append)
  moreover have "strip_suffix (url @ ''>'') ''>'' = Some url" by (simp add: strip_suffix_Some)
  moreover have "?rel = ''rel='' @ [CHR 0x22] @ ''next'' @ [CHR 0x22] \<longleftrightarrow> rel = ''next''" by auto
  ultimately show ?thesis
    unfolding next_piece_def pieces list.case target using trim_leading_space [OF r] by simp
qed

text \<open>
  Reading a pagination header back: for every list of entries whose URLs and relations are
  ASCII without commas and semicolons, \<open>next_link\<close> of the rendered header is the first URL
  with relation \<open>next\<close> that parses, and nothing when there is none.
\<close>

theorem next_link_reads_back:
  assumes "\<forall>e\<in>set entries. clean_entry e"
  shows "next_link E (render_links entries) =
    find_map (\<lambda>(url, rel). if rel = ''next'' then parse_url E url else None) entries"
proof (cases entries)
  case Nil
  have "trim [] = []" by (simp add: trim_def trim_groups_def)
  with Nil show ?thesis by (simp add: next_link_def render_links_def next_piece_def)
next
  case (Cons e es)
  have comma: "CHR '','' \<notin> set (link_entry e)"
    using assms Cons by (cases e) (simp add: link_entry_def clean_entry_def)
  have "split_on CHR '','' (render_links entries) = link_entry e # map (\<lambda>e. CHR '' '' # link_entry e) es"
    using split_entries [OF comma, of es] assms Cons by (simp add: render_links_def)
  moreover have "find_map (next_piece E) (map (\<lambda>e. CHR '' '' # link_entry e) es') =
      find_map (\<lambda>(url, rel). if rel = ''next'' then parse_url E url else None) es'" if "set es' \<subseteq> set entries" for es'
    using that
  proof (induction es')
    case (Cons x xs)
    obtain url rel where x: "x = (url, rel)" by (cases x)
    have "clean_entry (url, rel)" using Cons.prems assms x by auto
    from next_piece_entry [OF this] Cons show ?case by (simp add: x split: option.splits)
  qed simp
  moreover have "next_piece E (link_entry e) = (\<lambda>(url, rel). if rel = ''next'' then parse_url E url else None) e"
    using next_piece_entry [of "fst e" "snd e" "link_entry e" E] assms Cons by (simp add: case_prod_beta)
  ultimately show ?thesis using Cons by (simp add: next_link_def subset_iff split: option.splits)
qed

theorem next_link_reads_back_witness:
  "next_link demo_ext (render_links [(''https://x/2'', ''prev''), (''https://x/4'', ''next'')]) = Some ''https://x/4''"
  using next_link_reads_back [of "[(''https://x/2'', ''prev''), (''https://x/4'', ''next'')]" demo_ext]
  by (simp add: clean_entry_def is_ascii_def demo_ext_def)

end
