(* ===== verification/GitHub_OAuth.thy ===== *)
theory GitHub_OAuth
  imports GitHub_Api
begin

text \<open>
  \<^verbatim>\<open>gateway/src/github.rs\<close>, the calls made for a person who signs in, and the calls the App
  makes for itself in \<^verbatim>\<open>gateway/src/github_app.rs\<close>. The request log holds the URLs and forms;
  the bearer token of a request is not part of it. Signing a JWT is an argument.
\<close>

section \<open>Requests without a GitHub error body\<close>

definition read_body :: "ext \<Rightarrow> 'a de \<Rightarrow> http_response \<Rightarrow> 'a result" where
  "read_body E de response =
     (let body = (case hr_body response of None \<Rightarrow> [] | Some b \<Rightarrow> b)
      in case Option.bind (hr_body response) (\<lambda>b. Option.bind (json_from_slice E b) de) of
           Some x \<Rightarrow> Inr x
         | None \<Rightarrow> Inl (Upstream (body_error E body)))"

definition call_json :: "ext \<Rightarrow> 'a de \<Rightarrow> (http_response \<Rightarrow> string) \<Rightarrow> string \<Rightarrow> (string \<times> string) list \<Rightarrow> 'a api" where
  "call_json E de refusal url form n =
     (case send \<lparr>hq_url = url, hq_if_none_match = None, hq_form = form\<rparr> n of
        None \<Rightarrow> None
      | Some (Inl e, n') \<Rightarrow> Some (Inl e, n')
      | Some (Inr response, n') \<Rightarrow>
          if \<not> is_success (hr_status response) then Some (Inl (Upstream (refusal response)), n')
          else Some (read_body E de response, n'))"

section \<open>Signing in (github.rs)\<close>

definition AUTHORIZE_URL :: string where
  "AUTHORIZE_URL = ''https://github.com/login/oauth/authorize''"

definition TOKEN_URL :: string where
  "TOKEN_URL = ''https://github.com/login/oauth/access_token''"

definition USER_URL :: string where
  "USER_URL = ''https://api.github.com/user''"

definition EMAILS_URL :: string where
  "EMAILS_URL = ''https://api.github.com/user/emails''"

definition authorize_url :: "ext \<Rightarrow> string \<Rightarrow> string \<Rightarrow> string \<Rightarrow> string result" where
  "authorize_url E client_id redirect_uri csrf_state =
     (case parse_url E AUTHORIZE_URL of
        None \<Rightarrow> Inl (Internal (url_error E AUTHORIZE_URL))
      | Some url \<Rightarrow>
          Inr (url_query E url
            [(''client_id'', client_id), (''redirect_uri'', redirect_uri), (''state'', csrf_state),
             (''allow_signup'', ''true'')]))"

record TokenResponse =
  tr_access_token :: "string option"
  tr_refresh_token :: "string option"
  tr_expires_in :: "int option"
  tr_scope :: "string option"
  tr_error :: "string option"
  tr_error_description :: "string option"

definition de_u64 :: "int de" where
  "de_u64 v = (case v of JInt i \<Rightarrow> if 0 \<le> i \<and> i < 2 ^ 64 then Some i else None | _ \<Rightarrow> None)"

definition de_TokenResponse :: "TokenResponse de" where
  "de_TokenResponse v = do {
     _ \<leftarrow> (if is_object v then Some () else None);
     access_token \<leftarrow> de_optional ''access_token'' de_str v;
     refresh_token \<leftarrow> de_optional ''refresh_token'' de_str v;
     expires_in \<leftarrow> de_optional ''expires_in'' de_u64 v;
     scope \<leftarrow> de_optional ''scope'' de_str v;
     error \<leftarrow> de_optional ''error'' de_str v;
     error_description \<leftarrow> de_optional ''error_description'' de_str v;
     Some \<lparr>tr_access_token = access_token, tr_refresh_token = refresh_token, tr_expires_in = expires_in,
           tr_scope = scope, tr_error = error, tr_error_description = error_description\<rparr>
   }"

record OAuthToken =
  ot_access_token :: string
  ot_refresh_token :: "string option"
  ot_expires_at :: "timestamp option"
  ot_scopes :: "string list"

definition scopes_of :: "string option \<Rightarrow> string list" where
  "scopes_of scope =
     filter (\<lambda>s. s \<noteq> []) (map trim (split_on CHR '','' (case scope of None \<Rightarrow> [] | Some s \<Rightarrow> s)))"

text \<open>
  \<open>None\<close> is the panic of \<open>Utc::now() + Duration::seconds(..)\<close>; a lifetime that does not fit
  \<open>i64\<close> is dropped.
\<close>

definition expiry :: "ext \<Rightarrow> timestamp \<Rightarrow> int option \<Rightarrow> timestamp option option" where
  "expiry E now expires_in =
     (case expires_in of
        None \<Rightarrow> Some None
      | Some secs \<Rightarrow> if secs < 2 ^ 63 then map_option Some (time_add E now secs) else Some None)"

definition oauth_token :: "ext \<Rightarrow> timestamp \<Rightarrow> TokenResponse \<Rightarrow> OAuthToken option result" where
  "oauth_token E now token =
     (case tr_error token of
        Some error \<Rightarrow>
          Inl (Upstream (''OAuth error '' @ error @ '': '' @
            (case tr_error_description token of None \<Rightarrow> [] | Some description \<Rightarrow> description)))
      | None \<Rightarrow>
          (case tr_access_token token of
             None \<Rightarrow> Inl (Upstream ''token response had no access token'')
           | Some access_token \<Rightarrow>
               Inr (map_option (\<lambda>expires_at.
                      \<lparr>ot_access_token = access_token, ot_refresh_token = tr_refresh_token token,
                       ot_expires_at = expires_at, ot_scopes = scopes_of (tr_scope token)\<rparr>)
                    (expiry E now (tr_expires_in token)))))"

definition token_request :: "string \<Rightarrow> string \<Rightarrow> string \<Rightarrow> string \<Rightarrow> (string \<times> string) list" where
  "token_request client_id client_secret code redirect_uri =
     [(''client_id'', client_id), (''client_secret'', client_secret), (''code'', code), (''redirect_uri'', redirect_uri)]"

definition exchange_code ::
  "ext \<Rightarrow> timestamp \<Rightarrow> string \<Rightarrow> string \<Rightarrow> string \<Rightarrow> string \<Rightarrow> OAuthToken option api" where
  "exchange_code E now client_id client_secret redirect_uri code n =
     (case call_json E de_TokenResponse
             (\<lambda>response. ''token exchange returned '' @ show_status E (hr_status response)) TOKEN_URL
             (token_request client_id client_secret code redirect_uri) n of
        None \<Rightarrow> None
      | Some (Inl e, n') \<Rightarrow> Some (Inl e, n')
      | Some (Inr token, n') \<Rightarrow> Some (oauth_token E now token, n'))"

record EmailResponse =
  er_email :: string
  er_primary :: bool
  er_verified :: bool

definition de_EmailResponse :: "EmailResponse de" where
  "de_EmailResponse v = do {
     email \<leftarrow> de_required ''email'' de_str v;
     primary \<leftarrow> de_required ''primary'' de_bool v;
     verified \<leftarrow> de_required ''verified'' de_bool v;
     Some \<lparr>er_email = email, er_primary = primary, er_verified = verified\<rparr>
   }"

definition pick_email :: "EmailResponse list \<Rightarrow> string result" where
  "pick_email emails =
     (case coalesce (find (\<lambda>e. er_primary e \<and> er_verified e) emails) (find er_verified emails) of
        None \<Rightarrow> Inl (BadRequest ''GitHub account must have a verified email address'')
      | Some e \<Rightarrow> Inr (er_email e))"

definition fetch_primary_email :: "ext \<Rightarrow> string api" where
  "fetch_primary_email E n =
     (case call_json E (de_vec de_EmailResponse)
             (\<lambda>response. ''email endpoint returned '' @ show_status E (hr_status response)) EMAILS_URL [] n of
        None \<Rightarrow> None
      | Some (Inl e, n') \<Rightarrow> Some (Inl e, n')
      | Some (Inr emails, n') \<Rightarrow> Some (pick_email emails, n'))"

record UserResponse =
  ur_id :: int
  ur_login :: string
  ur_name :: "string option"
  ur_avatar_url :: "string option"
  ur_email :: "string option"

definition de_UserResponse :: "UserResponse de" where
  "de_UserResponse v = do {
     i \<leftarrow> de_required ''id'' de_i64 v;
     login \<leftarrow> de_required ''login'' de_str v;
     name \<leftarrow> de_optional ''name'' de_str v;
     avatar_url \<leftarrow> de_optional ''avatar_url'' de_str v;
     email \<leftarrow> de_optional ''email'' de_str v;
     Some \<lparr>ur_id = i, ur_login = login, ur_name = name, ur_avatar_url = avatar_url, ur_email = email\<rparr>
   }"

record GitHubUser =
  gu_id :: int
  gu_login :: string
  gu_name :: "string option"
  gu_avatar_url :: "string option"
  gu_email :: string

definition github_user :: "UserResponse \<Rightarrow> string \<Rightarrow> GitHubUser" where
  "github_user user email =
     \<lparr>gu_id = ur_id user, gu_login = ur_login user, gu_name = ur_name user,
      gu_avatar_url = ur_avatar_url user, gu_email = email\<rparr>"

definition fetch_user :: "ext \<Rightarrow> GitHubUser api" where
  "fetch_user E n =
     (case call_json E de_UserResponse
             (\<lambda>response. ''user endpoint returned '' @ show_status E (hr_status response)) USER_URL [] n of
        None \<Rightarrow> None
      | Some (Inl e, n') \<Rightarrow> Some (Inl e, n')
      | Some (Inr user, n') \<Rightarrow>
          (case ur_email user of
             Some email \<Rightarrow> Some (Inr (github_user user email), n')
           | None \<Rightarrow> map_option (map_prod (map_sum id (github_user user)) id) (fetch_primary_email E n')))"

definition user_installation_ids :: "ext \<Rightarrow> int list api" where
  "user_installation_ids E =
     call_json E (de_required ''installations'' (de_vec (de_required ''id'' de_i64)))
       (\<lambda>response. ''user installations endpoint returned '' @ show_status E (hr_status response))
       ''https://api.github.com/user/installations?per_page=100'' []"

section \<open>The App's own calls (github_app.rs)\<close>

text \<open>\<open>sign\<close> is \<open>jsonwebtoken::encode\<close> with the App's key: a token or the text of an error.\<close>

definition app_jwt :: "(AppClaims \<Rightarrow> string + string) \<Rightarrow> string \<Rightarrow> timestamp \<Rightarrow> string result" where
  "app_jwt sign app_id now =
     (if now < 0 then Inl (Internal ''second time provided was later than self'')
      else map_sum Internal id (sign (app_claims app_id (word_of_int (now div 1000000)))))"

definition app_endpoint :: "ext \<Rightarrow> string \<Rightarrow> string list \<Rightarrow> string result" where
  "app_endpoint E base segments =
     (case url_push E base segments of
        None \<Rightarrow> Inl (Internal ''GitHub API base URL cannot be a base'')
      | Some url \<Rightarrow> Inr url)"

definition response_text :: "ext \<Rightarrow> http_response \<Rightarrow> string" where
  "response_text E response = (case hr_body response of None \<Rightarrow> [] | Some body \<Rightarrow> body_text E body)"

definition as_app :: "ext \<Rightarrow> string result \<Rightarrow> string \<Rightarrow> string list \<Rightarrow> (string \<Rightarrow> 'a api) \<Rightarrow> 'a api" where
  "as_app E jwt base segments call n =
     (case jwt of
        Inl e \<Rightarrow> Some (Inl e, n)
      | Inr _ \<Rightarrow> (case app_endpoint E base segments of Inl e \<Rightarrow> Some (Inl e, n) | Inr url \<Rightarrow> call url n))"

definition de_InstallationResponse :: "ext \<Rightarrow> int \<Rightarrow> Installation de" where
  "de_InstallationResponse E installation_id v = do {
     account \<leftarrow> de_required ''account''
       (\<lambda>a. do { login \<leftarrow> de_required ''login'' de_str a; i \<leftarrow> de_required ''id'' de_i64 a; Some (login, i) }) v;
     target_type \<leftarrow> de_required ''target_type'' de_str v;
     repository_selection \<leftarrow> de_required ''repository_selection'' de_str v;
     suspended_at \<leftarrow> de_optional ''suspended_at'' (de_date E) v;
     Some \<lparr>in_installation_id = installation_id, in_account_login = fst account, in_account_id = snd account,
           in_target_type = target_type, in_repository_selection = repository_selection,
           in_suspended = (suspended_at \<noteq> None)\<rparr>
   }"

definition fetch_installation :: "ext \<Rightarrow> string result \<Rightarrow> string \<Rightarrow> int \<Rightarrow> Installation api" where
  "fetch_installation E jwt base installation_id =
     as_app E jwt base [''app'', ''installations'', show_int installation_id]
       (\<lambda>url. call_json E (de_InstallationResponse E installation_id)
          (\<lambda>response. ''GitHub returned '' @ show_status E (hr_status response) @ '' reading installation '' @
             show_int installation_id @ '': '' @ response_text E response) url [])"

definition de_InstallationToken :: "ext \<Rightarrow> InstallationToken de" where
  "de_InstallationToken E v = do {
     token \<leftarrow> de_required ''token'' de_str v;
     expires_at \<leftarrow> de_required ''expires_at'' (de_date E) v;
     Some \<lparr>it_token = token, it_expires_at = expires_at\<rparr>
   }"

definition mint_installation_token :: "ext \<Rightarrow> string result \<Rightarrow> string \<Rightarrow> int \<Rightarrow> InstallationToken api" where
  "mint_installation_token E jwt base installation_id =
     as_app E jwt base [''app'', ''installations'', show_int installation_id, ''access_tokens'']
       (\<lambda>url. call_json E (de_InstallationToken E)
          (\<lambda>response. ''GitHub returned '' @ show_status E (hr_status response) @
             '' minting an installation token: '' @ response_text E response) url [])"

text \<open>The token cache with its minting: GitHub is called only when the cache misses.\<close>

definition cached_token ::
  "ext \<Rightarrow> timestamp \<Rightarrow> string result \<Rightarrow> string \<Rightarrow> int \<Rightarrow> redis \<Rightarrow> net \<Rightarrow> (string result \<times> redis \<times> net) option" where
  "cached_token E now jwt base installation_id r n =
     (case r_get now (cache_key installation_id) r of
        Some token \<Rightarrow> Some (Inr token, r, n)
      | None \<Rightarrow>
          map_option (\<lambda>(minted, n'). case installation_token now minted installation_id r of (res, r') \<Rightarrow> (res, r', n'))
            (mint_installation_token E jwt base installation_id n))"

definition workspace_token ::
  "ext \<Rightarrow> timestamp \<Rightarrow> string result \<Rightarrow> string \<Rightarrow> uuid \<Rightarrow> db \<Rightarrow> redis \<Rightarrow> net
     \<Rightarrow> (string option result \<times> redis \<times> net) option" where
  "workspace_token E now jwt base org d r n =
     (case organization_installation_id org d of
        None \<Rightarrow> Some (Inr None, r, n)
      | Some i \<Rightarrow> map_option (map_prod (map_sum id Some) id) (cached_token E now jwt base i r n))"

definition workspace_token_fresh ::
  "ext \<Rightarrow> timestamp \<Rightarrow> string result \<Rightarrow> string \<Rightarrow> uuid \<Rightarrow> db \<Rightarrow> redis \<Rightarrow> net
     \<Rightarrow> (string option result \<times> redis \<times> net) option" where
  "workspace_token_fresh E now jwt base org d r n =
     (case organization_installation_id org d of
        None \<Rightarrow> Some (Inr None, r, n)
      | Some i \<Rightarrow>
          map_option (map_prod (map_sum id Some) id)
            (cached_token E now jwt base i (invalidate_installation_token i r) n))"

section \<open>Facts\<close>

text \<open>
  The network versions agree with the cache functions of \<^verbatim>\<open>github_api.rs\<close> on whatever the
  minting call returned.
\<close>

lemma cached_token_is_installation_token:
  assumes "cached_token E now jwt base i r n = Some (res, r', n')"
  shows "\<exists>minted. installation_token now minted i r = (res, r')"
proof (cases "r_get now (cache_key i) r")
  case None
  with assms obtain minted n1 where "mint_installation_token E jwt base i n = Some (minted, n1)"
    by (auto simp: cached_token_def)
  with None assms show ?thesis
    by (intro exI [of _ minted]) (cases "installation_token now minted i r", simp add: cached_token_def)
qed (use assms in \<open>auto simp: cached_token_def installation_token_def\<close>)

lemma workspace_token_refines:
  assumes "workspace_token_fresh E now jwt base org d r n = Some (res, r', n')"
  shows "\<exists>minted. organization_installation_token_fresh now minted org d r = (res, r')"
proof (cases "organization_installation_id org d")
  case (Some i)
  with assms obtain x where "cached_token E now jwt base i (invalidate_installation_token i r) n = Some (x, r', n')"
    and "res = map_sum id Some x" by (auto simp: workspace_token_fresh_def)
  then obtain minted where "installation_token now minted i (invalidate_installation_token i r) = (x, r')"
    using cached_token_is_installation_token by blast
  with Some \<open>res = map_sum id Some x\<close> show ?thesis
    by (auto simp: organization_installation_token_fresh_def intro!: exI [of _ minted])
qed (use assms in \<open>auto simp: workspace_token_fresh_def organization_installation_token_fresh_def\<close>)

text \<open>A fresh token is always minted: the cache is never read.\<close>

lemma fresh_token_minted:
  assumes "workspace_token_fresh E now jwt base org d r n = Some (Inr (Some token), r', n')"
  shows "\<exists>i minted. organization_installation_id org d = Some i \<and>
    mint_installation_token E jwt base i n = Some (Inr minted, n') \<and> token = it_token minted"
proof -
  from assms obtain i where i: "organization_installation_id org d = Some i"
    and run: "cached_token E now jwt base i (invalidate_installation_token i r) n = Some (Inr token, r', n')"
    by (auto simp: workspace_token_fresh_def map_sum_Inr split: option.splits)
  have "r_get now (cache_key i) (invalidate_installation_token i r) = None"
    by (simp add: invalidate_installation_token_def redis_store.get_del)
  with i run show ?thesis
    by (auto simp: cached_token_def installation_token_def Let_def split: option.splits prod.splits sum.splits)
qed

lemma pick_email_verified: "pick_email emails = Inr email \<Longrightarrow> \<exists>e\<in>set emails. er_email e = email \<and> er_verified e"
  by (cases "find (\<lambda>e. er_primary e \<and> er_verified e) emails"; cases "find er_verified emails")
    (auto simp: pick_email_def dest!: find_SomeD)

end
