(* ===== verification/Installations.thy ===== *)
theory Installations
  imports GitHub_App
begin

text \<open>
  \<^verbatim>\<open>gateway/src/installations.rs\<close>: the link between a GitHub App installation and a
  workspace. The deletion of an installation row includes the \<open>ON DELETE SET NULL\<close>
  action of the workspaces' foreign key (\<^verbatim>\<open>infra/migrations\<close> 000013).
\<close>

definition installation_row :: "timestamp \<Rightarrow> Installation \<Rightarrow> github_installation" where
  "installation_row now inst =
     \<lparr>gi_installation_id = in_installation_id inst, gi_account_login = in_account_login inst,
      gi_account_id = in_account_id inst, gi_target_type = in_target_type inst,
      gi_repository_selection = in_repository_selection inst,
      gi_suspended_at = (if in_suspended inst then Some now else None)\<rparr>"

definition merge_installation ::
  "timestamp \<Rightarrow> Installation \<Rightarrow> github_installation \<Rightarrow> github_installation \<Rightarrow> github_installation" where
  "merge_installation now inst new old =
     old\<lparr>gi_account_login := gi_account_login new, gi_account_id := gi_account_id new,
         gi_target_type := gi_target_type new,
         gi_repository_selection := gi_repository_selection new,
         gi_suspended_at :=
           (if in_suspended inst then coalesce (gi_suspended_at old) (Some now) else None)\<rparr>"

definition upsert_installation :: "timestamp \<Rightarrow> Installation \<Rightarrow> db \<Rightarrow> db" where
  "upsert_installation now inst d =
     d\<lparr>github_installations :=
         upsert gi_installation_id (merge_installation now inst) (installation_row now inst)
           (github_installations d)\<rparr>"

definition personal_organization :: "uuid \<Rightarrow> db \<Rightarrow> uuid option" where
  "personal_organization user_id d =
     (case sort_key o_created_at
             (filter (\<lambda>org. o_created_by org = Some user_id \<and> o_kind org = Personal \<and>
                            o_deleted_at org = None) (organizations d)) of
        [] \<Rightarrow> None
      | org # _ \<Rightarrow> Some (o_id org))"

definition link_to_personal_organization :: "uuid \<Rightarrow> int \<Rightarrow> uuid tx" where
  "link_to_personal_organization user_id installation_id d =
     (case personal_organization user_id d of
        None \<Rightarrow> Inl (Internal ''signed-in user has no personal workspace'')
      | Some organization_id \<Rightarrow>
          if \<not> (\<exists>g\<in>set (github_installations d). gi_installation_id g = installation_id)
          then Inl (Internal ''organizations_github_installation_fkey'')
          else
            let cleared = upd_where (\<lambda>org. o_github_installation_id org = Some installation_id \<and>
                                           o_id org \<noteq> organization_id)
                            (\<lambda>org. org\<lparr>o_github_installation_id := None\<rparr>) (organizations d);
                linked = upd_where (\<lambda>org. o_id org = organization_id)
                           (\<lambda>org. org\<lparr>o_github_installation_id := Some installation_id\<rparr>) cleared
            in Inr (organization_id, d\<lparr>organizations := linked\<rparr>))"

definition set_suspended :: "timestamp \<Rightarrow> int \<Rightarrow> bool \<Rightarrow> db \<Rightarrow> db" where
  "set_suspended now installation_id suspended d =
     d\<lparr>github_installations :=
         upd_where (\<lambda>g. gi_installation_id g = installation_id)
           (\<lambda>g. g\<lparr>gi_suspended_at :=
                    (if suspended then coalesce (gi_suspended_at g) (Some now) else None)\<rparr>)
           (github_installations d)\<rparr>"

definition linked_organizations :: "int \<Rightarrow> db \<Rightarrow> uuid set" where
  "linked_organizations installation_id d =
     o_id ` set (filter (\<lambda>org. o_github_installation_id org = Some installation_id) (organizations d))"

definition remove_installation :: "int \<Rightarrow> db \<Rightarrow> db" where
  "remove_installation installation_id d =
     d\<lparr>repositories :=
         upd_where (\<lambda>r. r_tracking_enabled r \<and>
                        r_organization_id r \<in> linked_organizations installation_id d)
           (\<lambda>r. r\<lparr>r_tracking_enabled := False\<rparr>) (repositories d),
       github_installations :=
         del_where (\<lambda>g. gi_installation_id g = installation_id) (github_installations d),
       organizations :=
         (if \<exists>g\<in>set (github_installations d). gi_installation_id g = installation_id
          then upd_where (\<lambda>org. o_github_installation_id org = Some installation_id)
                 (\<lambda>org. org\<lparr>o_github_installation_id := None\<rparr>) (organizations d)
          else organizations d)\<rparr>"

definition untrack_repositories :: "int list \<Rightarrow> db \<Rightarrow> db" where
  "untrack_repositories github_repo_ids d =
     (if github_repo_ids = [] then d
      else d\<lparr>repositories :=
               upd_where (\<lambda>r. r_tracking_enabled r \<and> r_github_repo_id r \<in> set github_repo_ids)
                 (\<lambda>r. r\<lparr>r_tracking_enabled := False\<rparr>) (repositories d)\<rparr>)"

section \<open>The invariant of the link\<close>

text \<open>The pairs of a workspace and the installation it points at.\<close>

definition links :: "organization list \<Rightarrow> (uuid \<times> int) set" where
  "links orgs = {(o_id a, i) | a i. a \<in> set orgs \<and> o_github_installation_id a = Some i}"

definition installations_inv :: "db \<Rightarrow> bool" where
  "installations_inv d \<longleftrightarrow>
     distinct (map gi_installation_id (github_installations d)) \<and>
     distinct (map o_id (organizations d)) \<and>
     inj_on snd (links (organizations d)) \<and>
     snd ` links (organizations d) \<subseteq> set (map gi_installation_id (github_installations d))"

lemma installations_inv_rows:
  assumes "installations_inv d" and "distinct (map gi_installation_id rows)"
    and "set (map gi_installation_id (github_installations d)) \<subseteq> set (map gi_installation_id rows)"
  shows "installations_inv (d\<lparr>github_installations := rows\<rparr>)"
proof -
  have "snd ` links (organizations d) \<subseteq> set (map gi_installation_id rows)"
    using assms(1,3) unfolding installations_inv_def by (elim conjE) (rule order_trans)
  with assms(1,2) show ?thesis by (simp add: installations_inv_def)
qed

lemma linked_installation_known:
  assumes "installations_inv d" and "(k, i) \<in> links (organizations d)"
  shows "i \<in> gi_installation_id ` set (github_installations d)"
proof -
  have "snd (k, i) \<in> snd ` links (organizations d)" using assms(2) by (rule imageI)
  with assms(1) show ?thesis by (auto simp: installations_inv_def)
qed

lemma upsert_installation_inv:
  assumes inv: "installations_inv d"
  shows "installations_inv (upsert_installation now inst d)"
proof -
  let ?rows = "upsert gi_installation_id (merge_installation now inst) (installation_row now inst) (github_installations d)"
  have keys: "map gi_installation_id ?rows =
      (if in_installation_id inst \<in> gi_installation_id ` set (github_installations d)
       then map gi_installation_id (github_installations d)
       else map gi_installation_id (github_installations d) @ [in_installation_id inst])"
    by (auto simp: upsert_def installation_row_def image_iff merge_installation_def intro!: map_upd_where)
  have "distinct (map gi_installation_id ?rows)"
    unfolding keys using inv by (simp add: installations_inv_def)
  moreover have "set (map gi_installation_id (github_installations d)) \<subseteq> set (map gi_installation_id ?rows)"
    unfolding keys by auto
  ultimately show ?thesis unfolding upsert_installation_def by (rule installations_inv_rows [OF inv])
qed

lemma set_suspended_inv:
  assumes inv: "installations_inv d"
  shows "installations_inv (set_suspended now i b d)"
proof -
  let ?rows = "upd_where (\<lambda>g. gi_installation_id g = i)
      (\<lambda>g. g\<lparr>gi_suspended_at := (if b then coalesce (gi_suspended_at g) (Some now) else None)\<rparr>) (github_installations d)"
  have keys: "map gi_installation_id ?rows = map gi_installation_id (github_installations d)"
    by (rule map_upd_where) simp
  have "distinct (map gi_installation_id ?rows)"
    unfolding keys using inv by (simp add: installations_inv_def)
  moreover have "set (map gi_installation_id (github_installations d)) \<subseteq> set (map gi_installation_id ?rows)"
    unfolding keys by simp
  ultimately show ?thesis unfolding set_suspended_def by (rule installations_inv_rows [OF inv])
qed

lemma upd_repositories_inv: "installations_inv d \<Longrightarrow> installations_inv (d\<lparr>repositories := rs\<rparr>)"
  by (simp add: installations_inv_def)

lemma untrack_inv: "installations_inv d \<Longrightarrow> installations_inv (untrack_repositories ids d)"
  by (simp add: untrack_repositories_def upd_repositories_inv)

lemma mem_links: "(k, i) \<in> links orgs \<longleftrightarrow> (\<exists>a\<in>set orgs. o_id a = k \<and> o_github_installation_id a = Some i)"
  by (auto simp: links_def)

text \<open>Clearing links that match, or setting the link of one workspace, changes no other pair.\<close>

lemma links_clear:
  assumes "(k, j) \<in> links (upd_where P (\<lambda>org. org\<lparr>o_github_installation_id := None\<rparr>) orgs)"
  shows "\<exists>a\<in>set orgs. o_id a = k \<and> o_github_installation_id a = Some j \<and> \<not> P a"
  using assms unfolding mem_links set_upd_where by (fastforce split: if_splits)

lemma links_set:
  assumes "(k', j) \<in> links (upd_where (\<lambda>org. o_id org = k) (\<lambda>org. org\<lparr>o_github_installation_id := Some i\<rparr>) orgs)"
  shows "(k', j) = (k, i) \<or> k' \<noteq> k \<and> (k', j) \<in> links orgs"
  using assms unfolding mem_links set_upd_where by (fastforce split: if_splits)

lemma ids_upd_link:
  "map o_id (upd_where P (\<lambda>org. org\<lparr>o_github_installation_id := l\<rparr>) orgs) = map o_id orgs"
  by (rule map_upd_where) simp

lemma inj_on_snd_insert: "inj_on snd S \<Longrightarrow> i \<notin> snd ` S \<Longrightarrow> inj_on snd (insert (k, i) S)"
  by (auto simp: inj_on_def image_iff)

lemma remove_inv:
  assumes inv: "installations_inv d"
  shows "installations_inv (remove_installation i d)"
proof -
  let ?d = "remove_installation i d"
  have sub: "links (organizations ?d) \<subseteq> links (organizations d) - UNIV \<times> {i}"
  proof (cases "\<exists>g\<in>set (github_installations d). gi_installation_id g = i")
    case True
    then have orgs: "organizations ?d = upd_where (\<lambda>org. o_github_installation_id org = Some i)
        (\<lambda>org. org\<lparr>o_github_installation_id := None\<rparr>) (organizations d)"
      by (simp add: remove_installation_def)
    show ?thesis unfolding orgs by (auto dest!: links_clear simp: mem_links)
  next
    case False
    then have "(k, i) \<notin> links (organizations d)" for k
      using linked_installation_known [OF inv, of k i] by auto
    with False show ?thesis by (auto simp: remove_installation_def)
  qed
  have "set (map gi_installation_id (github_installations ?d)) =
      set (map gi_installation_id (github_installations d)) - {i}"
    by (auto simp: remove_installation_def)
  then have "snd ` links (organizations ?d) \<subseteq> set (map gi_installation_id (github_installations ?d))"
    using sub linked_installation_known [OF inv] by auto
  moreover have "inj_on snd (links (organizations ?d))"
    using inv sub unfolding installations_inv_def by (meson Diff_subset inj_on_subset order_trans)
  moreover have "map o_id (organizations ?d) = map o_id (organizations d)"
    by (simp add: remove_installation_def ids_upd_link)
  moreover have "distinct (map gi_installation_id (github_installations ?d))"
    using inv by (simp add: remove_installation_def distinct_del_where installations_inv_def)
  ultimately show ?thesis using inv by (simp add: installations_inv_def)
qed

lemma link_inv:
  assumes inv: "installations_inv d" and run: "link_to_personal_organization user i d = Inr (org, d')"
  shows "installations_inv d'"
proof -
  let ?clear = "upd_where (\<lambda>o'. o_github_installation_id o' = Some i \<and> o_id o' \<noteq> org)
      (\<lambda>o'. o'\<lparr>o_github_installation_id := None\<rparr>) (organizations d)"
  let ?link = "upd_where (\<lambda>o'. o_id o' = org) (\<lambda>o'. o'\<lparr>o_github_installation_id := Some i\<rparr>) ?clear"
  let ?rest = "links (organizations d) - UNIV \<times> {i}"
  have d': "d' = d\<lparr>organizations := ?link\<rparr>"
    and known: "i \<in> set (map gi_installation_id (github_installations d))"
    using run by (auto simp: link_to_personal_organization_def Let_def split: option.splits if_splits)
  have sub: "links ?link \<subseteq> insert (org, i) ?rest"
  proof
    fix p assume "p \<in> links ?link"
    then obtain k j where p: "p = (k, j)" and "(k, j) \<in> links ?link" by (cases p) auto
    from links_set [OF this(2)] show "p \<in> insert (org, i) ?rest"
      by (auto simp: p dest!: links_clear) (auto simp: mem_links)
  qed
  have "inj_on snd (insert (org, i) ?rest)"
    using inv unfolding installations_inv_def by (intro inj_on_snd_insert) (auto simp: inj_on_def)
  then have "inj_on snd (links ?link)" using sub by (rule inj_on_subset)
  moreover have "snd ` links ?link \<subseteq> set (map gi_installation_id (github_installations d))"
    using sub known linked_installation_known [OF inv] by auto
  ultimately show ?thesis
    using inv by (simp add: installations_inv_def d' ids_upd_link)
qed

section \<open>Properties\<close>

text \<open>
  C14. Every operation on installations keeps the link well formed: one row per
  installation, a workspace points only at a recorded installation, and no two workspaces
  share one (so the \<open>UNIQUE\<close> column never collides when the link moves).
\<close>

theorem installation_link_invariant:
  assumes "installations_inv d"
  shows "installations_inv (upsert_installation now inst d) \<and>
    installations_inv (set_suspended now i b d) \<and>
    installations_inv (remove_installation i d) \<and>
    installations_inv (untrack_repositories ids d) \<and>
    (link_to_personal_organization user i d = Inr (org, d') \<longrightarrow> installations_inv d')"
  using assms upsert_installation_inv set_suspended_inv remove_inv untrack_inv link_inv by blast

definition demo_org :: organization where
  "demo_org =
     \<lparr>o_id = 2, o_slug = ''ada'', o_name = ''Ada'', o_kind = Personal, o_github_installation_id = None,
      o_created_by = Some 3, o_created_at = 0, o_deleted_at = None\<rparr>"

definition demo_installation :: Installation where
  "demo_installation =
     \<lparr>in_installation_id = 5, in_account_login = ''ada'', in_account_id = 8, in_target_type = ''User'',
      in_repository_selection = ''all'', in_suspended = True\<rparr>"

definition demo_org_db :: db where
  "demo_org_db = empty_db\<lparr>next_id := 10, organizations := [demo_org],
     github_installations := [installation_row 0 demo_installation]\<rparr>"

lemma demo_org_db_inv: "installations_inv demo_org_db"
  by (simp add: installations_inv_def demo_org_db_def demo_org_def empty_db_def links_def)

theorem installation_link_invariant_witness:
  "\<exists>d'. link_to_personal_organization 3 5 demo_org_db = Inr (2, d') \<and> installations_inv d'"
proof -
  obtain d' where "link_to_personal_organization 3 5 demo_org_db = Inr (2, d')"
    by (simp add: link_to_personal_organization_def personal_organization_def demo_org_db_def demo_org_def
        empty_db_def installation_row_def demo_installation_def Let_def)
  with installation_link_invariant [OF demo_org_db_inv, of 0 demo_installation 5 True "[]" 3 2 d']
  show ?thesis by blast
qed

text \<open>
  Removing an installation silences it: no workspace points at it any more, and every
  repository of a workspace that did is no longer tracked, so its webhooks are ignored.
\<close>

theorem removed_installation_is_silent:
  assumes "installations_inv d"
  shows "linked_organizations i (remove_installation i d) = {} \<and>
    i \<notin> gi_installation_id ` set (github_installations (remove_installation i d)) \<and>
    (\<forall>r\<in>set (repositories (remove_installation i d)).
       r_organization_id r \<in> linked_organizations i d \<longrightarrow> \<not> r_tracking_enabled r)"
proof (intro conjI)
  have gone: "i \<notin> gi_installation_id ` set (github_installations (remove_installation i d))"
    by (auto simp: remove_installation_def)
  have "(k, i) \<notin> links (organizations (remove_installation i d))" for k
    using linked_installation_known [OF remove_inv [OF assms, of i], of k i] gone by blast
  then show "linked_organizations i (remove_installation i d) = {}"
    by (auto simp: linked_organizations_def mem_links)
qed (auto simp: remove_installation_def set_upd_where split: if_splits)

theorem removed_installation_is_silent_witness: "linked_organizations 5 (remove_installation 5 demo_org_db) = {}"
  using removed_installation_is_silent [OF demo_org_db_inv, of 5] by blast

text \<open>
  The suspension moment is the first one: while GitHub keeps reporting an installation
  suspended, through \<open>suspend\<close> events or refreshed metadata, the stored moment does not
  move; the first report of an active installation clears it.
\<close>

theorem suspension_moment_is_first:
  assumes "installations_inv d" and "g \<in> set (github_installations d)" and "gi_suspended_at g = Some t"
    and "gi_installation_id g = in_installation_id inst"
    and "g' \<in> set (github_installations (upsert_installation now inst d)) \<and> b = in_suspended inst \<or>
         g' \<in> set (github_installations (set_suspended now (gi_installation_id g) b d))"
    and "gi_installation_id g' = gi_installation_id g"
  shows "gi_suspended_at g' = (if b then Some t else None)"
proof -
  have only: "x = g" if "x \<in> set (github_installations d)" "gi_installation_id x = in_installation_id inst" for x
    using that assms(1,2,4) distinct_key_unique [of gi_installation_id "github_installations d" x g]
    by (simp add: installations_inv_def)
  have ex: "\<exists>r\<in>set (github_installations d). gi_installation_id r = gi_installation_id (installation_row now inst)"
    using assms(2,4) by (auto simp: installation_row_def)
  from assms(5) show ?thesis
  proof
    assume "g' \<in> set (github_installations (upsert_installation now inst d)) \<and> b = in_suspended inst"
    then show ?thesis
      using ex only assms(3,4,6)
      by (auto simp: upsert_installation_def upsert_def set_upd_where installation_row_def merge_installation_def
          split: if_splits dest!: only)
  next
    assume "g' \<in> set (github_installations (set_suspended now (gi_installation_id g) b d))"
    then show ?thesis
      using only assms(3,4,6) by (auto simp: set_suspended_def set_upd_where split: if_splits dest!: only)
  qed
qed

theorem suspension_moment_is_first_witness:
  "gi_suspended_at (hd (github_installations (set_suspended 99 5 True demo_org_db))) = Some 0"
  using suspension_moment_is_first [OF demo_org_db_inv, of "installation_row 0 demo_installation" 0
      demo_installation "hd (github_installations (set_suspended 99 5 True demo_org_db))" 99 True]
  by (simp add: demo_org_db_def installation_row_def demo_installation_def set_suspended_def)

end
