(* ===== verification/Sign_In.thy ===== *)
theory Sign_In
  imports Organizations GitHub_OAuth Installations
begin

text \<open>
  \<^verbatim>\<open>gateway/src/routes/auth.rs\<close> and \<^verbatim>\<open>gateway/src/routes/me.rs\<close>: signing in with GitHub,
  the identity and personal workspace a sign-in creates or refreshes, linking an installation
  after it was set up, signing out, and the signed-in user's own page. A handler is a function
  of the database, Redis and the network; \<open>None\<close> is a handler that waits for GitHub, and
  \<open>None\<close> as its answer is a panic. One reading of the clock serves a handler.
\<close>

section \<open>Configuration and answers\<close>

record site =
  st_client_id :: string
  st_client_secret :: string
  st_redirect_uri :: string
  st_frontend_url :: string
  st_session_ttl :: int
  st_environment :: Environment
  st_app_id :: string
  st_app_slug :: string
  st_api_base :: string
  st_cipher :: aead
  st_sign :: "AppClaims \<Rightarrow> string + string"
  st_encode :: "u8 list \<Rightarrow> string"

record web =
  rs_status :: nat
  rs_location :: "string option"
  rs_set_cookie :: "string option"

definition redirect_to :: "string \<Rightarrow> web" where
  "redirect_to url = \<lparr>rs_status = 303, rs_location = Some url, rs_set_cookie = None\<rparr>"

text \<open>\<open>HeaderValue::from_str\<close>.\<close>

definition header_value :: "string \<Rightarrow> string result" where
  "header_value s =
     (if list_all (\<lambda>c. (32 \<le> (of_char c :: nat) \<and> (of_char c :: nat) < 127) \<or> c = CHR 0x09) s then Inr s
      else Inl (Internal ''failed to parse header value''))"

datatype SignInError = AccessDenied | ExpiredState | InvalidRequest

definition from_github :: "string \<Rightarrow> SignInError" where
  "from_github error = (if error = ''access_denied'' then AccessDenied else InvalidRequest)"

fun sign_in_error_str :: "SignInError \<Rightarrow> string" where
  "sign_in_error_str AccessDenied = ''access_denied''"
| "sign_in_error_str ExpiredState = ''expired_state''"
| "sign_in_error_str InvalidRequest = ''invalid_request''"

definition sign_in_redirect :: "ext \<Rightarrow> site \<Rightarrow> SignInError \<Rightarrow> web" where
  "sign_in_redirect E site error =
     redirect_to (url_query E (st_frontend_url site) [(''error'', sign_in_error_str error)])"

section \<open>The identity\<close>

definition identity_conflict :: AppError where
  "identity_conflict = Conflict ''this GitHub identity or email is already connected''"

definition find_account :: "int \<Rightarrow> db \<Rightarrow> github_account option" where
  "find_account github_user_id d = find (\<lambda>a. ga_github_user_id a = github_user_id) (github_accounts d)"

definition insert_user :: "ext \<Rightarrow> timestamp \<Rightarrow> GitHubUser \<Rightarrow> uuid tx" where
  "insert_user E now user d =
     (if list_ex (\<lambda>u. citext E (u_email u) = citext E (gu_email user)) (users d) then Inl identity_conflict
      else Inr (next_id d,
             d\<lparr>next_id := Suc (next_id d),
               users := users d @
                 [\<lparr>u_id = next_id d, u_email = gu_email user, u_name = gu_name user,
                   u_avatar_url = gu_avatar_url user, u_is_active = True, u_last_login_at = Some now,
                   u_deleted_at = None, u_created_at = now\<rparr>]\<rparr>))"

definition identify_user :: "ext \<Rightarrow> timestamp \<Rightarrow> GitHubUser \<Rightarrow> uuid tx" where
  "identify_user E now user d =
     (case find_account (gu_id user) d of
        Some account \<Rightarrow> Inr (ga_user_id account, d)
      | None \<Rightarrow>
          (case find (\<lambda>u. bound_fold E (u_email u) = bound_fold E (gu_email user) \<and> u_deleted_at u = None) (users d) of
             Some u \<Rightarrow>
               if list_ex (\<lambda>a. ga_user_id a = u_id u) (github_accounts d)
               then Inl (Conflict ''this verified email belongs to another connected GitHub identity'')
               else Inr (u_id u, d)
           | None \<Rightarrow> insert_user E now user d))"

definition refresh_user :: "ext \<Rightarrow> timestamp \<Rightarrow> uuid \<Rightarrow> GitHubUser \<Rightarrow> unit tx" where
  "refresh_user E now user_id user d =
     (if list_ex (\<lambda>u. u_id u = user_id) (users d) \<and>
         list_ex (\<lambda>u. u_id u \<noteq> user_id \<and> citext E (u_email u) = citext E (gu_email user)) (users d)
      then Inl identity_conflict
      else Inr ((), d\<lparr>users := upd_where (\<lambda>u. u_id u = user_id)
             (\<lambda>u. u\<lparr>u_email := gu_email user, u_name := gu_name user, u_avatar_url := gu_avatar_url user,
                    u_last_login_at := Some now\<rparr>) (users d)\<rparr>))"

definition account_row :: "timestamp \<Rightarrow> uuid \<Rightarrow> GitHubUser \<Rightarrow> OAuthToken \<Rightarrow> u8 list \<Rightarrow> u8 list option \<Rightarrow> github_account" where
  "account_row now user_id user token access refresh =
     \<lparr>ga_user_id = user_id, ga_github_user_id = gu_id user, ga_login = gu_login user,
      ga_avatar_url = gu_avatar_url user, ga_access_token_encrypted = access,
      ga_refresh_token_encrypted = refresh, ga_token_expires_at = ot_expires_at token,
      ga_scopes = ot_scopes token, ga_connected_at = now\<rparr>"

definition merge_account :: "github_account \<Rightarrow> github_account \<Rightarrow> github_account" where
  "merge_account new old =
     old\<lparr>ga_login := ga_login new, ga_avatar_url := ga_avatar_url new,
         ga_access_token_encrypted := ga_access_token_encrypted new,
         ga_refresh_token_encrypted := ga_refresh_token_encrypted new,
         ga_token_expires_at := ga_token_expires_at new, ga_scopes := ga_scopes new,
         ga_connected_at := ga_connected_at new\<rparr>"

definition put_account :: "github_account \<Rightarrow> unit tx" where
  "put_account new d =
     (if find_account (ga_github_user_id new) d = None \<and> list_ex (\<lambda>a. ga_user_id a = ga_user_id new) (github_accounts d)
      then Inl identity_conflict
      else if find_account (ga_github_user_id new) d = None \<and> ga_user_id new \<notin> set (map u_id (users d))
      then Inl (Internal ''github_accounts_user_id_fkey'')
      else Inr ((), d\<lparr>github_accounts := upsert ga_github_user_id merge_account new (github_accounts d)\<rparr>))"

text \<open>The first eight of the 32 hexadecimal digits of the user's UUID.\<close>

definition slug_char :: "string \<Rightarrow> string" where
  "slug_char character =
     (if ascii_alphanumeric_group character \<or> character = ''-'' then map to_ascii_lowercase character else ''-'')"

definition personal_slug :: "ext \<Rightarrow> string \<Rightarrow> uuid \<Rightarrow> string" where
  "personal_slug E login user_id =
     trim_matches CHR ''-'' (concat (map slug_char (chars login))) @ ''-'' @
     take 8 (filter (\<lambda>c. c \<noteq> CHR ''-'') (show_uuid E user_id))"

definition has_personal :: "uuid \<Rightarrow> db \<Rightarrow> bool" where
  "has_personal user_id d \<longleftrightarrow>
     (\<exists>x\<in>set (organizations d). o_created_by x = Some user_id \<and> o_kind x = Personal \<and> o_deleted_at x = None)"

definition ensure_personal_organization :: "ext \<Rightarrow> timestamp \<Rightarrow> uuid \<Rightarrow> string \<Rightarrow> string option \<Rightarrow> unit tx" where
  "ensure_personal_organization E now user_id login name d =
     (if has_personal user_id d then Inr ((), d)
      else
        let organization_id = next_id d;
            slug = personal_slug E login user_id;
            display_name = (case name of None \<Rightarrow> login | Some n \<Rightarrow> n) @ [CHR 0x27] @ ''s workspace''
        in if list_ex (\<lambda>x. citext E (o_slug x) = citext E slug) (organizations d)
           then Inl (Internal ''organizations_slug_key'')
           else if user_id \<notin> set (map u_id (users d)) then Inl (Internal ''organizations_created_by_fkey'')
           else Inr ((), d\<lparr>next_id := next_id d + 2,
                  organizations := organizations d @
                    [\<lparr>o_id = organization_id, o_slug = slug, o_name = display_name, o_kind = Personal,
                      o_github_installation_id = None, o_created_by = Some user_id, o_created_at = now,
                      o_deleted_at = None\<rparr>],
                  organization_members := organization_members d @
                    [\<lparr>m_id = Suc (next_id d), m_organization_id = organization_id, m_user_id = user_id,
                      m_role = ''owner'', m_invited_by = None, m_created_at = now\<rparr>]\<rparr>))"

record SignedIn =
  si_id :: uuid
  si_email :: string
  si_name :: "string option"
  si_avatar_url :: "string option"
  si_github_login :: string

text \<open>The transaction; the advisory lock makes the sign-ins of one GitHub identity take turns.\<close>

definition persist_tx ::
  "ext \<Rightarrow> timestamp \<Rightarrow> AuditContext \<Rightarrow> GitHubUser \<Rightarrow> OAuthToken \<Rightarrow> u8 list \<Rightarrow> u8 list option \<Rightarrow> SignedIn tx" where
  "persist_tx E now context user token access refresh d =
     (case identify_user E now user d of Inl e \<Rightarrow> Inl e | Inr (user_id, d1) \<Rightarrow>
      (case refresh_user E now user_id user d1 of Inl e \<Rightarrow> Inl e | Inr (_, d2) \<Rightarrow>
       (case put_account (account_row now user_id user token access refresh) d2 of Inl e \<Rightarrow> Inl e | Inr (_, d3) \<Rightarrow>
        (case ensure_personal_organization E now user_id (gu_login user) (gu_name user) d3 of
           Inl e \<Rightarrow> Inl e
         | Inr (_, d4) \<Rightarrow>
             (case write_actor ''user'' (Some user_id) None context None ''auth.logged_in'' (Some ''user'')
                     (Some user_id) (JObj [(''github_user_id'', JInt (gu_id user))]) d4 of
                Inl e \<Rightarrow> Inl e
              | Inr (_, d5) \<Rightarrow>
                  Inr (\<lparr>si_id = user_id, si_email = gu_email user, si_name = gu_name user,
                        si_avatar_url = gu_avatar_url user, si_github_login = gu_login user\<rparr>, d5))))))"

definition persist_identity ::
  "ext \<Rightarrow> aead \<Rightarrow> u8 list option \<times> u8 list option \<Rightarrow> timestamp \<Rightarrow> AuditContext \<Rightarrow> GitHubUser \<Rightarrow> OAuthToken \<Rightarrow> db
     \<Rightarrow> SignedIn result \<times> db" where
  "persist_identity E cipher nonces now context user token d =
     (case encrypt cipher (fst nonces) (ot_access_token token) of
        Inl e \<Rightarrow> (Inl (crypto_error e), d)
      | Inr access \<Rightarrow>
          (case (case ot_refresh_token token of
                   None \<Rightarrow> Inr None
                 | Some refresh \<Rightarrow> map_sum id Some (encrypt cipher (snd nonces) refresh)) of
             Inl e \<Rightarrow> (Inl (crypto_error e), d)
           | Inr refresh \<Rightarrow> transact (persist_tx E now context user token access refresh) d))"

section \<open>Signing in and out\<close>

definition OAUTH_STATE_BYTES :: nat where
  "OAUTH_STATE_BYTES = 32"

definition github_login ::
  "ext \<Rightarrow> site \<Rightarrow> (nat \<Rightarrow> u8 list option) \<Rightarrow> timestamp \<Rightarrow> redis \<Rightarrow> web result \<times> redis" where
  "github_login E site getrandom now r =
     (case random_urlsafe (st_encode site) getrandom OAUTH_STATE_BYTES of
        Inl e \<Rightarrow> (Inl (crypto_error e), r)
      | Inr csrf_state \<Rightarrow>
          (case store_oauth_state E now csrf_state r of
             (Inl e, r') \<Rightarrow> (Inl e, r')
           | (Inr _, r') \<Rightarrow>
               (map_sum id (\<lambda>url. \<lparr>rs_status = 307, rs_location = Some url, rs_set_cookie = None\<rparr>)
                  (authorize_url E (st_client_id site) (st_redirect_uri site) csrf_state), r')))"

record CallbackQuery =
  cq_code :: "string option"
  cq_state :: "string option"
  cq_error :: "string option"
  cq_error_description :: "string option"

text \<open>From the exchanged code on: the identity, the session and the cookie.\<close>

definition sign_in ::
  "ext \<Rightarrow> site \<Rightarrow> u8 list option \<times> u8 list option \<Rightarrow> (nat \<Rightarrow> u8 list option) \<Rightarrow> timestamp \<Rightarrow> AuditContext
     \<Rightarrow> GitHubUser \<Rightarrow> OAuthToken \<Rightarrow> db \<Rightarrow> redis \<Rightarrow> web result \<times> db \<times> redis" where
  "sign_in E site nonces getrandom now context user token d r =
     (case persist_identity E (st_cipher site) nonces now context user token d of
        (Inl e, d') \<Rightarrow> (Inl e, d', r)
      | (Inr signed_in, d') \<Rightarrow>
          (case issue E (st_encode site) getrandom now (st_session_ttl site) (si_id signed_in) r of
             (Inl e, r') \<Rightarrow> (Inl e, d', r')
           | (Inr session_token, r') \<Rightarrow>
               (map_sum id (\<lambda>cookie. (redirect_to (st_frontend_url site))\<lparr>rs_set_cookie := Some cookie\<rparr>)
                  (header_value (set_cookie session_token (st_session_ttl site) (st_environment site))),
                d', r')))"

definition github_callback ::
  "ext \<Rightarrow> site \<Rightarrow> u8 list option \<times> u8 list option \<Rightarrow> (nat \<Rightarrow> u8 list option) \<Rightarrow> timestamp \<Rightarrow> AuditContext
     \<Rightarrow> CallbackQuery \<Rightarrow> db \<Rightarrow> redis \<Rightarrow> net \<Rightarrow> (web result option \<times> db \<times> redis \<times> net) option" where
  "github_callback E site nonces getrandom now context query d r n =
     (case cq_state query of
        None \<Rightarrow> Some (Some (Inr (sign_in_redirect E site InvalidRequest)), d, r, n)
      | Some csrf_state \<Rightarrow>
          (case consume_oauth_state E now csrf_state r of
             (False, r1) \<Rightarrow> Some (Some (Inr (sign_in_redirect E site ExpiredState)), d, r1, n)
           | (True, r1) \<Rightarrow>
               (case cq_error query of
                  Some error \<Rightarrow> Some (Some (Inr (sign_in_redirect E site (from_github error))), d, r1, n)
                | None \<Rightarrow>
                    (case cq_code query of
                       None \<Rightarrow> Some (Some (Inr (sign_in_redirect E site InvalidRequest)), d, r1, n)
                     | Some code \<Rightarrow>
                         (case exchange_code E now (st_client_id site) (st_client_secret site) (st_redirect_uri site) code n of
                            None \<Rightarrow> None
                          | Some (Inl e, n1) \<Rightarrow> Some (Some (Inl e), d, r1, n1)
                          | Some (Inr None, n1) \<Rightarrow> Some (None, d, r1, n1)
                          | Some (Inr (Some token), n1) \<Rightarrow>
                              (case fetch_user E n1 of
                                 None \<Rightarrow> None
                               | Some (Inl e, n2) \<Rightarrow> Some (Some (Inl e), d, r1, n2)
                               | Some (Inr user, n2) \<Rightarrow>
                                   (case sign_in E site nonces getrandom now context user token d r1 of
                                      (res, d', r2) \<Rightarrow> Some (Some res, d', r2, n2))))))))"

definition logout ::
  "ext \<Rightarrow> site \<Rightarrow> timestamp \<Rightarrow> AuditContext \<Rightarrow> string option \<Rightarrow> db \<Rightarrow> redis \<Rightarrow> web result \<times> db \<times> redis" where
  "logout E site now context cookies d r =
     (case (case from_headers cookies of None \<Rightarrow> (Inr None, r) | Some token \<Rightarrow> delete_session E now token r) of
        (Inl e, r') \<Rightarrow> (Inl e, d, r')
      | (Inr user, r') \<Rightarrow>
          (case (case user of
                   None \<Rightarrow> (Inr (), d)
                 | Some user_id \<Rightarrow>
                     transact (write_actor ''user'' (Some user_id) None context None ''auth.logged_out''
                       (Some ''user'') (Some user_id) (JObj [])) d) of
             (Inl e, d') \<Rightarrow> (Inl e, d', r')
           | (Inr _, d') \<Rightarrow>
               (map_sum id (\<lambda>cookie. \<lparr>rs_status = 204, rs_location = None, rs_set_cookie = Some cookie\<rparr>)
                  (header_value (clear_cookie (st_environment site))), d', r')))"

section \<open>Linking an installation\<close>

definition current_user :: "ext \<Rightarrow> timestamp \<Rightarrow> string option \<Rightarrow> redis \<Rightarrow> uuid option result" where
  "current_user E now cookies r =
     (case from_headers cookies of None \<Rightarrow> Inr None | Some token \<Rightarrow> resolve E now token r)"

definition link_installation ::
  "timestamp \<Rightarrow> AuditContext \<Rightarrow> uuid \<Rightarrow> Installation \<Rightarrow> db \<Rightarrow> unit result \<times> db" where
  "link_installation now context user_id installation d =
     (let d1 = upsert_installation now installation d
      in case transact (link_to_personal_organization user_id (in_installation_id installation)) d1 of
           (Inl e, d2) \<Rightarrow> (Inl e, d2)
         | (Inr organization_id, d2) \<Rightarrow>
             transact (write_actor ''user'' (Some user_id) None context (Some organization_id) ''installation.linked''
               (Some ''github_installation'') None
               (JObj [(''installation_id'', JInt (in_installation_id installation)),
                      (''account_login'', JStr (in_account_login installation)),
                      (''repository_selection'', JStr (in_repository_selection installation))])) d2)"

definition github_setup ::
  "ext \<Rightarrow> site \<Rightarrow> timestamp \<Rightarrow> AuditContext \<Rightarrow> string option \<Rightarrow> int option \<Rightarrow> db \<Rightarrow> redis \<Rightarrow> net
     \<Rightarrow> (web result \<times> db \<times> net) option" where
  "github_setup E site now context cookies installation d r n =
     (case current_user E now cookies r of
        Inl e \<Rightarrow> Some (Inl e, d, n)
      | Inr None \<Rightarrow> Some (Inr (sign_in_redirect E site InvalidRequest), d, n)
      | Inr (Some user_id) \<Rightarrow>
          (case installation of
             None \<Rightarrow> Some (Inr (redirect_to (st_frontend_url site)), d, n)
           | Some installation_id \<Rightarrow>
               (case user_access_token (st_cipher site) user_id d of
                  Inl e \<Rightarrow> Some (Inl e, d, n)
                | Inr _ \<Rightarrow>
                    (case user_installation_ids E n of
                       None \<Rightarrow> None
                     | Some (Inl e, n1) \<Rightarrow> Some (Inl e, d, n1)
                     | Some (Inr ids, n1) \<Rightarrow>
                         if installation_id \<notin> set ids
                         then Some (Inr (sign_in_redirect E site InvalidRequest), d, n1)
                         else
                           (case fetch_installation E (app_jwt (st_sign site) (st_app_id site) now)
                                   (st_api_base site) installation_id n1 of
                              None \<Rightarrow> None
                            | Some (Inl e, n2) \<Rightarrow> Some (Inl e, d, n2)
                            | Some (Inr inst, n2) \<Rightarrow>
                                (case link_installation now context user_id inst d of
                                   (res, d') \<Rightarrow>
                                     Some (map_sum id (\<lambda>_. redirect_to (st_frontend_url site)) res, d', n2)))))))"

section \<open>The user's own page (me.rs)\<close>

record OrganizationMembership =
  om_id :: uuid
  om_slug :: string
  om_name :: string
  om_kind :: string
  om_role :: string

record MeResponse =
  me_id :: uuid
  me_email :: string
  me_name :: "string option"
  me_avatar_url :: "string option"
  me_last_login_at :: "timestamp option"
  me_created_at :: timestamp
  me_memberships :: "OrganizationMembership list"

definition memberships :: "ext \<Rightarrow> Principal \<Rightarrow> db \<Rightarrow> OrganizationMembership list" where
  "memberships E p d =
     order_by (\<lambda>a b. text_le E (om_name a) (om_name b))
       [\<lparr>om_id = o_id x, om_slug = o_slug x, om_name = o_name x, om_kind = kind_text (o_kind x), om_role = m_role m\<rparr>.
        m \<leftarrow> organization_members d, m_user_id m = p_user_id p,
        x \<leftarrow> organizations d, o_id x = m_organization_id m \<and> o_deleted_at x = None \<and>
          (case p_token_organization_id p of None \<Rightarrow> True | Some scope \<Rightarrow> o_id x = scope)]"

definition me :: "ext \<Rightarrow> Principal \<Rightarrow> db \<Rightarrow> MeResponse result" where
  "me E p d =
     (case find (\<lambda>u. u_id u = p_user_id p \<and> u_is_active u \<and> u_deleted_at u = None) (users d) of
        None \<Rightarrow> Inl Unauthorized
      | Some u \<Rightarrow>
          Inr \<lparr>me_id = u_id u, me_email = u_email u, me_name = u_name u, me_avatar_url = u_avatar_url u,
               me_last_login_at = u_last_login_at u, me_created_at = u_created_at u,
               me_memberships = memberships E p d\<rparr>)"

section \<open>Facts on the identity tables\<close>

definition identity_inv :: "ext \<Rightarrow> db \<Rightarrow> bool" where
  "identity_inv E d \<longleftrightarrow>
     distinct (map u_id (users d)) \<and> (\<forall>u\<in>set (users d). u_id u < next_id d) \<and>
     distinct (map (citext E \<circ> u_email) (users d)) \<and>
     distinct (map ga_github_user_id (github_accounts d)) \<and> distinct (map ga_user_id (github_accounts d)) \<and>
     ga_user_id ` set (github_accounts d) \<subseteq> u_id ` set (users d)"

lemma identify_user_run:
  assumes inv: "identity_inv E d" and run: "identify_user E now user d = Inr (user_id, d1)"
  shows "identity_inv E d1 \<and> user_id \<in> u_id ` set (users d1) \<and> github_accounts d1 = github_accounts d \<and>
    organizations d1 = organizations d \<and> organization_members d1 = organization_members d \<and> next_id d \<le> next_id d1 \<and>
    (case find_account (gu_id user) d of
       Some a \<Rightarrow> user_id = ga_user_id a
     | None \<Rightarrow> user_id \<notin> ga_user_id ` set (github_accounts d))"
proof (cases "find_account (gu_id user) d")
  case (Some a)
  then have "a \<in> set (github_accounts d)" by (auto simp: find_account_def dest: find_SomeD)
  with Some inv run show ?thesis by (auto simp: identify_user_def identity_inv_def)
next
  case None
  show ?thesis
  proof (cases "find (\<lambda>u. bound_fold E (u_email u) = bound_fold E (gu_email user) \<and> u_deleted_at u = None) (users d)")
    case (Some u)
    with None inv run show ?thesis
      by (auto simp: identify_user_def list_ex_iff dest!: find_SomeD split: if_splits)
  next
    case new: None
    with None run have ins: "insert_user E now user d = Inr (user_id, d1)" by (simp add: identify_user_def)
    have fresh: "next_id d \<notin> u_id ` set (users d)" using inv by (auto simp: identity_inv_def)
    then have "next_id d \<notin> ga_user_id ` set (github_accounts d)" using inv by (auto simp: identity_inv_def)
    moreover from ins have d1: "user_id = next_id d" "next_id d1 = Suc (next_id d)" "github_accounts d1 = github_accounts d"
      "organizations d1 = organizations d" "organization_members d1 = organization_members d"
      and us: "\<exists>u. users d1 = users d @ [u] \<and> u_id u = next_id d \<and> u_email u = gu_email user"
      and free: "citext E (gu_email user) \<notin> (citext E \<circ> u_email) ` set (users d)"
      by (auto simp: insert_user_def list_ex_iff split: if_splits)
    moreover have "identity_inv E d1"
      using inv us free fresh unfolding identity_inv_def d1 by (auto simp: less_Suc_eq)
    ultimately show ?thesis using None by auto
  qed
qed

lemma distinct_upd_unique:
  assumes "distinct (map f xs)" and "distinct (map k xs)" and "\<And>x. k (g x) = k x" and "\<And>x. f (g x) = v"
    and "\<And>x. x \<in> set xs \<Longrightarrow> k x \<noteq> i \<Longrightarrow> f x \<noteq> v"
  shows "distinct (map f (upd_where (\<lambda>x. k x = i) g xs))"
  using assms(1,2,5)
proof (induction xs)
  case (Cons x xs)
  show ?case
  proof (cases "k x = i")
    case True
    have "k x \<notin> k ` set xs" using Cons.prems(2) by simp
    then have other: "k y \<noteq> i" if "y \<in> set xs" for y using True that by (metis image_eqI)
    then have "upd_where (\<lambda>x. k x = i) g xs = xs" by (intro upd_where_id) auto
    moreover have "v \<notin> f ` set xs" using Cons.prems(3) other by auto
    ultimately show ?thesis using Cons.prems True assms(4) by simp
  next
    case False
    then have "f x \<noteq> v" using Cons.prems(3) by simp
    then have "f x \<notin> f ` set (upd_where (\<lambda>x. k x = i) g xs)"
      using Cons.prems(1) assms(4) by (auto simp: set_upd_where)
    with Cons False show ?thesis by simp
  qed
qed simp

lemma refresh_user_run:
  assumes inv: "identity_inv E d" and known: "user_id \<in> u_id ` set (users d)" and run: "refresh_user E now user_id user d = Inr (x, d1)"
  shows "identity_inv E d1 \<and> u_id ` set (users d1) = u_id ` set (users d) \<and> github_accounts d1 = github_accounts d \<and>
    organizations d1 = organizations d \<and> organization_members d1 = organization_members d \<and> next_id d1 = next_id d \<and>
    (\<forall>u\<in>set (users d1). u_id u = user_id \<longrightarrow> u_email u = gu_email user \<and> u_last_login_at u = Some now)"
proof -
  let ?g = "\<lambda>u. u\<lparr>u_email := gu_email user, u_name := gu_name user, u_avatar_url := gu_avatar_url user, u_last_login_at := Some now\<rparr>"
  let ?us = "upd_where (\<lambda>u. u_id u = user_id) ?g (users d)"
  have d1: "d1 = d\<lparr>users := ?us\<rparr>"
    and free: "\<And>u. u \<in> set (users d) \<Longrightarrow> u_id u \<noteq> user_id \<Longrightarrow> citext E (u_email u) \<noteq> citext E (gu_email user)"
    using run known by (auto simp: refresh_user_def list_ex_iff split: if_splits)
  have ids: "map u_id ?us = map u_id (users d)" by (rule map_upd_where) simp
  then have set_ids: "u_id ` set ?us = u_id ` set (users d)" by (metis list.set_map)
  have "distinct (map (citext E \<circ> u_email) ?us)"
    using inv free unfolding identity_inv_def
    by (intro distinct_upd_unique [where k = u_id and v = "citext E (gu_email user)"]) auto
  moreover have "\<forall>u\<in>set ?us. u_id u < next_id d"
  proof
    fix u assume "u \<in> set ?us"
    then have "u_id u \<in> u_id ` set (users d)" using set_ids by blast
    with inv show "u_id u < next_id d" by (auto simp: identity_inv_def)
  qed
  ultimately have "identity_inv E d1" using inv ids set_ids by (simp add: d1 identity_inv_def)
  moreover have "\<forall>u\<in>set ?us. u_id u = user_id \<longrightarrow> u_email u = gu_email user \<and> u_last_login_at u = Some now"
  proof (intro ballI impI)
    fix u assume "u \<in> set ?us" and u: "u_id u = user_id"
    then obtain r where "u = (if u_id r = user_id then ?g r else r)" unfolding set_upd_where by blast
    with u show "u_email u = gu_email user \<and> u_last_login_at u = Some now" by (cases "u_id r = user_id") simp_all
  qed
  ultimately show ?thesis using set_ids by (simp add: d1)
qed

lemma put_account_run:
  assumes inv: "identity_inv E d" and run: "put_account new d = Inr (x, d1)"
    and same: "\<And>a. find_account (ga_github_user_id new) d = Some a \<Longrightarrow> ga_user_id a = ga_user_id new"
  shows "identity_inv E d1 \<and> users d1 = users d \<and> organizations d1 = organizations d \<and>
    organization_members d1 = organization_members d \<and> next_id d1 = next_id d \<and>
    (\<exists>a\<in>set (github_accounts d1). ga_github_user_id a = ga_github_user_id new \<and> ga_user_id a = ga_user_id new \<and>
       ga_access_token_encrypted a = ga_access_token_encrypted new)"
proof -
  let ?as = "upsert ga_github_user_id merge_account new (github_accounts d)"
  have d1: "d1 = d\<lparr>github_accounts := ?as\<rparr>"
    and new: "find_account (ga_github_user_id new) d = None \<Longrightarrow>
      ga_user_id new \<notin> ga_user_id ` set (github_accounts d) \<and> ga_user_id new \<in> u_id ` set (users d)"
    using run by (auto simp: put_account_def list_ex_iff split: if_splits)
  show ?thesis
  proof (cases "find_account (ga_github_user_id new) d")
    case None
    then have free: "ga_github_user_id new \<notin> ga_github_user_id ` set (github_accounts d)"
      by (auto simp: find_account_def find_None_iff_all)
    then have "\<not> (\<exists>r\<in>set (github_accounts d). ga_github_user_id r = ga_github_user_id new)" by (metis image_eqI)
    then have as: "?as = github_accounts d @ [new]" by (simp add: upsert_def)
    show ?thesis using inv new [OF None] free unfolding d1 as by (auto simp: identity_inv_def)
  next
    case (Some a)
    then have a: "a \<in> set (github_accounts d)" "ga_github_user_id a = ga_github_user_id new"
      by (auto simp: find_account_def dest: find_SomeD)
    then have as: "?as = upd_where (\<lambda>x. ga_github_user_id x = ga_github_user_id new) (merge_account new) (github_accounts d)"
      by (auto simp: upsert_def)
    have keys: "map ga_github_user_id ?as = map ga_github_user_id (github_accounts d)"
      "map ga_user_id ?as = map ga_user_id (github_accounts d)"
      unfolding as by (rule map_upd_where; simp add: merge_account_def)+
    then have "ga_user_id ` set ?as = ga_user_id ` set (github_accounts d)" by (metis list.set_map)
    with inv keys have "identity_inv E d1" by (simp add: d1 identity_inv_def)
    moreover have "merge_account new a \<in> set ?as" unfolding as using a by (auto simp: set_upd_where)
    ultimately show ?thesis
      using same [OF Some] a by (auto simp: d1 merge_account_def intro!: bexI [of _ "merge_account new a"])
  qed
qed

lemma ensure_personal_run:
  assumes "ensure_personal_organization E now user_id login name d = Inr (x, d1)"
  shows "users d1 = users d \<and> github_accounts d1 = github_accounts d \<and> next_id d \<le> next_id d1 \<and> has_personal user_id d1 \<and>
    (if has_personal user_id d then d1 = d
     else \<exists>o' m. organizations d1 = organizations d @ [o'] \<and> organization_members d1 = organization_members d @ [m] \<and>
       o_id o' = next_id d \<and> o_kind o' = Personal \<and> m_organization_id m = next_id d \<and> m_user_id m = user_id \<and>
       m_role m = ''owner'' \<and> next_id d < next_id d1)"
  using assms by (auto simp: ensure_personal_organization_def has_personal_def Let_def split: if_splits)

lemma identity_inv_frame:
  "identity_inv E d \<Longrightarrow> users d1 = users d \<Longrightarrow> github_accounts d1 = github_accounts d \<Longrightarrow> next_id d \<le> next_id d1 \<Longrightarrow> identity_inv E d1"
  by (fastforce simp: identity_inv_def)

lemma write_actor_run:
  assumes "write_actor ty actor tok context org action ety i metadata d = Inr (x, d1)"
  shows "\<exists>row. d1 = d\<lparr>next_id := Suc (next_id d), audit_logs := audit_logs d @ [row]\<rparr>"
  using assms by (auto simp: write_actor_def split: if_splits)

text \<open>Everything a successful sign-in leaves behind.\<close>

lemma persist_tx_run:
  assumes inv: "identity_inv E d" and run: "persist_tx E now context user token access refresh d = Inr (s, d')"
  shows "identity_inv E d' \<and> has_personal (si_id s) d' \<and>
    (\<exists>a\<in>set (github_accounts d'). ga_github_user_id a = gu_id user \<and> ga_user_id a = si_id s \<and>
       ga_access_token_encrypted a = access) \<and>
    (\<exists>u\<in>set (users d'). u_id u = si_id s \<and> u_email u = gu_email user \<and> u_last_login_at u = Some now) \<and>
    (\<forall>a. find_account (gu_id user) d = Some a \<longrightarrow> si_id s = ga_user_id a) \<and>
    (find_account (gu_id user) d = None \<longrightarrow> si_id s \<notin> ga_user_id ` set (github_accounts d)) \<and>
    (has_personal (si_id s) d \<longrightarrow> organizations d' = organizations d \<and> organization_members d' = organization_members d)"
proof -
  from run obtain user_id d1 d2 d3 d4 where
    st1: "identify_user E now user d = Inr (user_id, d1)" and
    st2: "refresh_user E now user_id user d1 = Inr ((), d2)" and
    st3: "put_account (account_row now user_id user token access refresh) d2 = Inr ((), d3)" and
    st4: "ensure_personal_organization E now user_id (gu_login user) (gu_name user) d3 = Inr ((), d4)" and
    st5: "write_actor ''user'' (Some user_id) None context None ''auth.logged_in'' (Some ''user'') (Some user_id)
        (JObj [(''github_user_id'', JInt (gu_id user))]) d4 = Inr ((), d')" and s: "si_id s = user_id"
    unfolding persist_tx_def by (auto simp: error_simps split: sum.splits)
  note r1 = identify_user_run [OF inv st1]
  then have i1: "identity_inv E d1" and k1: "user_id \<in> u_id ` set (users d1)" by auto
  note r2 = refresh_user_run [OF i1 k1 st2]
  have "find_account (gu_id user) d2 = find_account (gu_id user) d" using r1 r2 by (simp add: find_account_def)
  then have same: "find_account (gu_id user) d2 = Some a \<Longrightarrow> ga_user_id a = user_id" for a using r1 by simp
  have i2: "identity_inv E d2" using r2 by simp
  note r3 = put_account_run [OF i2 st3, unfolded account_row_def github_account.simps, OF same]
  note r4 = ensure_personal_run [OF st4]
  obtain row where r5: "d' = d4\<lparr>next_id := Suc (next_id d4), audit_logs := audit_logs d4 @ [row]\<rparr>"
    using st5 write_actor_run by blast
  have "identity_inv E d'" by (rule identity_inv_frame [of E d3]) (use r3 r4 in \<open>simp_all add: r5\<close>)
  moreover have "has_personal user_id d'" using r4 by (simp add: r5 has_personal_def)
  moreover have "\<exists>u\<in>set (users d'). u_id u = user_id \<and> u_email u = gu_email user \<and> u_last_login_at u = Some now"
  proof -
    have "user_id \<in> u_id ` set (users d2)" using k1 r2 by simp
    then obtain u where "u \<in> set (users d2)" "u_id u = user_id" by (metis imageE)
    moreover have "users d' = users d2" using r3 r4 by (simp add: r5)
    ultimately show ?thesis using r2 by auto
  qed
  moreover have "has_personal user_id d \<Longrightarrow> organizations d' = organizations d \<and> organization_members d' = organization_members d"
    using r1 r2 r3 r4 by (simp add: r5 has_personal_def)
  moreover have "\<exists>a\<in>set (github_accounts d'). ga_github_user_id a = gu_id user \<and> ga_user_id a = user_id \<and> ga_access_token_encrypted a = access"
    using r3 r4 by (simp add: r5)
  ultimately show ?thesis using r1 unfolding s by (auto split: option.splits)
qed

lemma persist_identity_success:
  assumes "persist_identity E cipher nonces now context user token d = (Inr s, d')"
  obtains access refresh where "encrypt cipher (fst nonces) (ot_access_token token) = Inr access"
    and "persist_tx E now context user token access refresh d = Inr (s, d')"
  using assms unfolding persist_identity_def
  by (auto simp: transact_def split: sum.splits prod.splits option.splits)

section \<open>Properties\<close>

text \<open>
  C29. A successful sign-in leaves a complete identity: the tables stay consistent (one GitHub
  account per user and per GitHub id, emails unique up to case), the person's user row carries
  the email of this sign-in, a personal workspace exists, and the access token GitHub just
  issued is the one later background calls decrypt for that user. A known GitHub id signs in
  as the user it was connected to, whatever its current login or email.
\<close>

theorem sign_in_establishes_identity:
  assumes "identity_inv E d" and "aead_ok cipher" and "fst nonces = Some nonce" and "length nonce = NONCE_LEN"
    and "utf8_valid (as_bytes (ot_access_token token))"
    and "persist_identity E cipher nonces now context user token d = (Inr s, d')"
  shows "identity_inv E d' \<and> has_personal (si_id s) d' \<and>
    user_access_token cipher (si_id s) d' = Inr (ot_access_token token) \<and>
    (\<exists>u\<in>set (users d'). u_id u = si_id s \<and> u_email u = gu_email user \<and> u_last_login_at u = Some now) \<and>
    (\<forall>a. find_account (gu_id user) d = Some a \<longrightarrow> si_id s = ga_user_id a)"
proof -
  from assms(6) obtain access refresh where enc: "encrypt cipher (fst nonces) (ot_access_token token) = Inr access"
    and run: "persist_tx E now context user token access refresh d = Inr (s, d')" by (rule persist_identity_success)
  note p = persist_tx_run [OF assms(1) run]
  then obtain a where a: "a \<in> set (github_accounts d')" "ga_user_id a = si_id s" "ga_access_token_encrypted a = access" by blast
  have "decrypt cipher access = Inr (ot_access_token token)"
    by (rule decrypt_encrypt [OF assms(2,4,5)]) (use enc assms(3) in simp)
  moreover have "find (\<lambda>x. ga_user_id x = si_id s) (github_accounts d') = Some a"
    using p a find_key_eq [of ga_user_id "github_accounts d'" a] by (simp add: identity_inv_def)
  ultimately show ?thesis using p a by (auto simp: user_access_token_def)
qed

text \<open>
  Identities neither split nor merge: after a sign-in, a later sign-in of the same GitHub id
  is the same user and adds no workspace and no membership, and a sign-in of another GitHub id
  is never that user.
\<close>

theorem sign_in_is_stable:
  assumes "identity_inv E d" and "persist_identity E cipher nonces now context user token d = (Inr s, d1)"
    and "persist_identity E cipher nonces' now' context' user' token' d1 = (Inr s', d2)"
  shows "(gu_id user' = gu_id user \<longrightarrow> si_id s' = si_id s \<and> organizations d2 = organizations d1 \<and>
       organization_members d2 = organization_members d1) \<and>
    (gu_id user' \<noteq> gu_id user \<longrightarrow> si_id s' \<noteq> si_id s)"
proof -
  from assms(2) obtain access refresh where "persist_tx E now context user token access refresh d = Inr (s, d1)"
    by (rule persist_identity_success)
  note p = persist_tx_run [OF assms(1) this]
  then have inv: "identity_inv E d1" by simp
  from p obtain a where a: "a \<in> set (github_accounts d1)" "ga_github_user_id a = gu_id user" "ga_user_id a = si_id s" by blast
  from assms(3) obtain access' refresh' where "persist_tx E now' context' user' token' access' refresh' d1 = Inr (s', d2)"
    by (rule persist_identity_success)
  note q = persist_tx_run [OF inv this]
  have found: "find_account (gu_id user) d1 = Some a"
    unfolding find_account_def using inv a find_key_eq [of ga_github_user_id "github_accounts d1" a] by (simp add: identity_inv_def)
  have "si_id s' \<noteq> si_id s" if "gu_id user' \<noteq> gu_id user"
  proof (cases "find_account (gu_id user') d1")
    case None
    with q a show ?thesis by (metis image_eqI)
  next
    case (Some b)
    then have b: "b \<in> set (github_accounts d1)" "ga_github_user_id b = gu_id user'"
      by (auto simp: find_account_def dest: find_SomeD)
    have "ga_user_id b \<noteq> ga_user_id a"
      using distinct_key_unique [of ga_user_id "github_accounts d1" a b] inv a b that by (auto simp: identity_inv_def)
    with q Some a show ?thesis by auto
  qed
  moreover have "si_id s' = si_id s \<and> organizations d2 = organizations d1 \<and> organization_members d2 = organization_members d1"
    if "gu_id user' = gu_id user"
    using q p found a that by auto
  ultimately show ?thesis by blast
qed


lemma link_new_pairs:
  assumes "link_to_personal_organization user_id i d = Inr (org, d1)"
  shows "personal_organization user_id d = Some org \<and> links (organizations d1) \<subseteq> insert (org, i) (links (organizations d))"
  using assms
  by (auto simp: link_to_personal_organization_def links_def Let_def set_upd_where split: option.splits if_splits)

lemma link_installation_pairs:
  assumes "link_installation now context user_id inst d = (res, d')"
  shows "\<forall>pair\<in>links (organizations d') - links (organizations d).
    personal_organization user_id d = Some (fst pair) \<and> snd pair = in_installation_id inst"
proof -
  let ?d1 = "upsert_installation now inst d"
  have orgs: "organizations ?d1 = organizations d" by (simp add: upsert_installation_def)
  then have pers: "personal_organization user_id ?d1 = personal_organization user_id d" by (simp add: personal_organization_def)
  show ?thesis
  proof (cases "link_to_personal_organization user_id (in_installation_id inst) ?d1")
    case (Inl e)
    with assms orgs show ?thesis by (simp add: link_installation_def transact_def)
  next
    case (Inr x)
    obtain org d2 where x: "x = (org, d2)" by (cases x)
    have "organizations d' = organizations d2"
      using assms Inr x by (auto simp: link_installation_def transact_def dest!: write_actor_run split: sum.splits)
    with link_new_pairs [OF Inr [unfolded x]] orgs pers show ?thesis by auto
  qed
qed

lemma fetch_installation_id:
  assumes "fetch_installation E jwt base i n = Some (Inr inst, n')"
  shows "in_installation_id inst = i"
proof -
  have de: "de_InstallationResponse E i v = Some x \<Longrightarrow> in_installation_id x = i" for v x
    by (auto simp: de_InstallationResponse_def bind_eq_Some_conv split: if_splits)
  show ?thesis
    using assms
    by (auto simp: fetch_installation_def as_app_def call_json_def read_body_def Let_def bind_eq_Some_conv
        split: sum.splits option.splits prod.splits if_splits dest: de)
qed


definition deactivate :: "uuid set \<Rightarrow> db \<Rightarrow> db" where
  "deactivate ids d = d\<lparr>users := upd_where (\<lambda>u. u_id u \<in> ids) (\<lambda>u. u\<lparr>u_is_active := False\<rparr>) (users d)\<rparr>"

lemma deactivate_frame [simp]:
  "map u_id (users (deactivate ids d)) = map u_id (users d)" "organizations (deactivate ids d) = organizations d"
  "github_accounts (deactivate ids d) = github_accounts d" "github_installations (deactivate ids d) = github_installations d"
  "api_tokens (deactivate ids d) = api_tokens d" "audit_logs (deactivate ids d) = audit_logs d" "next_id (deactivate ids d) = next_id d"
  by (simp_all add: deactivate_def map_upd_where)

lemma deactivate_updates [simp]:
  "(deactivate ids d)\<lparr>organizations := os\<rparr> = deactivate ids (d\<lparr>organizations := os\<rparr>)"
  "(deactivate ids d)\<lparr>github_installations := gs\<rparr> = deactivate ids (d\<lparr>github_installations := gs\<rparr>)"
  "(deactivate ids d)\<lparr>next_id := i\<rparr> = deactivate ids (d\<lparr>next_id := i\<rparr>)"
  "(deactivate ids d)\<lparr>audit_logs := as\<rparr> = deactivate ids (d\<lparr>audit_logs := as\<rparr>)"
  by (simp_all add: deactivate_def)

lemma transact_deactivate:
  assumes "\<And>d. f (deactivate ids d) = map_sum id (map_prod id (deactivate ids)) (f d)"
  shows "transact f (deactivate ids d) = map_prod id (deactivate ids) (transact f d)"
  using assms [of d] by (cases "f d") (auto simp: transact_def)

lemma link_deactivate:
  "transact (link_to_personal_organization u i) (deactivate ids d) =
     map_prod id (deactivate ids) (transact (link_to_personal_organization u i) d)"
  by (rule transact_deactivate)
    (auto simp: link_to_personal_organization_def personal_organization_def Let_def split: option.splits)

lemma write_actor_deactivate:
  "transact (write_actor ty actor tok context org action ety i metadata) (deactivate ids d) =
     map_prod id (deactivate ids) (transact (write_actor ty actor tok context org action ety i metadata) d)"
  by (rule transact_deactivate) (simp add: write_actor_def)

lemma link_installation_deactivate:
  "link_installation now context user_id inst (deactivate ids d) =
     map_prod id (deactivate ids) (link_installation now context user_id inst d)"
proof -
  have up: "upsert_installation now inst (deactivate ids d) = deactivate ids (upsert_installation now inst d)"
    by (simp add: upsert_installation_def)
  obtain x d2 where "transact (link_to_personal_organization user_id (in_installation_id inst)) (upsert_installation now inst d) = (x, d2)"
    by fastforce
  then show ?thesis by (cases x) (simp_all add: link_installation_def up link_deactivate write_actor_deactivate)
qed

text \<open>
  C40. The setup callback does not look at whether the account is active: deactivating users
  changes neither its answer nor the requests it makes. A user whose account was deactivated
  keeps linking installations with an old session, while every other endpoint refuses them.
\<close>
theorem setup_ignores_deactivation:
  "github_setup E site now context cookies installation (deactivate ids d) r n =
     map_option (\<lambda>(res, d', n'). (res, deactivate ids d', n')) (github_setup E site now context cookies installation d r n)"
  by (auto simp: github_setup_def user_access_token_def link_installation_deactivate Let_def
      split: sum.splits option.splits prod.splits)

definition to_membership :: "OrganizationResponse \<Rightarrow> OrganizationMembership" where
  "to_membership x = \<lparr>om_id = or_id x, om_slug = or_slug x, om_name = or_name x, om_kind = or_kind x, om_role = or_role x\<rparr>"

lemma order_by_map: "order_by le (map f xs) = map f (order_by (\<lambda>a b. le (f a) (f b)) xs)"
proof -
  have "insert_by le (f x) (map f ys) = map f (insert_by (\<lambda>a b. le (f a) (f b)) x ys)" for x ys
    by (induction ys) auto
  then show ?thesis by (induction xs) (simp_all add: order_by_def)
qed

text \<open>
  C40. The user's own page and the list of workspaces agree: the memberships on the page are
  exactly the workspaces the list endpoint returns for the same caller, in the same order and
  with the same roles.
\<close>
theorem own_page_matches_list: "memberships E p d = map to_membership (list_organizations E p d)"
proof -
  have "memberships E p d =
      order_by (\<lambda>a b. text_le E (om_name a) (om_name b)) (map to_membership
        [\<lparr>or_id = o_id x, or_slug = o_slug x, or_name = o_name x, or_kind = kind_text (o_kind x),
         or_role = m_role m, or_created_at = o_created_at x\<rparr>.
        m \<leftarrow> organization_members d, m_user_id m = p_user_id p,
        x \<leftarrow> organizations d, o_id x = m_organization_id m \<and> o_deleted_at x = None \<and>
          (case p_token_organization_id p of None \<Rightarrow> True | Some scope \<Rightarrow> o_id x = scope)])"
    unfolding memberships_def by (simp add: map_concat to_membership_def comp_def if_distrib cong: if_cong)
  then show ?thesis unfolding order_by_map list_organizations_def by (simp add: to_membership_def)
qed

text \<open>Sign-ins are steps that keep every team owned and every membership well formed.\<close>

lemma persist_identity_org_inv:
  assumes "org_inv d" and "identity_inv E d" and "persist_identity E cipher nonces now context user token d = (Inr s, d')"
  shows "org_inv d'"
proof -
  from assms(3) obtain access refresh where "persist_tx E now context user token access refresh d = Inr (s, d')"
    by (rule persist_identity_success)
  then obtain user_id d1 d2 d3 d4 where
    st1: "identify_user E now user d = Inr (user_id, d1)" and
    st2: "refresh_user E now user_id user d1 = Inr ((), d2)" and
    st3: "put_account (account_row now user_id user token access refresh) d2 = Inr ((), d3)" and
    st4: "ensure_personal_organization E now user_id (gu_login user) (gu_name user) d3 = Inr ((), d4)" and
    st5: "write_actor ''user'' (Some user_id) None context None ''auth.logged_in'' (Some ''user'') (Some user_id)
        (JObj [(''github_user_id'', JInt (gu_id user))]) d4 = Inr ((), d')"
    unfolding persist_tx_def by (auto simp: error_simps split: sum.splits)
  note r1 = identify_user_run [OF assms(2) st1]
  have "organizations d3 = organizations d \<and> organization_members d3 = organization_members d \<and> next_id d \<le> next_id d3"
    using r1 st2 st3 by (auto simp: refresh_user_def put_account_def split: if_splits)
  then have "members_inv d3" "owned d3"
    using assms(1) members_inv_frame [of d d3] owned_frame [of d d3] roles_cong [of d3 d] unfolding org_inv_def by auto
  note r4 = ensure_personal_run [OF st4]
  have "org_inv d4"
  proof (cases "has_personal user_id d3")
    case True
    with r4 \<open>members_inv d3\<close> \<open>owned d3\<close> show ?thesis by (simp add: org_inv_def)
  next
    case False
    then obtain o' m where new: "organizations d4 = organizations d3 @ [o']" "organization_members d4 = organization_members d3 @ [m]"
      "o_id o' = next_id d3" "o_kind o' = Personal" "m_organization_id m = next_id d3" "m_role m = ''owner''" "next_id d3 < next_id d4"
      using r4 by auto
    have "members_inv d4"
      using \<open>members_inv d3\<close> new by (fastforce simp: members_inv_def member_key_def parse_role_def)
    moreover have "roles i d4 u = roles i d3 u" if "i \<noteq> next_id d3" for i u
      using that new by (simp add: roles_def member_row_def find_append split: option.splits)
    moreover have "o_id x \<noteq> next_id d3" if "x \<in> set (organizations d3)" for x
      using that \<open>members_inv d3\<close> by (auto simp: members_inv_def)
    ultimately show ?thesis using \<open>owned d3\<close> new by (auto simp: org_inv_def owned_def)
  qed
  moreover obtain row where "d' = d4\<lparr>next_id := Suc (next_id d4), audit_logs := audit_logs d4 @ [row]\<rparr>"
    using st5 write_actor_run by blast
  ultimately show ?thesis
    using members_inv_frame [of d4 d'] owned_frame [of d4 d'] roles_cong [of d' d4] unfolding org_inv_def by auto
qed

section \<open>Examples\<close>

definition oauth_ext :: ext where
  "oauth_ext = session_ext\<lparr>json_from_slice := (\<lambda>bs.
     if bs = [1] then Some (JObj [(''access_token'', JStr ''gho_x'')])
     else if bs = [2] then Some (JObj [(''id'', JInt 9), (''login'', JStr ''ada''), (''email'', JStr ''ada@x.io'')])
     else if bs = [3] then Some (JObj [(''installations'', JArr [JObj [(''id'', JInt 55)]])])
     else if bs = [4] then Some (JObj [(''account'', JObj [(''login'', JStr ''ada''), (''id'', JInt 9)]),
       (''target_type'', JStr ''User''), (''repository_selection'', JStr ''all'')])
     else json_from_slice session_ext bs)\<rparr>"

definition reply :: "u8 \<Rightarrow> string + http_response" where
  "reply b = Inr \<lparr>hr_status = 200, hr_headers = Map.empty, hr_body = Some [b], hr_content_length = None\<rparr>"

definition demo_site :: site where
  "demo_site = \<lparr>st_client_id = ''c'', st_client_secret = ''s'', st_redirect_uri = ''r'', st_frontend_url = ''f'',
     st_session_ttl = 60, st_environment = Development, st_app_id = ''1'', st_app_slug = ''a'', st_api_base = ''b'',
     st_cipher = demo_cipher, st_sign = (\<lambda>_. Inr ''jwt''), st_encode = (\<lambda>_. ''tok'')\<rparr>"

definition ada :: GitHubUser where
  "ada = \<lparr>gu_id = 9, gu_login = ''ada'', gu_name = None, gu_avatar_url = None, gu_email = ''ada@x.io''\<rparr>"

definition ada_token :: OAuthToken where
  "ada_token = \<lparr>ot_access_token = ''gho_x'', ot_refresh_token = None, ot_expires_at = None, ot_scopes = []\<rparr>"

lemma oauth_ext_ok: "session_codec_ok oauth_ext"
proof -
  have "as_bytes (session_record session_ext u) \<noteq> [b]" for u b by (simp add: session_record_def as_bytes_def)
  moreover have "session_record oauth_ext = session_record session_ext"
    by (simp add: fun_eq_iff session_record_def oauth_ext_def)
  moreover have "de_SessionRecord oauth_ext = de_SessionRecord session_ext"
    by (simp add: fun_eq_iff de_SessionRecord_def oauth_ext_def)
  ultimately show ?thesis
    using session_ext_ok by (simp add: session_codec_ok_def session_user_def) (simp add: oauth_ext_def)
qed

lemma empty_identity: "identity_inv E empty_db"
  by (simp add: identity_inv_def empty_db_def)

lemma ada_signs_in:
  "\<exists>s d'. persist_identity oauth_ext demo_cipher (Some (replicate 12 7), None) 5 demo_context ada ada_token empty_db = (Inr s, d')"
  by (simp add: persist_identity_def encrypt_def demo_cipher_def ada_token_def transact_def persist_tx_def identify_user_def
      find_account_def insert_user_def refresh_user_def put_account_def account_row_def ensure_personal_organization_def
      has_personal_def write_actor_def ref_ok_def empty_db_def ada_def Let_def upsert_def)

theorem sign_in_establishes_identity_witness:
  "\<exists>s d'. persist_identity oauth_ext demo_cipher (Some (replicate 12 7), None) 5 demo_context ada ada_token empty_db = (Inr s, d') \<and>
     user_access_token demo_cipher (si_id s) d' = Inr ''gho_x''"
proof -
  obtain s d' where run: "persist_identity oauth_ext demo_cipher (Some (replicate 12 7), None) 5 demo_context ada ada_token empty_db = (Inr s, d')"
    using ada_signs_in by blast
  have "utf8_valid (as_bytes (ot_access_token ada_token))" by (simp add: ada_token_def as_bytes_def in_range_def)
  from sign_in_establishes_identity [OF empty_identity demo_cipher_ok _ _ this run, of "replicate 12 7"] run
  show ?thesis by (auto simp: NONCE_LEN_def ada_token_def)
qed

lemmas sign_in_eval =
  persist_identity_def encrypt_def demo_cipher_def ada_token_def transact_def persist_tx_def identify_user_def
  find_account_def insert_user_def refresh_user_def put_account_def account_row_def ensure_personal_organization_def
  has_personal_def write_actor_def ref_ok_def empty_db_def ada_def Let_def upsert_def

definition ada_db :: db where
  "ada_db = snd (persist_identity oauth_ext demo_cipher (Some (replicate 12 7), None) 5 demo_context ada ada_token empty_db)"

lemma ada_first: "\<exists>s. persist_identity oauth_ext demo_cipher (Some (replicate 12 7), None) 5 demo_context ada ada_token empty_db = (Inr s, ada_db)"
  unfolding ada_db_def using ada_signs_in by (metis snd_conv)

lemma ada_again:
  "\<exists>s d'. persist_identity oauth_ext demo_cipher (Some (replicate 12 8), None) 6 demo_context ada ada_token ada_db = (Inr s, d')"
  by (simp add: ada_db_def sign_in_eval)

theorem sign_in_is_stable_witness:
  "\<exists>s s' d'. persist_identity oauth_ext demo_cipher (Some (replicate 12 7), None) 5 demo_context ada ada_token empty_db = (Inr s, ada_db) \<and>
     persist_identity oauth_ext demo_cipher (Some (replicate 12 8), None) 6 demo_context ada ada_token ada_db = (Inr s', d') \<and>
     si_id s' = si_id s \<and> organizations d' = organizations ada_db"
proof -
  obtain s where s: "persist_identity oauth_ext demo_cipher (Some (replicate 12 7), None) 5 demo_context ada ada_token empty_db = (Inr s, ada_db)"
    using ada_first by blast
  obtain s' d' where s': "persist_identity oauth_ext demo_cipher (Some (replicate 12 8), None) 6 demo_context ada ada_token ada_db = (Inr s', d')"
    using ada_again by blast
  from sign_in_is_stable [OF empty_identity s s'] s s' show ?thesis by blast
qed

definition ada_query :: CallbackQuery where
  "ada_query = \<lparr>cq_code = Some ''code'', cq_state = Some ''st'', cq_error = None, cq_error_description = None\<rparr>"

definition state_redis :: redis where
  "state_redis = r_set_ex 0 600 (oauth_state_key oauth_ext ''st'') ''1'' Map.empty"

lemmas call_eval =
  exchange_code_def fetch_user_def call_json_def send_def reply_def is_success_def read_body_def oauth_ext_def
  de_TokenResponse_def de_optional_def de_required_def de_UserResponse_def oauth_token_def expiry_def github_user_def

lemma ada_exchange:
  "exchange_code oauth_ext 5 c s r code \<lparr>replies = [reply 1, reply 2], sent = []\<rparr> =
     Some (Inr (Some ada_token), \<lparr>replies = [reply 2],
       sent = [\<lparr>hq_url = TOKEN_URL, hq_if_none_match = None, hq_form = token_request c s code r\<rparr>]\<rparr>)"
  by (simp add: call_eval ada_token_def scopes_of_def trim_def trim_groups_def)

lemma ada_fetch:
  "fetch_user oauth_ext \<lparr>replies = [reply 2], sent = qs\<rparr> =
     Some (Inr ada, \<lparr>replies = [], sent = qs @ [\<lparr>hq_url = USER_URL, hq_if_none_match = None, hq_form = []\<rparr>]\<rparr>)"
  by (simp add: call_eval ada_def is_i64_def)

lemma ada_callback:
  "\<exists>w d' r' n'. github_callback oauth_ext demo_site (Some (replicate 12 7), None) (\<lambda>_. Some []) 5 demo_context ada_query empty_db
      state_redis \<lparr>replies = [reply 1, reply 2], sent = []\<rparr> = Some (Some (Inr w), d', r', n') \<and>
    rs_set_cookie w = Some (set_cookie ''tok'' 60 Development)"
proof -
  obtain s where s: "persist_identity oauth_ext demo_cipher (Some (replicate 12 7), None) 5 demo_context ada ada_token empty_db = (Inr s, ada_db)"
    using ada_first by blast
  have st: "r_get 5 (oauth_state_key oauth_ext ''st'') state_redis = Some ''1''"
    by (simp add: state_redis_def redis_store.get_put seconds_def)
  have tok: "new_session_token (\<lambda>_. ''tok'') (\<lambda>_. Some []) = Inr ''tok''"
    by (simp add: new_session_token_def random_urlsafe_def)
  have hv: "header_value (set_cookie ''tok'' 60 Development) = Inr (set_cookie ''tok'' 60 Development)"
    by (simp add: header_value_def set_cookie_def SESSION_COOKIE_def secure_suffix_def show_int_def show_nat.simps)
  show ?thesis
    using st by (simp add: github_callback_def ada_query_def consume_oauth_state_def r_getdel_def demo_site_def ada_exchange ada_fetch
        sign_in_def s issue_def tok Let_def hv redirect_to_def)
qed


definition ada_redis :: redis where
  "ada_redis = snd (issue oauth_ext (\<lambda>_. ''tok'') (\<lambda>_. Some []) 5 60 1 Map.empty)"

lemma ada_current: "current_user oauth_ext 6 (Some ''buildlens_session=tok'') ada_redis = Inr (Some 1)"
proof -
  have tok: "new_session_token (\<lambda>_. ''tok'') (\<lambda>_. Some []) = Inr ''tok''"
    by (simp add: new_session_token_def random_urlsafe_def)
  have "issue oauth_ext (\<lambda>_. ''tok'') (\<lambda>_. Some []) 5 60 1 Map.empty = (Inr ''tok'', ada_redis)"
    by (simp add: ada_redis_def issue_def tok Let_def)
  from issue_get [OF tok this] oauth_ext_ok
  have "resolve oauth_ext 6 ''tok'' ada_redis = Inr (Some 1)" by (simp add: resolve_def session_codec_ok_def seconds_def)
  moreover have "from_headers (Some ''buildlens_session=tok'') = Some ''tok''"
    by (simp add: from_headers_def session_cookie_value_def SESSION_COOKIE_def trim_ascii_id is_ascii_def white_space_def)
  ultimately show ?thesis by (simp add: current_user_def)
qed

lemma ada_setup:
  "\<exists>d' n' res. github_setup oauth_ext demo_site 6 demo_context (Some ''buildlens_session=tok'') (Some 55) ada_db ada_redis
      \<lparr>replies = [reply 3, reply 4], sent = []\<rparr> = Some (res, d', n') \<and> d' \<noteq> ada_db"
proof -
  have tok: "\<exists>t. user_access_token demo_cipher 1 ada_db = Inr t"
    by (simp add: user_access_token_def ada_db_def sign_in_eval decrypt_def NONCE_LEN_def CIPHERTEXT_VERSION_def from_utf8_def
        as_bytes_def in_range_def)
  have ids: "\<exists>n1. user_installation_ids oauth_ext \<lparr>replies = [reply 3, reply 4], sent = []\<rparr> = Some (Inr [55], n1) \<and> replies n1 = [reply 4]"
    by (simp add: user_installation_ids_def call_eval is_i64_def)
  then obtain n1 where n1: "user_installation_ids oauth_ext \<lparr>replies = [reply 3, reply 4], sent = []\<rparr> = Some (Inr [55], n1)"
    "replies n1 = [reply 4]" by blast
  obtain inst n2 where inst: "fetch_installation oauth_ext (app_jwt (\<lambda>_. Inr ''jwt'') ''1'' 6) ''b'' 55 n1 = Some (Inr inst, n2)"
    using n1(2) by (simp add: fetch_installation_def as_app_def app_jwt_def app_endpoint_def call_eval session_ext_def demo_ext_def
        de_InstallationResponse_def is_i64_def)
  obtain res d' where link: "link_installation 6 demo_context 1 inst ada_db = (res, d')" by fastforce
  have "github_installations ada_db = []" by (simp add: ada_db_def sign_in_eval)
  moreover have "github_installations d' \<noteq> []"
  proof -
    have "github_installations (upsert_installation 6 inst ada_db) \<noteq> []"
      using \<open>github_installations ada_db = []\<close> by (simp add: upsert_installation_def upsert_def)
    moreover have "github_installations d' = github_installations (upsert_installation 6 inst ada_db)"
      using link
      by (auto simp: link_installation_def transact_def link_to_personal_organization_def Let_def dest!: write_actor_run
          split: sum.splits option.splits if_splits)
    ultimately show ?thesis by simp
  qed
  ultimately have "d' \<noteq> ada_db" by auto
  with ada_current tok n1 inst link show ?thesis by (auto simp: github_setup_def demo_site_def)
qed


end
