(* ===== verification/Workflow_Ingest.thy ===== *)
theory Workflow_Ingest
  imports Events GitHub_Types
begin

text \<open>
  GitHub Actions facts turned into rows and events (\<^verbatim>\<open>gateway/src/workflow_ingest.rs\<close>):
  the workflow, run, job and step upserts, the \<open>workflow_run.completed\<close> event on the
  transition into the completed state, and the inferred production deployment with its
  \<open>deployment.recorded\<close> event. Every function works inside the caller's transaction;
  violated foreign keys of \<^verbatim>\<open>infra/migrations\<close> are error values.
\<close>

definition DEPLOY_EVENTS :: "string list" where
  "DEPLOY_EVENTS = [''push'', ''release'', ''workflow_dispatch'']"

definition INFERRED_ENVIRONMENT :: string where
  "INFERRED_ENVIRONMENT = ''production''"

section \<open>Workflows\<close>

definition repository_known :: "uuid \<Rightarrow> db \<Rightarrow> bool" where
  "repository_known i d \<longleftrightarrow> (\<exists>r\<in>set (repositories d). r_id r = i)"

definition workflow_key :: "workflow \<Rightarrow> uuid \<times> int" where
  "workflow_key w = (w_repository_id w, w_github_workflow_id w)"

definition merge_workflow :: "workflow \<Rightarrow> workflow \<Rightarrow> workflow" where
  "merge_workflow new old =
     old\<lparr>w_name := w_name new, w_path := w_path new, w_state := w_state new,
         w_deleted_at := None\<rparr>"

definition workflow_row :: "uuid \<Rightarrow> uuid \<Rightarrow> GitHubWorkflow \<Rightarrow> workflow" where
  "workflow_row i repository_id wflow =
     \<lparr>w_id = i, w_repository_id = repository_id, w_github_workflow_id = wf_gid wflow,
      w_name = wf_name wflow, w_path = wf_path wflow,
      w_state = (case wf_state wflow of None \<Rightarrow> ''active'' | Some s \<Rightarrow> s), w_deleted_at = None\<rparr>"

definition upsert_workflow :: "uuid \<Rightarrow> GitHubWorkflow \<Rightarrow> uuid tx" where
  "upsert_workflow repository_id wflow d =
     (let new = workflow_row (next_id d) repository_id wflow
      in if \<not> repository_known repository_id d
         then Inl (Internal ''workflows_repository_id_fkey'')
         else Inr (returning workflow_key w_id new (workflows d),
                   d\<lparr>next_id := Suc (next_id d),
                     workflows := upsert workflow_key merge_workflow new (workflows d)\<rparr>))"

section \<open>Runs\<close>

definition find_workflow_id :: "uuid \<Rightarrow> int \<Rightarrow> db \<Rightarrow> uuid option" where
  "find_workflow_id repository_id gid d =
     map_option w_id (find (\<lambda>w. w_repository_id w = repository_id \<and> w_github_workflow_id w = gid)
                           (workflows d))"

definition resolve_workflow ::
  "uuid \<Rightarrow> GitHubWorkflowRun \<Rightarrow> GitHubWorkflow option \<Rightarrow> uuid option tx" where
  "resolve_workflow repository_id run workflow d =
     (case workflow of
        Some wflow \<Rightarrow>
          (case upsert_workflow repository_id wflow d of
             Inl e \<Rightarrow> Inl e
           | Inr (i, d') \<Rightarrow> Inr (Some i, d'))
      | None \<Rightarrow> Inr (find_workflow_id repository_id (run_workflow_id run) d, d))"

definition find_commit_id :: "uuid \<Rightarrow> string \<Rightarrow> db \<Rightarrow> uuid option" where
  "find_commit_id repository_id sha d =
     map_option c_id (find (\<lambda>c. c_repository_id c = repository_id \<and> c_sha c = sha) (commits d))"

definition find_pull_request_id :: "uuid \<Rightarrow> GitHubWorkflowRun \<Rightarrow> db \<Rightarrow> uuid option" where
  "find_pull_request_id repository_id run d =
     (case run_pull_requests run of
        [] \<Rightarrow> None
      | pr # _ \<Rightarrow>
          map_option pr_id
            (find (\<lambda>p. pr_repository_id p = repository_id \<and> pr_number p = rp_number pr)
                  (pull_requests d)))"

definition run_key :: "workflow_run \<Rightarrow> int \<times> int" where
  "run_key r = (wr_github_run_id r, wr_run_attempt r)"

definition merge_run :: "workflow_run \<Rightarrow> workflow_run \<Rightarrow> workflow_run" where
  "merge_run new old =
     old\<lparr>wr_workflow_id := coalesce (wr_workflow_id new) (wr_workflow_id old),
         wr_run_number := wr_run_number new,
         wr_name := wr_name new,
         wr_event := wr_event new,
         wr_status := wr_status new,
         wr_conclusion := wr_conclusion new,
         wr_head_sha := wr_head_sha new,
         wr_head_branch := wr_head_branch new,
         wr_head_commit_id := coalesce (wr_head_commit_id new) (wr_head_commit_id old),
         wr_pull_request_id := coalesce (wr_pull_request_id new) (wr_pull_request_id old),
         wr_actor_login := wr_actor_login new,
         wr_triggering_actor_login := wr_triggering_actor_login new,
         wr_is_default_branch := wr_is_default_branch new,
         wr_created_at_github := wr_created_at_github new,
         wr_run_started_at := wr_run_started_at new,
         wr_completed_at := coalesce (wr_completed_at new) (wr_completed_at old)\<rparr>"

definition is_default_run :: "string \<Rightarrow> GitHubWorkflowRun \<Rightarrow> bool" where
  "is_default_run default_branch run \<longleftrightarrow> run_head_branch run = Some default_branch"

definition completion_time :: "GitHubWorkflowRun \<Rightarrow> timestamp option" where
  "completion_time run = (if run_status run = ''completed'' then run_updated_at run else None)"

definition run_row ::
  "uuid \<Rightarrow> uuid \<Rightarrow> string \<Rightarrow> uuid option \<Rightarrow> uuid option \<Rightarrow> uuid option \<Rightarrow> GitHubWorkflowRun \<Rightarrow> workflow_run" where
  "run_row i repository_id default_branch workflow_id head_commit_id pull_request_id run =
     \<lparr>wr_id = i, wr_repository_id = repository_id, wr_workflow_id = workflow_id,
      wr_github_run_id = run_gid run, wr_run_attempt = run_attempt run,
      wr_run_number = run_number run, wr_name = run_name run, wr_event = run_event run,
      wr_status = run_status run, wr_conclusion = run_conclusion run,
      wr_head_sha = run_head_sha run, wr_head_branch = run_head_branch run,
      wr_head_commit_id = head_commit_id, wr_pull_request_id = pull_request_id,
      wr_actor_login = map_option us_login (run_actor run),
      wr_triggering_actor_login = map_option us_login (run_triggering_actor run),
      wr_is_default_branch = is_default_run default_branch run,
      wr_created_at_github = run_created_at run, wr_run_started_at = run_run_started_at run,
      wr_completed_at = completion_time run\<rparr>"

text \<open>
  The foreign keys of \<open>workflow_runs\<close>: the repository, and the soft references, which
  must belong to the row's own repository.
\<close>

definition run_fks :: "db \<Rightarrow> workflow_run \<Rightarrow> bool" where
  "run_fks d r \<longleftrightarrow>
     repository_known (wr_repository_id r) d \<and>
     fk_ok (wr_workflow_id r) (wr_repository_id r) w_id w_repository_id (workflows d) \<and>
     fk_ok (wr_head_commit_id r) (wr_repository_id r) c_id c_repository_id (commits d) \<and>
     fk_ok (wr_pull_request_id r) (wr_repository_id r) pr_id pr_repository_id (pull_requests d)"

definition put_workflow_run :: "workflow_run \<Rightarrow> uuid tx" where
  "put_workflow_run new d =
     (let runs = upsert run_key merge_run new (workflow_runs d)
      in if list_all (\<lambda>r. run_key r = run_key new \<longrightarrow> run_fks d r) runs
         then Inr (returning run_key wr_id new (workflow_runs d),
                   d\<lparr>next_id := Suc (next_id d), workflow_runs := runs\<rparr>)
         else Inl (Internal ''workflow_runs foreign key''))"

section \<open>Events and deployments\<close>

definition emit_run_completed ::
  "ext \<Rightarrow> timestamp \<Rightarrow> timestamp \<Rightarrow> uuid \<Rightarrow> uuid \<Rightarrow> uuid \<Rightarrow> uuid option \<Rightarrow> GitHubWorkflowRun \<Rightarrow> bool
     \<Rightarrow> timestamp option \<Rightarrow> db \<Rightarrow> db" where
  "emit_run_completed E now utc organization_id repository_id run_id workflow_id run
       is_default_branch completed_at d =
     (let data =
        JObj [(''workflow_run_id'', JStr (show_uuid E run_id)),
              (''github_run_id'', JInt (run_gid run)),
              (''run_attempt'', JInt (run_attempt run)),
              (''run_number'', JInt (run_number run)),
              (''workflow_id'', j_option (\<lambda>i. JStr (show_uuid E i)) workflow_id),
              (''github_workflow_id'', JInt (run_workflow_id run)),
              (''name'', j_option JStr (run_name run)),
              (''event'', JStr (run_event run)),
              (''conclusion'', j_option JStr (run_conclusion run)),
              (''head_sha'', JStr (run_head_sha run)),
              (''head_branch'', j_option JStr (run_head_branch run)),
              (''is_default_branch'', JBool is_default_branch),
              (''run_started_at'', j_option (\<lambda>t. JStr (show_time E t)) (run_run_started_at run)),
              (''completed_at'', j_option (\<lambda>t. JStr (show_time E t)) completed_at)]
      in snd (enqueue E now utc
           (OutboxEvent_new ''workflow_run'' run_id ''workflow_run.completed''
              organization_id repository_id data) d))"

definition deployment_row ::
  "uuid \<Rightarrow> uuid \<Rightarrow> uuid \<Rightarrow> GitHubWorkflowRun \<Rightarrow> timestamp option \<Rightarrow> deployment" where
  "deployment_row i repository_id run_id run completed_at =
     \<lparr>d_id = i, d_repository_id = repository_id, d_workflow_run_id = Some run_id,
      d_environment = INFERRED_ENVIRONMENT, d_sha = run_head_sha run, d_status = ''success'',
      d_source = Workflow_inferred, d_is_production = True, d_deployed_at = completed_at,
      d_started_at = run_run_started_at run\<rparr>"

text \<open>The partial unique index on inferred deployments.\<close>

definition inferred_key :: "deployment \<Rightarrow> uuid option \<times> string" where
  "inferred_key x = (d_workflow_run_id x, d_environment x)"

abbreviation is_inferred :: "deployment \<Rightarrow> bool" where
  "is_inferred x \<equiv> d_source x = Workflow_inferred"

definition deployment_taken :: "deployment \<Rightarrow> db \<Rightarrow> bool" where
  "deployment_taken row d \<longleftrightarrow>
     (\<exists>x\<in>set (deployments d). is_inferred x \<and> inferred_key x = inferred_key row)"

definition infer_deployment ::
  "ext \<Rightarrow> timestamp \<Rightarrow> timestamp \<Rightarrow> uuid \<Rightarrow> uuid \<Rightarrow> uuid \<Rightarrow> GitHubWorkflowRun \<Rightarrow> timestamp option
     \<Rightarrow> unit tx" where
  "infer_deployment E now utc repository_id organization_id run_id run completed_at d =
     (let i = next_id d;
          row = deployment_row i repository_id run_id run completed_at;
          data =
            JObj [(''deployment_id'', JStr (show_uuid E i)),
                  (''workflow_run_id'', JStr (show_uuid E run_id)),
                  (''environment'', JStr INFERRED_ENVIRONMENT),
                  (''sha'', JStr (run_head_sha run)),
                  (''is_production'', JBool True),
                  (''source'', JStr ''workflow_inferred''),
                  (''status'', JStr ''success''),
                  (''deployed_at'', j_option (\<lambda>t. JStr (show_time E t)) completed_at)]
      in if deployment_taken row d then Inr ((), d\<lparr>next_id := Suc i\<rparr>)
         else if \<not> (repository_known repository_id d \<and>
                    fk_ok (Some run_id) repository_id wr_id wr_repository_id (workflow_runs d))
         then Inl (Internal ''deployments foreign key'')
         else Inr ((), snd (enqueue E now utc
                (OutboxEvent_new ''deployment'' i ''deployment.recorded''
                   organization_id repository_id data)
                (d\<lparr>next_id := Suc i, deployments := deployments d @ [row]\<rparr>))))"

definition ships :: "string \<Rightarrow> GitHubWorkflowRun \<Rightarrow> bool" where
  "ships default_branch run \<longleftrightarrow>
     is_default_run default_branch run \<and> run_conclusion run = Some ''success'' \<and>
     run_event run \<in> set DEPLOY_EVENTS"

definition previous_status :: "GitHubWorkflowRun \<Rightarrow> db \<Rightarrow> string option" where
  "previous_status run d =
     map_option wr_status
       (find (\<lambda>r. run_key r = (run_gid run, run_attempt run)) (workflow_runs d))"

definition ingest_workflow_run ::
  "ext \<Rightarrow> timestamp \<Rightarrow> timestamp \<Rightarrow> uuid \<Rightarrow> uuid \<Rightarrow> string \<Rightarrow> GitHubWorkflowRun \<Rightarrow> GitHubWorkflow option
     \<Rightarrow> uuid tx" where
  "ingest_workflow_run E now utc repository_id organization_id default_branch run workflow d =
     (case resolve_workflow repository_id run workflow d of
        Inl e \<Rightarrow> Inl e
      | Inr (workflow_id, d1) \<Rightarrow>
          let head_commit_id = find_commit_id repository_id (run_head_sha run) d1;
              pull_request_id = find_pull_request_id repository_id run d1;
              previous = previous_status run d1;
              new = run_row (next_id d1) repository_id default_branch workflow_id
                      head_commit_id pull_request_id run
          in (case put_workflow_run new d1 of
                Inl e \<Rightarrow> Inl e
              | Inr (run_id, d2) \<Rightarrow>
                  if run_status run = ''completed'' \<and> previous \<noteq> Some ''completed''
                  then
                    let d3 = emit_run_completed E now utc organization_id repository_id run_id
                               workflow_id run (is_default_run default_branch run)
                               (completion_time run) d2
                    in if ships default_branch run
                       then (case infer_deployment E now utc repository_id organization_id run_id
                                    run (completion_time run) d3 of
                               Inl e \<Rightarrow> Inl e
                             | Inr (_, d4) \<Rightarrow> Inr (run_id, d4))
                       else Inr (run_id, d3)
                  else Inr (run_id, d2)))"

section \<open>Jobs and steps\<close>

definition job_key :: "workflow_job \<Rightarrow> int" where
  "job_key j = wj_github_job_id j"

definition merge_job :: "workflow_job \<Rightarrow> workflow_job \<Rightarrow> workflow_job" where
  "merge_job new old =
     old\<lparr>wj_status := wj_status new, wj_conclusion := wj_conclusion new,
         wj_runner_id := wj_runner_id new, wj_runner_name := wj_runner_name new,
         wj_runner_group_name := wj_runner_group_name new, wj_labels := wj_labels new,
         wj_started_at := wj_started_at new, wj_completed_at := wj_completed_at new\<rparr>"

definition job_row :: "uuid \<Rightarrow> uuid \<Rightarrow> uuid \<Rightarrow> GitHubJob \<Rightarrow> workflow_job" where
  "job_row i workflow_run_id repository_id job =
     \<lparr>wj_id = i, wj_workflow_run_id = workflow_run_id, wj_repository_id = repository_id,
      wj_github_job_id = job_gid job, wj_run_attempt = job_run_attempt job,
      wj_name = job_name job, wj_status = job_status job, wj_conclusion = job_conclusion job,
      wj_runner_id = job_runner_id job, wj_runner_name = job_runner_name job,
      wj_runner_group_name = job_runner_group_name job, wj_labels = job_labels job,
      wj_started_at = job_started_at job, wj_completed_at = job_completed_at job\<rparr>"

definition step_key :: "workflow_step \<Rightarrow> uuid \<times> int" where
  "step_key s = (ws_workflow_job_id s, ws_number s)"

definition merge_step :: "workflow_step \<Rightarrow> workflow_step \<Rightarrow> workflow_step" where
  "merge_step new old =
     old\<lparr>ws_name := ws_name new, ws_status := ws_status new,
         ws_conclusion := ws_conclusion new, ws_started_at := ws_started_at new,
         ws_completed_at := ws_completed_at new\<rparr>"

definition step_row :: "uuid \<Rightarrow> uuid \<Rightarrow> GitHubStep \<Rightarrow> workflow_step" where
  "step_row i job_id step =
     \<lparr>ws_id = i, ws_workflow_job_id = job_id, ws_number = st_number step,
      ws_name = st_name step, ws_status = st_status step,
      ws_conclusion = st_conclusion step, ws_started_at = st_started_at step,
      ws_completed_at = st_completed_at step\<rparr>"

definition put_step :: "uuid \<Rightarrow> GitHubStep \<Rightarrow> db \<Rightarrow> db" where
  "put_step job_id step d =
     d\<lparr>next_id := Suc (next_id d),
       workflow_steps := upsert step_key merge_step (step_row (next_id d) job_id step)
                           (workflow_steps d)\<rparr>"

text \<open>The foreign keys of \<open>workflow_jobs\<close>: the run, which must be of the row's repository.\<close>

definition job_fks :: "db \<Rightarrow> workflow_job \<Rightarrow> bool" where
  "job_fks d j \<longleftrightarrow>
     fk_ok (Some (wj_workflow_run_id j)) (wj_repository_id j) wr_id wr_repository_id
       (workflow_runs d)"

definition find_run_id :: "int \<Rightarrow> int \<Rightarrow> db \<Rightarrow> uuid option" where
  "find_run_id run_id attempt d =
     map_option wr_id (find (\<lambda>r. run_key r = (run_id, attempt)) (workflow_runs d))"

definition ingest_workflow_job :: "uuid \<Rightarrow> GitHubJob \<Rightarrow> bool tx" where
  "ingest_workflow_job repository_id job d =
     (case find_run_id (job_run_id job) (job_run_attempt job) d of
        None \<Rightarrow> Inr (False, d)
      | Some workflow_run_id \<Rightarrow>
          let new = job_row (next_id d) workflow_run_id repository_id job;
              jobs = upsert job_key merge_job new (workflow_jobs d);
              job_id = returning job_key wj_id new (workflow_jobs d)
          in if list_all (\<lambda>j. job_key j = job_key new \<longrightarrow> job_fks d j) jobs
             then Inr (True, fold (put_step job_id) (job_steps job)
                               (d\<lparr>next_id := Suc (next_id d), workflow_jobs := jobs\<rparr>))
             else Inl (Internal ''workflow_jobs_run_repo_fkey''))"

section \<open>The upsert statements keep their contract\<close>

interpretation workflow_table: keyed_table workflow_key w_id "\<lambda>i r. r\<lparr>w_id := i\<rparr>" merge_workflow
  "\<lambda>w. w_deleted_at w = None"
  by unfold_locales (simp_all add: workflow_key_def merge_workflow_def)

interpretation run_table: keyed_table run_key wr_id "\<lambda>i r. r\<lparr>wr_id := i\<rparr>" merge_run "\<lambda>_. True"
  by unfold_locales (simp_all add: run_key_def merge_run_def)

interpretation job_table: keyed_table job_key wj_id "\<lambda>i r. r\<lparr>wj_id := i\<rparr>" merge_job "\<lambda>_. True"
  by unfold_locales (simp_all add: job_key_def merge_job_def)

interpretation step_table: keyed_table step_key ws_id "\<lambda>i r. r\<lparr>ws_id := i\<rparr>" merge_step "\<lambda>_. True"
  by unfold_locales (simp_all add: step_key_def merge_step_def)

section \<open>What each step leaves alone\<close>

lemma upsert_workflow_frame:
  assumes "upsert_workflow repository_id wflow d = Inr (i, d1)"
  shows "d1 = d\<lparr>next_id := Suc (next_id d),
      workflows := upsert workflow_key merge_workflow (workflow_row (next_id d) repository_id wflow) (workflows d)\<rparr>"
    and "i = returning workflow_key w_id (workflow_row (next_id d) repository_id wflow) (workflows d)"
    and "repository_known repository_id d"
  using assms by (auto simp: upsert_workflow_def Let_def split: if_splits)

lemma resolve_workflow_frame:
  assumes "resolve_workflow repository_id run workflow d = Inr (w, d1)"
  shows "workflow_runs d1 = workflow_runs d" "commits d1 = commits d"
    "pull_requests d1 = pull_requests d" "deployments d1 = deployments d"
    "event_outbox d1 = event_outbox d" "repositories d1 = repositories d"
    "workflow_jobs d1 = workflow_jobs d" "workflow_steps d1 = workflow_steps d"
    "next_id d \<le> next_id d1"
  using assms
  by (auto simp: resolve_workflow_def upsert_workflow_def Let_def
      split: option.splits sum.splits if_splits)

lemma put_workflow_run_frame:
  assumes "put_workflow_run new d = Inr (i, d1)"
  shows "d1 = d\<lparr>next_id := Suc (next_id d),
                 workflow_runs := upsert run_key merge_run new (workflow_runs d)\<rparr>"
    and "i = returning run_key wr_id new (workflow_runs d)"
    and "list_all (\<lambda>r. run_key r = run_key new \<longrightarrow> run_fks d r) (upsert run_key merge_run new (workflow_runs d))"
  using assms by (auto simp: put_workflow_run_def Let_def split: if_splits)

lemma emit_frame [table_simps]:
  "workflow_runs (emit_run_completed E now utc org repo run_id w run b t d) = workflow_runs d"
  "commits (emit_run_completed E now utc org repo run_id w run b t d) = commits d"
  "workflows (emit_run_completed E now utc org repo run_id w run b t d) = workflows d"
  "pull_requests (emit_run_completed E now utc org repo run_id w run b t d) = pull_requests d"
  "deployments (emit_run_completed E now utc org repo run_id w run b t d) = deployments d"
  "repositories (emit_run_completed E now utc org repo run_id w run b t d) = repositories d"
  "workflow_jobs (emit_run_completed E now utc org repo run_id w run b t d) = workflow_jobs d"
  "workflow_steps (emit_run_completed E now utc org repo run_id w run b t d) = workflow_steps d"
  "next_id (emit_run_completed E now utc org repo run_id w run b t d) = Suc (next_id d)"
  by (simp_all add: emit_run_completed_def Let_def enqueue_def)

lemma emit_outbox:
  "\<exists>data. event_outbox (emit_run_completed E now utc org repo run_id w run b t d) =
     event_outbox d @ [outbox_row_of E now utc (next_id d)
       (OutboxEvent_new ''workflow_run'' run_id ''workflow_run.completed'' org repo data)]"
  by (auto simp: emit_run_completed_def Let_def enqueue_outbox)

lemma infer_deployment_frame:
  assumes "infer_deployment E now utc repo org run_id run t d = Inr (u, d1)"
  shows "workflow_runs d1 = workflow_runs d" "commits d1 = commits d" "workflows d1 = workflows d"
    "pull_requests d1 = pull_requests d" "repositories d1 = repositories d"
    "workflow_jobs d1 = workflow_jobs d" "workflow_steps d1 = workflow_steps d"
    "next_id d \<le> next_id d1"
  using assms by (auto simp: infer_deployment_def Let_def enqueue_def split: if_splits)

lemma infer_deployment_frame_all:
  "infer_deployment E now utc repo org run_id run t d = Inr (u, d1) \<Longrightarrow>
     workflow_runs d1 = workflow_runs d \<and> workflows d1 = workflows d \<and> commits d1 = commits d \<and>
     pull_requests d1 = pull_requests d \<and> repositories d1 = repositories d"
  by (intro conjI) (erule infer_deployment_frame)+

lemma infer_deployment_effect:
  assumes "infer_deployment E now utc repo org run_id run t d = Inr (u, d1)"
  shows "if deployment_taken (deployment_row (next_id d) repo run_id run t) d
     then deployments d1 = deployments d \<and> event_outbox d1 = event_outbox d
     else deployments d1 = deployments d @ [deployment_row (next_id d) repo run_id run t] \<and>
          (\<exists>data. event_outbox d1 = event_outbox d @ [outbox_row_of E now utc (Suc (next_id d))
             (OutboxEvent_new ''deployment'' (next_id d) ''deployment.recorded'' org repo data)]) \<and>
          fk_ok (Some run_id) repo wr_id wr_repository_id (workflow_runs d) \<and> repository_known repo d"
  using assms by (auto simp: infer_deployment_def Let_def enqueue_def split: if_splits)

text \<open>A successful ingest, step by step.\<close>

definition newly_completed :: "GitHubWorkflowRun \<Rightarrow> db \<Rightarrow> bool" where
  "newly_completed run d \<longleftrightarrow>
     run_status run = ''completed'' \<and> previous_status run d \<noteq> Some ''completed''"

definition new_run_row ::
  "uuid \<Rightarrow> string \<Rightarrow> GitHubWorkflowRun \<Rightarrow> uuid option \<Rightarrow> db \<Rightarrow> workflow_run" where
  "new_run_row repo default_branch run w d1 =
     run_row (next_id d1) repo default_branch w (find_commit_id repo (run_head_sha run) d1)
       (find_pull_request_id repo run d1) run"

lemma ingest_success:
  assumes "ingest_workflow_run E now utc repo org default_branch run workflow d = Inr (i, d')"
  obtains w d1 d2 where
    "resolve_workflow repo run workflow d = Inr (w, d1)"
    "put_workflow_run (new_run_row repo default_branch run w d1) d1 = Inr (i, d2)"
    "if newly_completed run d1
     then (let d3 = emit_run_completed E now utc org repo i w run (is_default_run default_branch run)
                      (completion_time run) d2
           in if ships default_branch run
              then infer_deployment E now utc repo org i run (completion_time run) d3 = Inr ((), d')
              else d' = d3)
     else d' = d2"
  using assms
  by (auto simp: ingest_workflow_run_def newly_completed_def new_run_row_def Let_def
      split: sum.splits prod.splits if_splits)

section \<open>The ingest invariant\<close>

definition deployment_ok :: "db \<Rightarrow> deployment \<Rightarrow> bool" where
  "deployment_ok d x \<longleftrightarrow>
     d_id x < next_id d \<and>
     (is_inferred x \<longrightarrow> d_workflow_run_id x \<noteq> None \<and> d_is_production x \<and>
        fk_ok (d_workflow_run_id x) (d_repository_id x) wr_id wr_repository_id (workflow_runs d))"

definition ingest_inv :: "db \<Rightarrow> bool" where
  "ingest_inv d \<longleftrightarrow>
     table_ok workflow_key w_id (next_id d) (workflows d) \<and>
     table_ok run_key wr_id (next_id d) (workflow_runs d) \<and>
     (\<forall>r\<in>set (workflow_runs d). run_fks d r) \<and>
     table_ok job_key wj_id (next_id d) (workflow_jobs d) \<and>
     (\<forall>j\<in>set (workflow_jobs d). job_fks d j) \<and>
     table_ok step_key ws_id (next_id d) (workflow_steps d) \<and>
     (\<forall>s\<in>set (workflow_steps d). \<exists>j\<in>set (workflow_jobs d). wj_id j = ws_workflow_job_id s) \<and>
     distinct (map inferred_key (filter is_inferred (deployments d))) \<and>
     (\<forall>x\<in>set (deployments d). deployment_ok d x)"

text \<open>An upsert keeps every \<open>(id, repository)\<close> pair it finds, so references survive it.\<close>

lemma workflows_keep:
  "fk_ok ref repo w_id w_repository_id (workflows d) \<Longrightarrow>
     fk_ok ref repo w_id w_repository_id (upsert workflow_key merge_workflow new (workflows d))"
  by (rule fk_ok_upsert) (simp_all add: merge_workflow_def)

lemma runs_keep:
  "fk_ok ref repo wr_id wr_repository_id (workflow_runs d) \<Longrightarrow>
     fk_ok ref repo wr_id wr_repository_id (upsert run_key merge_run new (workflow_runs d))"
  by (rule fk_ok_upsert) (simp_all add: merge_run_def)

lemma jobs_keep:
  "r \<in> set (workflow_jobs d) \<Longrightarrow> \<exists>r'\<in>set (upsert job_key merge_job new (workflow_jobs d)). wj_id r' = wj_id r"
  by (rule upsert_keeps) (simp_all add: merge_job_def)

lemma upsert_workflow_inv:
  assumes inv: "ingest_inv d" and run: "upsert_workflow repo wflow d = Inr (i, d1)"
  shows "ingest_inv d1"
proof -
  note d1 = upsert_workflow_frame(1) [OF run]
  have fks: "run_fks d r \<Longrightarrow> run_fks d1 r" for r
    unfolding d1 run_fks_def repository_known_def
    by (simp add: workflows_keep)
  have "table_ok workflow_key w_id (next_id d1) (workflows d1)"
    using inv unfolding d1 ingest_inv_def by (simp add: workflow_table.upsert_ok workflow_row_def)
  moreover have "next_id d \<le> next_id d1" by (simp add: d1)
  ultimately show ?thesis
    using inv fks unfolding ingest_inv_def
    by (auto simp: d1 job_fks_def deployment_ok_def intro: table_ok_mono less_SucI)
qed

lemma resolve_workflow_inv:
  "ingest_inv d \<Longrightarrow> resolve_workflow repo run workflow d = Inr (w, d1) \<Longrightarrow> ingest_inv d1"
  by (auto simp: resolve_workflow_def split: option.splits sum.splits intro: upsert_workflow_inv)

lemma put_workflow_run_inv:
  assumes inv: "ingest_inv d" and run: "put_workflow_run new d = Inr (i, d1)" and new: "wr_id new = next_id d"
  shows "ingest_inv d1"
proof -
  let ?runs = "upsert run_key merge_run new (workflow_runs d)"
  note d1 = put_workflow_run_frame(1) [OF run]
  have fks: "run_fks d r" if r: "r \<in> set ?runs" for r
  proof (cases "run_key r = run_key new")
    case True
    with put_workflow_run_frame(3) [OF run] r show ?thesis by (simp add: list_all_iff)
  next
    case False
    with r have "r \<in> set (workflow_runs d)"
      by (auto simp: upsert_def set_upd_where run_key_def merge_run_def split: if_splits)
    with inv show ?thesis by (simp add: ingest_inv_def)
  qed
  have same: "run_fks d1 r = run_fks d r" for r by (simp add: d1 run_fks_def repository_known_def)
  have jobs: "job_fks d j \<Longrightarrow> job_fks d1 j" for j
    unfolding d1 job_fks_def by (simp add: runs_keep)
  have deps: "deployment_ok d x \<Longrightarrow> deployment_ok d1 x" for x
    unfolding d1 deployment_ok_def by (auto simp: runs_keep)
  have "table_ok run_key wr_id (next_id d1) (workflow_runs d1)"
    using inv new unfolding d1 ingest_inv_def by (simp add: run_table.upsert_ok)
  then show ?thesis
    using inv fks same jobs deps unfolding ingest_inv_def by (auto simp: d1 intro: table_ok_mono)
qed

lemma ingest_inv_cong:
  assumes "ingest_inv d" and "next_id d \<le> next_id d1"
    "workflows d1 = workflows d" "workflow_runs d1 = workflow_runs d" "workflow_jobs d1 = workflow_jobs d"
    "workflow_steps d1 = workflow_steps d" "deployments d1 = deployments d"
    "repositories d1 = repositories d" "commits d1 = commits d" "pull_requests d1 = pull_requests d"
  shows "ingest_inv d1"
  using assms unfolding ingest_inv_def run_fks_def job_fks_def deployment_ok_def repository_known_def
  by (auto intro: table_ok_mono)

lemma infer_deployment_inv:
  assumes inv: "ingest_inv d" and run: "infer_deployment E now utc repo org run_id run t d = Inr (u, d1)"
  shows "ingest_inv d1"
proof (cases "deployment_taken (deployment_row (next_id d) repo run_id run t) d")
  case True
  with infer_deployment_effect [OF run] have "deployments d1 = deployments d" by simp
  with infer_deployment_frame [OF run] show ?thesis by (intro ingest_inv_cong [OF inv]) simp_all
next
  case False
  let ?row = "deployment_row (next_id d) repo run_id run t"
  note frame = infer_deployment_frame [OF run]
  have lt: "next_id d < next_id d1"
    using run False by (auto simp: infer_deployment_def Let_def enqueue_def split: if_splits)
  from False infer_deployment_effect [OF run]
  have deps: "deployments d1 = deployments d @ [?row]"
    and fk: "fk_ok (Some run_id) repo wr_id wr_repository_id (workflow_runs d)" by auto
  define d0 where "d0 = d1\<lparr>deployments := deployments d\<rparr>"
  have "ingest_inv d0" unfolding d0_def using frame by (intro ingest_inv_cong [OF inv]) simp_all
  moreover have "inferred_key ?row \<notin> inferred_key ` set (filter is_inferred (deployments d))"
    using False by (force simp: deployment_taken_def)
  moreover have "deployment_ok d1 ?row"
    using fk lt frame(1) by (simp add: deployment_ok_def deployment_row_def)
  ultimately show ?thesis
    unfolding ingest_inv_def run_fks_def job_fks_def deployment_ok_def repository_known_def d0_def
    by (auto simp: deps)
qed

lemma ingest_workflow_run_inv:
  assumes inv: "ingest_inv d"
    and run: "ingest_workflow_run E now utc repo org default_branch run workflow d = Inr (i, d')"
  shows "ingest_inv d'"
proof -
  from run obtain w d1 d2 where
    st1: "resolve_workflow repo run workflow d = Inr (w, d1)" and
    st2: "put_workflow_run (new_run_row repo default_branch run w d1) d1 = Inr (i, d2)" and
    st3: "if newly_completed run d1
     then (let d3 = emit_run_completed E now utc org repo i w run (is_default_run default_branch run)
                      (completion_time run) d2
           in if ships default_branch run
              then infer_deployment E now utc repo org i run (completion_time run) d3 = Inr ((), d')
              else d' = d3)
     else d' = d2"
    by (rule ingest_success)
  have i2: "ingest_inv d2"
    using put_workflow_run_inv [OF resolve_workflow_inv [OF inv st1] st2]
    by (simp add: new_run_row_def run_row_def)
  have "ingest_inv (emit_run_completed E now utc org repo i w run (is_default_run default_branch run)
      (completion_time run) d2)"
    by (rule ingest_inv_cong [OF i2]) (simp_all add: table_simps)
  with i2 st3 show ?thesis
    by (auto simp: Let_def split: if_splits intro: infer_deployment_inv)
qed

section \<open>The events of an ingest\<close>

lemma previous_status_frame: "workflow_runs d1 = workflow_runs d \<Longrightarrow> previous_status run d1 = previous_status run d"
  by (simp add: previous_status_def)

lemma newly_completed_resolve:
  "resolve_workflow repo run workflow d = Inr (w, d1) \<Longrightarrow> newly_completed run d1 = newly_completed run d"
  by (simp add: newly_completed_def previous_status_def resolve_workflow_frame)

lemma newly_completed_run: "newly_completed run d \<Longrightarrow> run_status run = ''completed''"
  by (simp add: newly_completed_def)

text \<open>A production deployment inferred from the run exists already.\<close>

definition has_inferred :: "uuid \<Rightarrow> db \<Rightarrow> bool" where
  "has_inferred run_id d \<longleftrightarrow>
     (\<exists>x\<in>set (deployments d). is_inferred x \<and> d_workflow_run_id x = Some run_id \<and>
        d_environment x = INFERRED_ENVIRONMENT)"

lemma deployment_taken_iff: "deployment_taken (deployment_row i repo run_id run t) d \<longleftrightarrow> has_inferred run_id d"
  by (simp add: deployment_taken_def has_inferred_def inferred_key_def deployment_row_def)

text \<open>The deployment step from the emitted state, with its outbox and deployments.\<close>

lemma ship_effect:
  assumes "infer_deployment E now utc repo org i run (run_updated_at run) d3 = Inr ((), d')" and "deployments d3 = deployments d"
  shows "if has_inferred i d then deployments d' = deployments d \<and> event_outbox d' = event_outbox d3
    else (\<exists>x e2. deployments d' = deployments d @ [x] \<and> is_inferred x \<and> d_is_production x \<and>
      d_workflow_run_id x = Some i \<and> d_environment x = INFERRED_ENVIRONMENT \<and>
      d_sha x = run_head_sha run \<and> d_deployed_at x = run_updated_at run \<and>
      eo_event_type e2 = ''deployment.recorded'' \<and> eo_aggregate_id e2 = d_id x \<and> eo_status e2 = Pending \<and>
      event_outbox d' = event_outbox d3 @ [e2])"
proof -
  have taken: "deployment_taken (deployment_row (next_id d3) repo i run (run_updated_at run)) d3 = has_inferred i d"
    by (simp add: deployment_taken_iff has_inferred_def assms(2))
  note eff = infer_deployment_effect [OF assms(1), unfolded taken]
  show ?thesis
  proof (cases "has_inferred i d")
    case False
    let ?x = "deployment_row (next_id d3) repo i run (run_updated_at run)"
    from False eff obtain data where
      "event_outbox d' = event_outbox d3 @ [outbox_row_of E now utc (Suc (next_id d3))
         (OutboxEvent_new ''deployment'' (next_id d3) ''deployment.recorded'' org repo data)]"
      "deployments d' = deployments d @ [?x]" using assms(2) by auto
    moreover have "is_inferred ?x" "d_is_production ?x" "d_workflow_run_id ?x = Some i"
      "d_environment ?x = INFERRED_ENVIRONMENT" "d_sha ?x = run_head_sha run"
      "d_deployed_at ?x = run_updated_at run" "d_id ?x = next_id d3"
      by (simp_all add: deployment_row_def)
    ultimately show ?thesis using False by (auto simp: row_simps intro!: exI [of _ ?x])
  qed (use eff assms(2) in auto)
qed

lemma ingest_effect:
  assumes run: "ingest_workflow_run E now utc repo org default_branch run workflow d = Inr (i, d')"
  shows "if newly_completed run d
     then (\<exists>e1. eo_event_type e1 = ''workflow_run.completed'' \<and> eo_aggregate_id e1 = i \<and> eo_status e1 = Pending \<and>
       (if ships default_branch run \<and> \<not> has_inferred i d
        then (\<exists>x e2. deployments d' = deployments d @ [x] \<and> is_inferred x \<and> d_is_production x \<and>
               d_workflow_run_id x = Some i \<and> d_environment x = INFERRED_ENVIRONMENT \<and>
               d_sha x = run_head_sha run \<and> d_deployed_at x = run_updated_at run \<and>
               eo_event_type e2 = ''deployment.recorded'' \<and> eo_aggregate_id e2 = d_id x \<and> eo_status e2 = Pending \<and>
               event_outbox d' = event_outbox d @ [e1, e2])
        else deployments d' = deployments d \<and> event_outbox d' = event_outbox d @ [e1]))
     else deployments d' = deployments d \<and> event_outbox d' = event_outbox d"
proof -
  from run obtain w d1 d2 where
    st1: "resolve_workflow repo run workflow d = Inr (w, d1)" and
    st2: "put_workflow_run (new_run_row repo default_branch run w d1) d1 = Inr (i, d2)" and
    st3: "if newly_completed run d1
     then (let d3 = emit_run_completed E now utc org repo i w run (is_default_run default_branch run)
                      (completion_time run) d2
           in if ships default_branch run
              then infer_deployment E now utc repo org i run (completion_time run) d3 = Inr ((), d')
              else d' = d3)
     else d' = d2"
    by (rule ingest_success)
  note fr1 = resolve_workflow_frame [OF st1] and nc = newly_completed_resolve [OF st1]
  have fr2: "deployments d2 = deployments d" "event_outbox d2 = event_outbox d"
    using put_workflow_run_frame(1) [OF st2] fr1 by simp_all
  define d3 where "d3 = emit_run_completed E now utc org repo i w run
      (is_default_run default_branch run) (completion_time run) d2"
  obtain data where out3: "event_outbox d3 = event_outbox d @ [outbox_row_of E now utc (next_id d2)
       (OutboxEvent_new ''workflow_run'' i ''workflow_run.completed'' org repo data)]"
    unfolding d3_def using emit_outbox fr2(2) by metis
  have dep3: "deployments d3 = deployments d" by (simp add: d3_def table_simps fr2)
  show ?thesis
  proof (cases "newly_completed run d")
    case False
    with st3 nc fr2 show ?thesis by simp
  next
    case True
    then have ct: "completion_time run = run_updated_at run"
      by (simp add: completion_time_def newly_completed_def)
    let ?e1 = "outbox_row_of E now utc (next_id d2)
       (OutboxEvent_new ''workflow_run'' i ''workflow_run.completed'' org repo data)"
    show ?thesis
    proof (cases "ships default_branch run")
      case False
      with True nc st3 have "d' = d3" by (simp add: d3_def Let_def)
      with True False out3 dep3 show ?thesis by (auto simp: row_simps)
    next
      case s: True
      with True nc st3 have "infer_deployment E now utc repo org i run (completion_time run) d3 = Inr ((), d')"
        by (simp add: d3_def Let_def)
      from ship_effect [OF this [unfolded ct] dep3] True s out3 show ?thesis
        by (cases "has_inferred i d") (auto simp: row_simps intro!: exI [of _ ?e1])
    qed
  qed
qed

section \<open>The stored run\<close>

lemma new_run_key: "run_key (new_run_row repo b run w d1) = (run_gid run, run_attempt run)"
  by (simp add: new_run_row_def run_row_def run_key_def)

lemma ingest_runs:
  assumes run: "ingest_workflow_run E now utc repo org default_branch run workflow d = Inr (i, d')"
  obtains w d1 where "resolve_workflow repo run workflow d = Inr (w, d1)"
    "workflow_runs d' = upsert run_key merge_run (new_run_row repo default_branch run w d1) (workflow_runs d)"
    "i = returning run_key wr_id (new_run_row repo default_branch run w d1) (workflow_runs d)"
    "workflows d' = workflows d1" "commits d' = commits d" "pull_requests d' = pull_requests d"
    "repositories d' = repositories d"
    "list_all (\<lambda>r. run_key r = (run_gid run, run_attempt run) \<longrightarrow> run_fks d1 r) (workflow_runs d')"
proof -
  from run obtain w d1 d2 where
    st1: "resolve_workflow repo run workflow d = Inr (w, d1)" and
    st2: "put_workflow_run (new_run_row repo default_branch run w d1) d1 = Inr (i, d2)" and
    st3: "if newly_completed run d1
     then (let d3 = emit_run_completed E now utc org repo i w run (is_default_run default_branch run)
                      (completion_time run) d2
           in if ships default_branch run
              then infer_deployment E now utc repo org i run (completion_time run) d3 = Inr ((), d')
              else d' = d3)
     else d' = d2"
    by (rule ingest_success)
  note fr1 = resolve_workflow_frame [OF st1] and fr2 = put_workflow_run_frame [OF st2]
  have "workflow_runs d' = workflow_runs d2 \<and> workflows d' = workflows d2 \<and> commits d' = commits d2 \<and>
      pull_requests d' = pull_requests d2 \<and> repositories d' = repositories d2"
    using st3 by (auto simp: Let_def table_simps split: if_splits dest!: infer_deployment_frame_all)
  with fr1 fr2 show ?thesis
    by (intro that [OF st1]) (simp_all add: new_run_key)
qed

lemma ingest_stored:
  assumes "ingest_workflow_run E now utc repo org default_branch run workflow d = Inr (i, d')"
  shows "\<exists>r. find (\<lambda>r. run_key r = (run_gid run, run_attempt run)) (workflow_runs d') = Some r \<and>
     wr_id r = i \<and> wr_status r = run_status run \<and> wr_conclusion r = run_conclusion run \<and>
     wr_head_sha r = run_head_sha run \<and> wr_is_default_branch r = is_default_run default_branch run \<and>
     wr_completed_at r = coalesce (completion_time run)
       (case find (\<lambda>r. run_key r = (run_gid run, run_attempt run)) (workflow_runs d) of
          None \<Rightarrow> None | Some old \<Rightarrow> wr_completed_at old)"
proof -
  from assms obtain w d1 where
    runs: "workflow_runs d' = upsert run_key merge_run (new_run_row repo default_branch run w d1) (workflow_runs d)"
    and i: "i = returning run_key wr_id (new_run_row repo default_branch run w d1) (workflow_runs d)"
    by (rule ingest_runs)
  let ?new = "new_run_row repo default_branch run w d1"
  have "find (\<lambda>r. run_key r = (run_gid run, run_attempt run)) (workflow_runs d') =
      Some (case find (\<lambda>r. run_key r = run_key ?new) (workflow_runs d) of None \<Rightarrow> ?new | Some old \<Rightarrow> merge_run ?new old)"
    unfolding runs new_run_key [of repo default_branch run w d1, symmetric] by (rule run_table.upsert_lookup)
  then show ?thesis
    by (auto simp: i returning_def new_run_key split: option.splits)
      (simp_all add: new_run_row_def run_row_def merge_run_def)
qed

lemma previous_after_ingest:
  "ingest_workflow_run E now utc repo org b run workflow d = Inr (i, d') \<Longrightarrow>
     previous_status run d' = Some (run_status run)"
  by (auto simp: previous_status_def dest!: ingest_stored)

lemma resolve_replay:
  assumes "resolve_workflow repo run workflow d = Inr (w, d1)" and "workflows d' = workflows d1"
    and "repositories d' = repositories d"
  shows "\<exists>n. resolve_workflow repo run workflow d' = Inr (w, d'\<lparr>next_id := n\<rparr>)"
proof (cases workflow)
  case None
  with assms have "resolve_workflow repo run workflow d' = Inr (w, d'\<lparr>next_id := next_id d'\<rparr>)"
    by (auto simp: resolve_workflow_def find_workflow_id_def)
  then show ?thesis by blast
next
  case (Some wflow)
  let ?row = "\<lambda>n. workflow_row n repo wflow"
  have row: "?row n = (?row 0)\<lparr>w_id := n\<rparr>" for n by (simp add: workflow_row_def)
  have known: "repository_known repo d" and w: "w = Some (returning workflow_key w_id (?row (next_id d)) (workflows d))"
    and ws: "workflows d' = upsert workflow_key merge_workflow (?row (next_id d)) (workflows d)"
    using assms Some by (auto simp: resolve_workflow_def upsert_workflow_def Let_def split: if_splits)
  have again: "upsert workflow_key merge_workflow (?row m) (workflows d') = workflows d'" for m
    unfolding ws row [of m] row [of "next_id d"]
    by (rule workflow_table.upsert_replay) (simp add: workflow_row_def)
  have key: "workflow_key (?row m) = workflow_key (?row n)" for m n
    by (simp add: workflow_row_def workflow_key_def)
  have ret: "returning workflow_key w_id (?row m) (workflows d') = returning workflow_key w_id (?row (next_id d)) (workflows d)" for m
    unfolding ws by (rule workflow_table.returning_again) (rule key)
  have "repository_known repo d'" using known assms(3) by (simp add: repository_known_def)
  then have "resolve_workflow repo run workflow d' = Inr (w, d'\<lparr>next_id := Suc (next_id d')\<rparr>)"
    by (simp add: Some resolve_workflow_def upsert_workflow_def Let_def again ret w)
  then show ?thesis by blast
qed

lemma ingest_replay:
  assumes "ingest_workflow_run E now utc repo org default_branch run workflow d = Inr (i, d')"
  shows "\<exists>n. ingest_workflow_run E now' utc' repo org default_branch run workflow d' =
               Inr (i, d'\<lparr>next_id := n\<rparr>)"
proof -
  from assms obtain w d1 where
    st1: "resolve_workflow repo run workflow d = Inr (w, d1)" and
    runs: "workflow_runs d' = upsert run_key merge_run (new_run_row repo default_branch run w d1) (workflow_runs d)" and
    i: "i = returning run_key wr_id (new_run_row repo default_branch run w d1) (workflow_runs d)" and
    ws: "workflows d' = workflows d1" "commits d' = commits d" "pull_requests d' = pull_requests d"
      "repositories d' = repositories d" and
    fks: "list_all (\<lambda>r. run_key r = (run_gid run, run_attempt run) \<longrightarrow> run_fks d1 r) (workflow_runs d')"
    by (rule ingest_runs)
  note fr1 = resolve_workflow_frame [OF st1]
  let ?new = "new_run_row repo default_branch run w d1"
  from resolve_replay [OF st1 ws(1,4)] obtain n where
    res: "resolve_workflow repo run workflow d' = Inr (w, d'\<lparr>next_id := n\<rparr>)" by blast
  let ?d1 = "d'\<lparr>next_id := n\<rparr>"
  have new: "new_run_row repo default_branch run w ?d1 = ?new\<lparr>wr_id := n\<rparr>"
    using fr1 ws by (simp add: new_run_row_def run_row_def find_commit_id_def find_pull_request_id_def
        split: list.splits)
  have same: "?new = ?new\<lparr>wr_id := next_id d1\<rparr>" by (simp add: new_run_row_def run_row_def)
  have again: "upsert run_key merge_run (?new\<lparr>wr_id := n\<rparr>) (workflow_runs d') = workflow_runs d'"
    unfolding runs by (subst (1 2) same) (rule run_table.upsert_replay, simp)
  have ret: "returning run_key wr_id (?new\<lparr>wr_id := n\<rparr>) (workflow_runs d') = i"
    unfolding runs i by (rule run_table.returning_again) (simp add: run_key_def)
  have "run_fks ?d1 r = run_fks d1 r" for r
    using fr1 ws by (simp add: run_fks_def repository_known_def)
  with fks have put: "put_workflow_run (new_run_row repo default_branch run w ?d1) ?d1 =
      Inr (i, d'\<lparr>next_id := Suc n\<rparr>)"
    unfolding new by (simp add: put_workflow_run_def Let_def again ret new_run_key run_table.key_set_rid)
  have "previous_status run ?d1 = Some (run_status run)"
    using previous_after_ingest [OF assms] by (simp add: previous_status_def)
  with put res show ?thesis
    by (auto simp: ingest_workflow_run_def Let_def new_run_row_def)
qed

section \<open>Jobs\<close>

lemma put_steps_frame [table_simps]:
  "workflow_jobs (fold (put_step k) steps d) = workflow_jobs d"
  "workflow_runs (fold (put_step k) steps d) = workflow_runs d"
  "workflows (fold (put_step k) steps d) = workflows d"
  "repositories (fold (put_step k) steps d) = repositories d"
  "commits (fold (put_step k) steps d) = commits d"
  "pull_requests (fold (put_step k) steps d) = pull_requests d"
  "deployments (fold (put_step k) steps d) = deployments d"
  "event_outbox (fold (put_step k) steps d) = event_outbox d"
  by (induction steps arbitrary: d) (simp_all add: put_step_def)

lemma put_step_inv:
  assumes inv: "ingest_inv d" and parent: "\<exists>j\<in>set (workflow_jobs d). wj_id j = k"
  shows "ingest_inv (put_step k s d)"
proof -
  let ?new = "step_row (next_id d) k s"
  have "table_ok step_key ws_id (Suc (next_id d)) (upsert step_key merge_step ?new (workflow_steps d))"
    using inv by (simp add: step_table.upsert_ok step_row_def ingest_inv_def)
  moreover have "\<exists>j\<in>set (workflow_jobs d). wj_id j = ws_workflow_job_id x"
    if "x \<in> set (upsert step_key merge_step ?new (workflow_steps d))" for x
    using _ _ _ that
    by (rule all_upsert) (use inv parent in \<open>auto simp: ingest_inv_def step_row_def merge_step_def\<close>)
  ultimately show ?thesis
    using inv unfolding ingest_inv_def run_fks_def job_fks_def deployment_ok_def repository_known_def
    by (auto simp: put_step_def intro: table_ok_mono)
qed

lemma put_steps_inv:
  "ingest_inv d \<Longrightarrow> \<exists>j\<in>set (workflow_jobs d). wj_id j = k \<Longrightarrow> ingest_inv (fold (put_step k) steps d)"
proof (induction steps arbitrary: d)
  case (Cons s steps)
  have "workflow_jobs (put_step k s d) = workflow_jobs d" by (simp add: put_step_def)
  with Cons put_step_inv show ?case by simp
qed simp

lemma put_job_inv:
  assumes inv: "ingest_inv d" and new: "wj_id new = next_id d"
    and fks: "list_all (\<lambda>j. job_key j = job_key new \<longrightarrow> job_fks d j) (upsert job_key merge_job new (workflow_jobs d))"
  shows "ingest_inv (d\<lparr>next_id := Suc (next_id d), workflow_jobs := upsert job_key merge_job new (workflow_jobs d)\<rparr>)"
proof -
  let ?jobs = "upsert job_key merge_job new (workflow_jobs d)"
  have "table_ok job_key wj_id (Suc (next_id d)) ?jobs"
    using inv new by (simp add: job_table.upsert_ok ingest_inv_def)
  moreover have "job_fks d j" if j: "j \<in> set ?jobs" for j
  proof (cases "job_key j = job_key new")
    case True
    with fks j show ?thesis by (simp add: list_all_iff)
  next
    case False
    with j have "j \<in> set (workflow_jobs d)"
      by (auto simp: upsert_def set_upd_where job_key_def merge_job_def split: if_splits)
    with inv show ?thesis by (simp add: ingest_inv_def)
  qed
  moreover have "\<exists>j\<in>set ?jobs. wj_id j = ws_workflow_job_id s" if "s \<in> set (workflow_steps d)" for s
    using that inv jobs_keep unfolding ingest_inv_def by metis
  ultimately show ?thesis
    using inv unfolding ingest_inv_def run_fks_def job_fks_def deployment_ok_def repository_known_def
    by (auto intro: table_ok_mono)
qed

lemma job_success:
  assumes "ingest_workflow_job repo job d = Inr (True, d')"
  obtains rid where "find_run_id (job_run_id job) (job_run_attempt job) d = Some rid"
    "d' = fold (put_step (returning job_key wj_id (job_row (next_id d) rid repo job) (workflow_jobs d))) (job_steps job)
       (d\<lparr>next_id := Suc (next_id d),
          workflow_jobs := upsert job_key merge_job (job_row (next_id d) rid repo job) (workflow_jobs d)\<rparr>)"
    "list_all (\<lambda>j. job_key j = job_key (job_row (next_id d) rid repo job) \<longrightarrow> job_fks d j)
       (upsert job_key merge_job (job_row (next_id d) rid repo job) (workflow_jobs d))"
  using assms by (auto simp: ingest_workflow_job_def Let_def split: option.splits if_splits)

lemma ingest_workflow_job_inv:
  assumes inv: "ingest_inv d" and run: "ingest_workflow_job repo job d = Inr (stored, d')"
  shows "ingest_inv d'"
proof (cases stored)
  case False
  with inv run show ?thesis
    by (auto simp: ingest_workflow_job_def Let_def split: option.splits if_splits)
next
  case True
  with run have "ingest_workflow_job repo job d = Inr (True, d')" by simp
  then obtain rid where "find_run_id (job_run_id job) (job_run_attempt job) d = Some rid" and
    d': "d' = fold (put_step (returning job_key wj_id (job_row (next_id d) rid repo job) (workflow_jobs d))) (job_steps job)
       (d\<lparr>next_id := Suc (next_id d),
          workflow_jobs := upsert job_key merge_job (job_row (next_id d) rid repo job) (workflow_jobs d)\<rparr>)" and
    fks: "list_all (\<lambda>j. job_key j = job_key (job_row (next_id d) rid repo job) \<longrightarrow> job_fks d j)
       (upsert job_key merge_job (job_row (next_id d) rid repo job) (workflow_jobs d))"
    by (rule job_success)
  let ?new = "job_row (next_id d) rid repo job"
  have "\<exists>j\<in>set (upsert job_key merge_job ?new (workflow_jobs d)). wj_id j = returning job_key wj_id ?new (workflow_jobs d)"
    using job_table.returning_member [of ?new "workflow_jobs d"] by (auto simp: image_iff)
  then show ?thesis
    unfolding d' by (intro put_steps_inv put_job_inv [OF inv _ fks]) (simp_all add: job_row_def)
qed

lemma job_stored:
  assumes "ingest_workflow_job repo job d = Inr (True, d')"
  shows "\<exists>j. find (\<lambda>j. job_key j = job_gid job) (workflow_jobs d') = Some j \<and>
     wj_status j = job_status job \<and> wj_conclusion j = job_conclusion job \<and>
     wj_completed_at j = job_completed_at job \<and>
     (find (\<lambda>j. job_key j = job_gid job) (workflow_jobs d) = None \<longrightarrow>
        Some (wj_workflow_run_id j) = find_run_id (job_run_id job) (job_run_attempt job) d)"
proof -
  from assms obtain rid where rid: "find_run_id (job_run_id job) (job_run_attempt job) d = Some rid" and
    d': "d' = fold (put_step (returning job_key wj_id (job_row (next_id d) rid repo job) (workflow_jobs d))) (job_steps job)
       (d\<lparr>next_id := Suc (next_id d),
          workflow_jobs := upsert job_key merge_job (job_row (next_id d) rid repo job) (workflow_jobs d)\<rparr>)"
    by (rule job_success)
  let ?new = "job_row (next_id d) rid repo job"
  have key: "job_gid job = job_key ?new" by (simp add: job_key_def job_row_def)
  have "find (\<lambda>j. job_key j = job_gid job) (workflow_jobs d') =
      Some (case find (\<lambda>j. job_key j = job_gid job) (workflow_jobs d) of None \<Rightarrow> ?new | Some old \<Rightarrow> merge_job ?new old)"
    unfolding d' key by (simp add: table_simps job_table.upsert_lookup)
  with rid show ?thesis by (auto simp: job_row_def merge_job_def split: option.splits)
qed

section \<open>Out-of-order statuses\<close>

text \<open>A delivery of the same run and attempt with an earlier status.\<close>

definition restarted :: "GitHubWorkflowRun \<Rightarrow> GitHubWorkflowRun" where
  "restarted run = run\<lparr>run_status := ''in_progress'', run_conclusion := None\<rparr>"

lemma restarted_key: "run_gid (restarted run) = run_gid run" "run_attempt (restarted run) = run_attempt run"
  by (simp_all add: restarted_def)

lemma ingest_id_stable:
  assumes "ingest_workflow_run E now utc repo org b run workflow d = Inr (i, d')"
    and "find_run_id (run_gid run) (run_attempt run) d = Some j"
  shows "i = j"
proof -
  from assms(1) obtain w d1 where
    "i = returning run_key wr_id (new_run_row repo b run w d1) (workflow_runs d)"
    by (rule ingest_runs)
  with assms(2) show ?thesis by (auto simp: returning_def new_run_key find_run_id_def)
qed

lemma ingest_find_run_id:
  "ingest_workflow_run E now utc repo org b run workflow d = Inr (i, d') \<Longrightarrow>
     find_run_id (run_gid run) (run_attempt run) d' = Some i"
  by (auto simp: find_run_id_def dest!: ingest_stored)

lemma completed_events:
  assumes run: "ingest_workflow_run E now utc repo org b run workflow d = Inr (i, d')"
  shows "length (events_of ''workflow_run.completed'' i d') =
     length (events_of ''workflow_run.completed'' i d) + (if newly_completed run d then 1 else 0)"
  using ingest_effect [OF run]
  by (auto simp: events_of_def is_event_def split: if_splits)

section \<open>Properties of the ingest\<close>

definition demo_repository :: repository where
  "demo_repository =
     \<lparr>r_id = 1, r_organization_id = 2, r_github_repo_id = 77, r_owner_login = ''o'', r_name = ''n'',
      r_default_branch = ''main'', r_tracking_enabled = True, r_deleted_at = None,
      r_description = None, r_is_private = False, r_is_archived = False, r_is_fork = False,
      r_primary_language = None, r_html_url = None, r_github_created_at = None, r_github_pushed_at = None,
      r_created_at = 0\<rparr>"

definition demo_repo_db :: db where
  "demo_repo_db = empty_db\<lparr>next_id := 10, repositories := [demo_repository]\<rparr>"

definition demo_run :: GitHubWorkflowRun where
  "demo_run =
     \<lparr>run_gid = 500, run_name = None, run_workflow_id = 9, run_number = 3, run_attempt = 1,
      run_event = ''push'', run_status = ''completed'', run_conclusion = Some ''success'',
      run_head_sha = ''abc'', run_head_branch = Some ''main'', run_actor = None,
      run_triggering_actor = None, run_created_at = None, run_run_started_at = Some 100,
      run_updated_at = Some 200, run_pull_requests = []\<rparr>"

definition demo_workflow :: GitHubWorkflow where
  "demo_workflow = \<lparr>wf_gid = 9, wf_name = ''ci'', wf_path = ''ci.yml'', wf_state = None\<rparr>"

definition demo_ingest :: "GitHubWorkflowRun \<Rightarrow> db \<Rightarrow> AppError + uuid \<times> db" where
  "demo_ingest run d = ingest_workflow_run demo_ext 0 0 1 2 ''main'' run (Some demo_workflow) d"

lemma demo_ingest_inv: "ingest_inv demo_repo_db"
  by (simp add: ingest_inv_def demo_repo_db_def empty_db_def)

lemmas ingest_eval =
  demo_ingest_def ingest_workflow_run_def resolve_workflow_def upsert_workflow_def workflow_row_def
  repository_known_def demo_repo_db_def demo_repository_def empty_db_def upsert_def returning_def
  put_workflow_run_def run_row_def find_commit_id_def find_pull_request_id_def run_fks_def fk_ok_def
  previous_status_def emit_run_completed_def infer_deployment_def enqueue_def deployment_taken_def
  deployment_row_def ships_def is_default_run_def completion_time_def DEPLOY_EVENTS_def
  demo_workflow_def Let_def run_key_def workflow_key_def merge_workflow_def merge_run_def
  inferred_key_def

text \<open>Three deliveries of the demo run: completed, in progress, completed.\<close>

definition demo_db1 :: db where "demo_db1 = snd (projr (demo_ingest demo_run demo_repo_db))"
definition demo_db2 :: db where "demo_db2 = snd (projr (demo_ingest (restarted demo_run) demo_db1))"
definition demo_db3 :: db where "demo_db3 = snd (projr (demo_ingest demo_run demo_db2))"

lemma demo_ingest1: "demo_ingest demo_run demo_repo_db = Inr (11, demo_db1)"
  by (simp add: demo_db1_def ingest_eval demo_run_def)

lemma demo_ingest2: "demo_ingest (restarted demo_run) demo_db1 = Inr (11, demo_db2)"
  by (simp add: demo_db2_def demo_db1_def restarted_def ingest_eval demo_run_def)

lemma demo_ingest3: "demo_ingest demo_run demo_db2 = Inr (11, demo_db3)"
  by (simp add: demo_db3_def demo_db2_def demo_db1_def restarted_def ingest_eval demo_run_def)

lemma restarted_reingest:
  assumes st1: "ingest_workflow_run E n1 u1 repo org b run workflow d = Inr (i, d1)"
    and st2: "ingest_workflow_run E n2 u2 repo org b (restarted run) workflow d1 = Inr (i2, d2)"
    and st3: "ingest_workflow_run E n3 u3 repo org b run workflow d2 = Inr (i3, d3)"
    and comp: "run_status run = ''completed''"
  shows "i2 = i" and "i3 = i" and "\<not> newly_completed (restarted run) d1" and "newly_completed run d2"
proof -
  have f1: "find_run_id (run_gid (restarted run)) (run_attempt (restarted run)) d1 = Some i"
    using ingest_find_run_id [OF st1] by (simp add: restarted_key)
  show i2: "i2 = i" by (rule ingest_id_stable [OF st2 f1])
  have f2: "find_run_id (run_gid run) (run_attempt run) d2 = Some i"
    using ingest_find_run_id [OF st2] by (simp add: restarted_key i2)
  show "i3 = i" by (rule ingest_id_stable [OF st3 f2])
  show "\<not> newly_completed (restarted run) d1" by (simp add: newly_completed_def restarted_def)
  have "previous_status run d2 = previous_status (restarted run) d2"
    by (simp add: previous_status_def restarted_key)
  then show "newly_completed run d2"
    using previous_after_ingest [OF st2] comp by (simp add: newly_completed_def restarted_def)
qed

text \<open>
  Ingesting runs and jobs keeps the tables well formed: one row per workflow, per run
  attempt, per job and per step of a job, unique ids, every soft reference of a run within
  the run's own repository, every job under a run of its repository, every step under an
  existing job, and at most one inferred deployment per run and environment.
\<close>

theorem ingest_keeps_invariant:
  assumes "ingest_inv d"
  shows "(ingest_workflow_run E now utc repo org b run workflow d = Inr (i, d1) \<longrightarrow> ingest_inv d1) \<and>
         (ingest_workflow_job repo job d = Inr (stored, d2) \<longrightarrow> ingest_inv d2)"
  using ingest_workflow_run_inv [OF assms] ingest_workflow_job_inv [OF assms] by blast

theorem ingest_keeps_invariant_witness: "ingest_inv demo_db1"
  using ingest_keeps_invariant [OF demo_ingest_inv] demo_ingest1 unfolding demo_ingest_def by blast

text \<open>
  C7. Replays converge: ingesting a run a second time, at any later time and whether it
  came from a webhook or a backfill with the same workflow object, succeeds with the same
  row id and changes nothing: no table, no deployment and no outbox row, only identifiers
  are drawn.
\<close>

theorem ingest_replay_changes_nothing:
  assumes "ingest_workflow_run E now utc repo org b run workflow d = Inr (i, d1)"
  shows "\<exists>n. ingest_workflow_run E now' utc' repo org b run workflow d1 = Inr (i, d1\<lparr>next_id := n\<rparr>)"
  by (rule ingest_replay [OF assms])

theorem ingest_replay_changes_nothing_witness:
  "\<exists>n. ingest_workflow_run demo_ext 5 6 1 2 ''main'' demo_run (Some demo_workflow) demo_db1 =
         Inr (11, demo_db1\<lparr>next_id := n\<rparr>)"
  by (rule ingest_replay_changes_nothing [OF demo_ingest1 [unfolded demo_ingest_def]])

text \<open>
  C8. The exact events and deployments of an ingest: one pending
  \<open>workflow_run.completed\<close> event for the run's row when, and only when, the run is
  completed and was not stored as completed before; with it one production deployment and its
  \<open>deployment.recorded\<close> event when, and only when, the run is a successful push, release
  or manual run of the default branch and none was inferred from it before. The deployment
  is dated with the run's completion time.
\<close>

theorem ingest_events_exact:
  assumes "ingest_workflow_run E now utc repo org b run workflow d = Inr (i, d')"
  shows "if newly_completed run d
     then (\<exists>e1. eo_event_type e1 = ''workflow_run.completed'' \<and> eo_aggregate_id e1 = i \<and> eo_status e1 = Pending \<and>
       (if ships b run \<and> \<not> has_inferred i d
        then (\<exists>x e2. deployments d' = deployments d @ [x] \<and> is_inferred x \<and> d_is_production x \<and>
               d_workflow_run_id x = Some i \<and> d_environment x = INFERRED_ENVIRONMENT \<and>
               d_sha x = run_head_sha run \<and> d_deployed_at x = run_updated_at run \<and>
               eo_event_type e2 = ''deployment.recorded'' \<and> eo_aggregate_id e2 = d_id x \<and> eo_status e2 = Pending \<and>
               event_outbox d' = event_outbox d @ [e1, e2])
        else deployments d' = deployments d \<and> event_outbox d' = event_outbox d @ [e1]))
     else deployments d' = deployments d \<and> event_outbox d' = event_outbox d"
  by (rule ingest_effect [OF assms])

theorem ingest_events_exact_witness:
  "\<exists>e1 x e2. eo_aggregate_id e1 = 11 \<and> eo_event_type e1 = ''workflow_run.completed'' \<and>
     deployments demo_db1 = [x] \<and> d_workflow_run_id x = Some 11 \<and>
     eo_event_type e2 = ''deployment.recorded'' \<and> event_outbox demo_db1 = [e1, e2]"
proof -
  have "newly_completed demo_run demo_repo_db" "ships ''main'' demo_run" "\<not> has_inferred 11 demo_repo_db"
    "deployments demo_repo_db = []" "event_outbox demo_repo_db = []"
    by (simp_all add: newly_completed_def has_inferred_def ingest_eval demo_run_def)
  then show ?thesis
    using ingest_events_exact [OF demo_ingest1 [unfolded demo_ingest_def]] by auto
qed

text \<open>
  The stored run mirrors the latest delivery: status, conclusion, head and
  default-branch flag are those delivered, and the completion time is the delivered one or,
  for a delivery that is not a completion, the one already stored.
\<close>

theorem ingest_stores_run:
  assumes "ingest_workflow_run E now utc repo org b run workflow d = Inr (i, d')"
  shows "\<exists>r. find (\<lambda>r. run_key r = (run_gid run, run_attempt run)) (workflow_runs d') = Some r \<and>
     wr_id r = i \<and> wr_status r = run_status run \<and> wr_conclusion r = run_conclusion run \<and>
     wr_head_sha r = run_head_sha run \<and> wr_is_default_branch r = is_default_run b run \<and>
     wr_completed_at r = coalesce (completion_time run)
       (case find (\<lambda>r. run_key r = (run_gid run, run_attempt run)) (workflow_runs d) of
          None \<Rightarrow> None | Some old \<Rightarrow> wr_completed_at old)"
  by (rule ingest_stored [OF assms])

theorem ingest_stores_run_witness:
  "\<exists>r. find (\<lambda>r. run_key r = (500, 1)) (workflow_runs demo_db1) = Some r \<and>
     wr_id r = 11 \<and> wr_status r = ''completed'' \<and> wr_completed_at r = Some 200"
  using ingest_stores_run [OF demo_ingest1 [unfolded demo_ingest_def]]
  by (auto simp: demo_run_def completion_time_def demo_repo_db_def empty_db_def)

text \<open>
  A late delivery undoes a completion: when an \<open>in_progress\<close> delivery of a run
  arrives after its \<open>completed\<close> one, the stored status goes back to
  \<open>in_progress\<close>, and a redelivery of the completion emits a second \<open>workflow_run.completed\<close> event for the same row.
\<close>

theorem late_delivery_refires:
  assumes "ingest_workflow_run E n1 u1 repo org b run workflow d = Inr (i, d1)"
    and "ingest_workflow_run E n2 u2 repo org b (restarted run) workflow d1 = Inr (i2, d2)"
    and "ingest_workflow_run E n3 u3 repo org b run workflow d2 = Inr (i3, d3)"
    and "run_status run = ''completed''"
  shows "i2 = i \<and> i3 = i \<and>
     previous_status run d2 = Some ''in_progress'' \<and>
     length (events_of ''workflow_run.completed'' i d3) =
       Suc (length (events_of ''workflow_run.completed'' i d1))"
proof -
  note st = restarted_reingest [OF assms]
  have "previous_status run d2 = previous_status (restarted run) d2"
    by (simp add: previous_status_def restarted_key)
  with previous_after_ingest [OF assms(2)] have "previous_status run d2 = Some ''in_progress''"
    by (simp add: restarted_def)
  then show ?thesis
    using st completed_events [OF assms(2)] completed_events [OF assms(3)] by simp
qed

theorem late_delivery_refires_witness:
  "previous_status demo_run demo_db2 = Some ''in_progress'' \<and>
   length (events_of ''workflow_run.completed'' 11 demo_db3) = Suc (length (events_of ''workflow_run.completed'' 11 demo_db1))"
  using late_delivery_refires [OF demo_ingest1 [unfolded demo_ingest_def]
      demo_ingest2 [unfolded demo_ingest_def] demo_ingest3 [unfolded demo_ingest_def]]
  by (simp add: demo_run_def)

text \<open>
  Jobs follow their run: a job whose run attempt is not stored is refused without any
  change; otherwise, when the ingest succeeds, the job is stored with the delivered status,
  conclusion and completion time, and a job seen for the first time is linked to the row of
  its run attempt.
\<close>

theorem job_follows_run:
  "(find_run_id (job_run_id job) (job_run_attempt job) d = None \<longrightarrow>
      ingest_workflow_job repo job d = Inr (False, d)) \<and>
   (ingest_workflow_job repo job d = Inr (True, d') \<longrightarrow>
     (\<exists>j. find (\<lambda>j. job_key j = job_gid job) (workflow_jobs d') = Some j \<and>
       wj_status j = job_status job \<and> wj_conclusion j = job_conclusion job \<and>
       wj_completed_at j = job_completed_at job \<and>
       (find (\<lambda>j. job_key j = job_gid job) (workflow_jobs d) = None \<longrightarrow>
          Some (wj_workflow_run_id j) = find_run_id (job_run_id job) (job_run_attempt job) d)))"
  using job_stored by (auto simp: ingest_workflow_job_def)

definition demo_job :: GitHubJob where
  "demo_job =
     \<lparr>job_gid = 800, job_run_id = 500, job_run_attempt = 1, job_name = ''build'', job_status = ''completed'',
      job_conclusion = None, job_started_at = None, job_completed_at = Some 150, job_runner_id = None,
      job_runner_name = None, job_runner_group_name = None, job_labels = [], job_steps = []\<rparr>"

theorem job_follows_run_witness:
  "ingest_workflow_job 1 demo_job demo_repo_db = Inr (False, demo_repo_db)"
  using job_follows_run [of demo_job demo_repo_db 1]
  by (simp add: find_run_id_def demo_repo_db_def empty_db_def)

end
