(* ===== verification/Vcs_Ingest.thy ===== *)
theory Vcs_Ingest
  imports Workflow_Ingest
begin

text \<open>
  Branches, commits and pull requests: the upserts of \<^verbatim>\<open>gateway/src/repository_sync.rs\<close>
  shared with the webhook handlers, and the \<open>push\<close>, \<open>pull_request\<close> and
  \<open>pull_request_review\<close> handlers of \<^verbatim>\<open>gateway/src/webhooks.rs\<close> with their payload
  structs. \<open>facts_inv\<close> is the invariant of all fact tables; every handler keeps it.
\<close>

section \<open>Commits\<close>

definition commit_key :: "commit \<Rightarrow> uuid \<times> string" where
  "commit_key c = (c_repository_id c, c_sha c)"

definition merge_commit :: "commit \<Rightarrow> commit \<Rightarrow> commit" where
  "merge_commit new old =
     old\<lparr>c_message := c_message new, c_author_name := c_author_name new,
         c_author_email := c_author_email new, c_author_login := c_author_login new,
         c_author_github_user_id := c_author_github_user_id new,
         c_committer_name := c_committer_name new, c_committer_email := c_committer_email new,
         c_authored_at := c_authored_at new, c_committed_at := c_committed_at new,
         c_is_merge_commit := c_is_merge_commit new\<rparr>"

definition commit_row :: "uuid \<Rightarrow> uuid \<Rightarrow> timestamp \<Rightarrow> GitHubCommit \<Rightarrow> commit" where
  "commit_row i repository_id committed_at commit =
     (let detail = gc_commit commit
      in \<lparr>c_id = i, c_repository_id = repository_id, c_sha = gc_sha commit,
          c_message = Some (cd_message detail),
          c_author_name = Option.bind (cd_author detail) sg_name,
          c_author_email = Option.bind (cd_author detail) sg_email,
          c_author_login = map_option us_login (gc_author commit),
          c_author_github_user_id = map_option us_id (gc_author commit),
          c_committer_name = Option.bind (cd_committer detail) sg_name,
          c_committer_email = Option.bind (cd_committer detail) sg_email,
          c_authored_at = Option.bind (cd_author detail) sg_date,
          c_committed_at = committed_at,
          c_is_merge_commit = (length (gc_parents commit) > 1)\<rparr>)"

text \<open>One \<open>INSERT INTO commits \<dots> ON CONFLICT\<close>, with the repository's foreign key.\<close>

definition put_commit :: "(commit \<Rightarrow> commit \<Rightarrow> commit) \<Rightarrow> commit \<Rightarrow> unit tx" where
  "put_commit merge new d =
     (if repository_known (c_repository_id new) d
      then Inr ((), d\<lparr>next_id := Suc (next_id d), commits := upsert commit_key merge new (commits d)\<rparr>)
      else Inl (Internal ''commits_repository_id_fkey''))"

definition upsert_commit :: "uuid \<Rightarrow> GitHubCommit \<Rightarrow> unit tx" where
  "upsert_commit repository_id commit d =
     (let detail = gc_commit commit;
          authored_at = Option.bind (cd_author detail) sg_date
      in case coalesce (Option.bind (cd_committer detail) sg_date) authored_at of
           None \<Rightarrow> Inl (Upstream ''GitHub commit has no timestamp'')
         | Some committed_at \<Rightarrow>
             put_commit merge_commit (commit_row (next_id d) repository_id committed_at commit) d)"

section \<open>Pull requests\<close>

definition pull_key :: "pull_request \<Rightarrow> uuid \<times> int" where
  "pull_key p = (pr_repository_id p, pr_number p)"

definition merge_pull :: "pull_request \<Rightarrow> pull_request \<Rightarrow> pull_request" where
  "merge_pull new old =
     old\<lparr>pr_github_pr_id := pr_github_pr_id new, pr_title := pr_title new,
         pr_state := pr_state new, pr_is_draft := pr_is_draft new,
         pr_author_login := pr_author_login new,
         pr_author_github_user_id := pr_author_github_user_id new,
         pr_head_ref := pr_head_ref new, pr_head_sha := pr_head_sha new,
         pr_base_ref := pr_base_ref new, pr_base_sha := pr_base_sha new,
         pr_merge_commit_sha := pr_merge_commit_sha new,
         pr_merged_by_login := pr_merged_by_login new,
         pr_additions := coalesce (pr_additions new) (pr_additions old),
         pr_deletions := coalesce (pr_deletions new) (pr_deletions old),
         pr_changed_files := coalesce (pr_changed_files new) (pr_changed_files old),
         pr_commits_count := coalesce (pr_commits_count new) (pr_commits_count old),
         pr_comments_count := pr_comments_count new,
         pr_review_comments_count := pr_review_comments_count new,
         pr_first_review_at := least_opt (pr_first_review_at old) (pr_first_review_at new),
         pr_closed_at := pr_closed_at new, pr_merged_at := pr_merged_at new\<rparr>"

definition pull_row :: "uuid \<Rightarrow> uuid \<Rightarrow> GitHubPullRequest \<Rightarrow> timestamp option \<Rightarrow> pull_request" where
  "pull_row i repository_id pull first_review_at =
     \<lparr>pr_id = i, pr_repository_id = repository_id, pr_github_pr_id = gp_id pull,
      pr_number = gp_number pull, pr_title = gp_title pull, pr_state = gp_state pull,
      pr_is_draft = gp_draft pull, pr_author_login = map_option us_login (gp_user pull),
      pr_author_github_user_id = map_option us_id (gp_user pull),
      pr_head_ref = ref_name (gp_head pull), pr_head_sha = ref_sha (gp_head pull),
      pr_base_ref = ref_name (gp_base pull), pr_base_sha = ref_sha (gp_base pull),
      pr_merge_commit_sha = gp_merge_commit_sha pull,
      pr_merged_by_login = map_option us_login (gp_merged_by pull),
      pr_additions = gp_additions pull, pr_deletions = gp_deletions pull,
      pr_changed_files = gp_changed_files pull, pr_commits_count = gp_commits pull,
      pr_comments_count = gp_comments pull,
      pr_review_comments_count = gp_review_comments pull, pr_opened_at = gp_opened_at pull,
      pr_first_review_at = first_review_at, pr_closed_at = gp_closed_at pull,
      pr_merged_at = gp_merged_at pull\<rparr>"

text \<open>
  \<open>github_pr_id\<close> is unique over all repositories; a violation of it is not the
  conflict the statement handles and fails it.
\<close>

definition upsert_pull_request :: "uuid \<Rightarrow> GitHubPullRequest \<Rightarrow> timestamp option \<Rightarrow> unit tx" where
  "upsert_pull_request repository_id pull first_review_at d =
     (let new = pull_row (next_id d) repository_id pull first_review_at
      in if list_ex (\<lambda>p. pull_key p \<noteq> pull_key new \<and> pr_github_pr_id p = pr_github_pr_id new)
              (pull_requests d)
         then Inl (Internal ''pull_requests_github_pr_id_key'')
         else if \<not> repository_known repository_id d
         then Inl (Internal ''pull_requests_repository_id_fkey'')
         else Inr ((), d\<lparr>next_id := Suc (next_id d),
                         pull_requests := upsert pull_key merge_pull new (pull_requests d)\<rparr>))"

definition existing_first_review :: "uuid \<Rightarrow> int \<Rightarrow> db \<Rightarrow> timestamp option" where
  "existing_first_review repository_id number d =
     (case find (\<lambda>p. pull_key p = (repository_id, number)) (pull_requests d) of
        None \<Rightarrow> None
      | Some p \<Rightarrow> pr_first_review_at p)"

record ReviewPayload =
  rv_submitted_at :: "timestamp option"

definition de_ReviewPayload :: "ext \<Rightarrow> ReviewPayload de" where
  "de_ReviewPayload E v = do {
     _ \<leftarrow> (if is_object v then Some () else None);
     submitted_at \<leftarrow> de_optional ''submitted_at'' (de_date E) v;
     Some \<lparr>rv_submitted_at = submitted_at\<rparr>
   }"

text \<open>\<open>payload.get(k).cloned().ok_or_else(bad_request)\<close> followed by \<open>from_value\<close>.\<close>

definition payload_field :: "ext \<Rightarrow> string \<Rightarrow> string \<Rightarrow> 'a de \<Rightarrow> json \<Rightarrow> 'a result" where
  "payload_field E k missing de payload =
     (case get_field k payload of
        None \<Rightarrow> Inl (BadRequest missing)
      | Some v \<Rightarrow> from_value E de v)"

definition apply_pull_request :: "ext \<Rightarrow> uuid \<Rightarrow> json \<Rightarrow> bool tx" where
  "apply_pull_request E repository_id payload d =
     (case payload_field E ''pull_request'' ''pull_request payload is missing the PR''
             (de_GitHubPullRequest E) payload of
        Inl e \<Rightarrow> Inl e
      | Inr pull \<Rightarrow>
          (case upsert_pull_request repository_id pull
                  (existing_first_review repository_id (gp_number pull) d) d of
             Inl e \<Rightarrow> Inl e
           | Inr (_, d') \<Rightarrow> Inr (True, d')))"

definition apply_pull_request_review :: "ext \<Rightarrow> uuid \<Rightarrow> json \<Rightarrow> bool tx" where
  "apply_pull_request_review E repository_id payload d =
     (case payload_field E ''pull_request'' ''review payload is missing the PR''
             (de_GitHubPullRequest E) payload of
        Inl e \<Rightarrow> Inl e
      | Inr pull \<Rightarrow>
          (case payload_field E ''review'' ''review payload is missing the review''
                  (de_ReviewPayload E) payload of
             Inl e \<Rightarrow> Inl e
           | Inr review \<Rightarrow>
               let existing = existing_first_review repository_id (gp_number pull) d;
                   first_review_at =
                     (case (existing, rv_submitted_at review) of
                        (Some existing, Some submitted) \<Rightarrow> Some (min existing submitted)
                      | (existing, submitted) \<Rightarrow> coalesce existing submitted)
               in (case upsert_pull_request repository_id pull first_review_at d of
                     Inl e \<Rightarrow> Inl e
                   | Inr (_, d') \<Rightarrow> Inr (True, d'))))"

section \<open>Pushes\<close>

record PushIdentity =
  pi_name :: "string option"
  pi_email :: "string option"
  pi_username :: "string option"

record PushCommit =
  pc_id :: string
  pc_message :: string
  pc_timestamp :: timestamp
  pc_author :: PushIdentity
  pc_committer :: PushIdentity

record PushPayload =
  ps_reference :: string
  ps_after :: string
  ps_deleted :: bool
  ps_default_branch :: string
  ps_commits :: "PushCommit list"

definition de_PushIdentity :: "PushIdentity de" where
  "de_PushIdentity v = do {
     _ \<leftarrow> (if is_object v then Some () else None);
     name \<leftarrow> de_optional ''name'' de_str v;
     email \<leftarrow> de_optional ''email'' de_str v;
     username \<leftarrow> de_optional ''username'' de_str v;
     Some \<lparr>pi_name = name, pi_email = email, pi_username = username\<rparr>
   }"

definition de_PushCommit :: "ext \<Rightarrow> PushCommit de" where
  "de_PushCommit E v = do {
     i \<leftarrow> de_required ''id'' de_str v;
     message \<leftarrow> de_required ''message'' de_str v;
     at \<leftarrow> de_required ''timestamp'' (de_date E) v;
     author \<leftarrow> de_required ''author'' de_PushIdentity v;
     committer \<leftarrow> de_required ''committer'' de_PushIdentity v;
     Some \<lparr>pc_id = i, pc_message = message, pc_timestamp = at, pc_author = author,
           pc_committer = committer\<rparr>
   }"

text \<open>The nested \<open>PushRepository\<close> has the default branch as its only field.\<close>

definition de_PushPayload :: "ext \<Rightarrow> PushPayload de" where
  "de_PushPayload E v = do {
     reference \<leftarrow> de_required ''ref'' de_str v;
     after \<leftarrow> de_required ''after'' de_str v;
     deleted \<leftarrow> de_default ''deleted'' False de_bool v;
     default_branch \<leftarrow> de_required ''repository'' (de_required ''default_branch'' de_str) v;
     commits \<leftarrow> de_default ''commits'' [] (de_vec (de_PushCommit E)) v;
     Some \<lparr>ps_reference = reference, ps_after = after, ps_deleted = deleted,
           ps_default_branch = default_branch, ps_commits = commits\<rparr>
   }"

definition branch_key :: "branch \<Rightarrow> uuid \<times> string" where
  "branch_key b = (b_repository_id b, b_name b)"

definition merge_branch :: "branch \<Rightarrow> branch \<Rightarrow> branch" where
  "merge_branch new old =
     old\<lparr>b_head_sha := b_head_sha new, b_is_default := b_is_default new, b_deleted_at := None\<rparr>"

definition push_commit_row :: "uuid \<Rightarrow> uuid \<Rightarrow> PushCommit \<Rightarrow> commit" where
  "push_commit_row i repository_id commit =
     \<lparr>c_id = i, c_repository_id = repository_id, c_sha = pc_id commit,
      c_message = Some (pc_message commit), c_author_name = pi_name (pc_author commit),
      c_author_email = pi_email (pc_author commit),
      c_author_login = pi_username (pc_author commit), c_author_github_user_id = None,
      c_committer_name = pi_name (pc_committer commit),
      c_committer_email = pi_email (pc_committer commit),
      c_authored_at = Some (pc_timestamp commit), c_committed_at = pc_timestamp commit,
      c_is_merge_commit = False\<rparr>"

definition merge_push_commit :: "commit \<Rightarrow> commit \<Rightarrow> commit" where
  "merge_push_commit new old =
     old\<lparr>c_message := c_message new, c_author_name := c_author_name new,
         c_author_email := c_author_email new, c_author_login := c_author_login new,
         c_committer_name := c_committer_name new, c_committer_email := c_committer_email new,
         c_authored_at := c_authored_at new, c_committed_at := c_committed_at new\<rparr>"

definition upsert_push_commit :: "uuid \<Rightarrow> PushCommit \<Rightarrow> unit tx" where
  "upsert_push_commit repository_id commit d =
     put_commit merge_push_commit (push_commit_row (next_id d) repository_id commit) d"

fun upsert_push_commits :: "uuid \<Rightarrow> PushCommit list \<Rightarrow> unit tx" where
  "upsert_push_commits repository_id [] d = Inr ((), d)"
| "upsert_push_commits repository_id (commit # rest) d =
     (case upsert_push_commit repository_id commit d of
        Inl e \<Rightarrow> Inl e
      | Inr (_, d') \<Rightarrow> upsert_push_commits repository_id rest d')"

definition put_branch :: "timestamp \<Rightarrow> uuid \<Rightarrow> PushPayload \<Rightarrow> string \<Rightarrow> unit tx" where
  "put_branch now repository_id push branch_name d =
     (if ps_deleted push
      then Inr ((), d\<lparr>branches := upd_where (\<lambda>b. branch_key b = (repository_id, branch_name))
                                   (\<lambda>b. b\<lparr>b_deleted_at := Some now\<rparr>) (branches d)\<rparr>)
      else if \<not> repository_known repository_id d
      then Inl (Internal ''branches_repository_id_fkey'')
      else Inr ((), d\<lparr>next_id := Suc (next_id d),
             branches := upsert branch_key merge_branch
               \<lparr>b_id = next_id d, b_repository_id = repository_id, b_name = branch_name,
                b_head_sha = ps_after push,
                b_is_default = (branch_name = ps_default_branch push),
                b_is_protected = False, b_deleted_at = None\<rparr>
               (branches d)\<rparr>))"

definition apply_push :: "ext \<Rightarrow> timestamp \<Rightarrow> uuid \<Rightarrow> json \<Rightarrow> bool tx" where
  "apply_push E now repository_id payload d =
     (case from_value E (de_PushPayload E) payload of
        Inl e \<Rightarrow> Inl e
      | Inr push \<Rightarrow>
          (case strip_prefix (ps_reference push) ''refs/heads/'' of
             None \<Rightarrow> Inr (False, d)
           | Some branch_name \<Rightarrow>
               (case put_branch now repository_id push branch_name d of
                  Inl e \<Rightarrow> Inl e
                | Inr (_, d1) \<Rightarrow>
                    (case upsert_push_commits repository_id (ps_commits push) d1 of
                       Inl e \<Rightarrow> Inl e
                     | Inr (_, d2) \<Rightarrow> Inr (True, d2)))))"

section \<open>The upsert statements keep their contract\<close>

interpretation commit_table: keyed_table commit_key c_id "\<lambda>i r. r\<lparr>c_id := i\<rparr>" merge_commit "\<lambda>_. True"
  by unfold_locales (simp_all add: commit_key_def merge_commit_def)

interpretation push_commit_table: keyed_table commit_key c_id "\<lambda>i r. r\<lparr>c_id := i\<rparr>" merge_push_commit "\<lambda>_. True"
  by unfold_locales (simp_all add: commit_key_def merge_push_commit_def)

interpretation pull_table: keyed_table pull_key pr_id "\<lambda>i r. r\<lparr>pr_id := i\<rparr>" merge_pull "\<lambda>_. True"
  by unfold_locales (simp_all add: pull_key_def merge_pull_def)

interpretation branch_table: keyed_table branch_key b_id "\<lambda>i r. r\<lparr>b_id := i\<rparr>" merge_branch
  "\<lambda>b. b_deleted_at b = None"
  by unfold_locales (simp_all add: branch_key_def merge_branch_def)

section \<open>The invariant of the fact tables\<close>

definition vcs_inv :: "db \<Rightarrow> bool" where
  "vcs_inv d \<longleftrightarrow>
     table_ok commit_key c_id (next_id d) (commits d) \<and>
     table_ok branch_key b_id (next_id d) (branches d) \<and>
     table_ok pull_key pr_id (next_id d) (pull_requests d) \<and>
     distinct (map pr_github_pr_id (pull_requests d))"

definition facts_inv :: "db \<Rightarrow> bool" where
  "facts_inv d \<longleftrightarrow> ingest_inv d \<and> vcs_inv d"

lemma vcs_inv_cong:
  "vcs_inv d \<Longrightarrow> next_id d \<le> next_id d1 \<Longrightarrow> commits d1 = commits d \<Longrightarrow> branches d1 = branches d \<Longrightarrow>
     pull_requests d1 = pull_requests d \<Longrightarrow> vcs_inv d1"
  by (auto simp: vcs_inv_def intro: table_ok_mono)

text \<open>Growing a referenced table keeps the references of the runs.\<close>

lemma ingest_inv_grow:
  assumes "ingest_inv d" and "next_id d \<le> next_id d1"
    "workflows d1 = workflows d" "workflow_runs d1 = workflow_runs d" "workflow_jobs d1 = workflow_jobs d"
    "workflow_steps d1 = workflow_steps d" "deployments d1 = deployments d" "repositories d1 = repositories d"
    and "\<And>ref repo. fk_ok ref repo c_id c_repository_id (commits d) \<Longrightarrow> fk_ok ref repo c_id c_repository_id (commits d1)"
    and "\<And>ref repo. fk_ok ref repo pr_id pr_repository_id (pull_requests d) \<Longrightarrow>
           fk_ok ref repo pr_id pr_repository_id (pull_requests d1)"
  shows "ingest_inv d1"
  using assms unfolding ingest_inv_def run_fks_def job_fks_def deployment_ok_def repository_known_def
  by (auto intro: table_ok_mono)

lemma commits_keep:
  "fk_ok ref repo c_id c_repository_id (commits d) \<Longrightarrow>
     fk_ok ref repo c_id c_repository_id (upsert commit_key merge_commit new (commits d))"
  "fk_ok ref repo c_id c_repository_id (commits d) \<Longrightarrow>
     fk_ok ref repo c_id c_repository_id (upsert commit_key merge_push_commit new (commits d))"
  by (rule fk_ok_upsert; simp add: merge_commit_def merge_push_commit_def)+

lemma pulls_keep:
  "fk_ok ref repo pr_id pr_repository_id (pull_requests d) \<Longrightarrow>
     fk_ok ref repo pr_id pr_repository_id (upsert pull_key merge_pull new (pull_requests d))"
  by (rule fk_ok_upsert) (simp_all add: merge_pull_def)

lemma put_commit_inv:
  assumes inv: "facts_inv d" and put: "put_commit merge new d = Inr (u, d1)" and new: "c_id new = next_id d"
    and merge: "merge = merge_commit \<or> merge = merge_push_commit"
  shows "facts_inv d1"
proof -
  have d1: "d1 = d\<lparr>next_id := Suc (next_id d), commits := upsert commit_key merge new (commits d)\<rparr>"
    using put by (auto simp: put_commit_def split: if_splits)
  have "ingest_inv d1"
    using inv merge unfolding facts_inv_def by (elim conjE ingest_inv_grow) (auto simp: d1 commits_keep)
  moreover have "table_ok commit_key c_id (Suc (next_id d)) (upsert commit_key merge new (commits d))"
    using inv new merge commit_table.upsert_ok push_commit_table.upsert_ok
    by (auto simp: facts_inv_def vcs_inv_def)
  ultimately show ?thesis
    using inv by (auto simp: facts_inv_def vcs_inv_def d1 intro: table_ok_mono)
qed

lemma upsert_commit_inv: "facts_inv d \<Longrightarrow> upsert_commit repo commit d = Inr (u, d1) \<Longrightarrow> facts_inv d1"
  by (auto simp: upsert_commit_def Let_def commit_row_def split: option.splits elim!: put_commit_inv)

lemma upsert_push_commits_inv:
  "facts_inv d \<Longrightarrow> upsert_push_commits repo cs d = Inr (u, d1) \<Longrightarrow> facts_inv d1"
proof (induction cs arbitrary: d)
  case (Cons c cs)
  from Cons.prems(2) obtain d2 where "upsert_push_commit repo c d = Inr ((), d2)"
    and rest: "upsert_push_commits repo cs d2 = Inr (u, d1)" by (auto split: sum.splits)
  with Cons.prems(1) have "facts_inv d2"
    by (auto simp: upsert_push_commit_def push_commit_row_def elim!: put_commit_inv)
  from Cons.IH [OF this rest] show ?case .
qed simp

lemma put_branch_inv:
  assumes inv: "facts_inv d" and put: "put_branch now repo push name d = Inr (u, d1)"
  shows "facts_inv d1"
proof -
  from inv have "ingest_inv d1"
    using put unfolding facts_inv_def
    by (elim conjE ingest_inv_grow) (auto simp: put_branch_def split: if_splits)
  moreover have "vcs_inv d1"
  proof (cases "ps_deleted push")
    case True
    with put inv show ?thesis
      by (auto simp: put_branch_def facts_inv_def vcs_inv_def branch_key_def intro!: table_ok_upd)
  next
    case False
    with put inv show ?thesis
      by (auto simp: put_branch_def facts_inv_def vcs_inv_def branch_table.upsert_ok
          intro: table_ok_mono split: if_splits)
  qed
  ultimately show ?thesis by (simp add: facts_inv_def)
qed

lemma apply_push_inv: "facts_inv d \<Longrightarrow> apply_push E now repo payload d = Inr (b, d1) \<Longrightarrow> facts_inv d1"
  by (auto simp: apply_push_def split: sum.splits option.splits
      intro: upsert_push_commits_inv put_branch_inv)

lemma distinct_upsert_unique:
  assumes "distinct (map key rows)" and "distinct (map f rows)"
    and "\<And>r. r \<in> set rows \<Longrightarrow> key r \<noteq> key new \<Longrightarrow> f r \<noteq> f new" and "\<And>old. f (merge new old) = f new"
  shows "distinct (map f (upsert key merge new rows))"
  using assms(1-3)
proof (induction rows)
  case Nil
  then show ?case by (simp add: upsert_def)
next
  case (Cons r rows)
  have IH: "distinct (map f (upsert key merge new rows))" using Cons by simp
  show ?case
  proof (cases "key r = key new")
    case True
    with Cons.prems(1) have "key new \<notin> key ` set rows" by simp
    then have no: "\<not> (\<exists>x\<in>set rows. key x = key new)" by (metis imageI)
    have "upd_where (\<lambda>r. key r = key new) (merge new) rows = rows"
      using no by (intro upd_where_id) auto
    moreover have "f new \<notin> f ` set rows" using Cons.prems(3) no by (metis imageE list.set_intros(2))
    ultimately show ?thesis using True Cons.prems(1,2) by (simp add: upsert_def assms(4))
  next
    case False
    then have up: "upsert key merge new (r # rows) = r # upsert key merge new rows"
      by (simp add: upsert_def)
    have "f r \<notin> f ` set (upsert key merge new rows)"
      using Cons.prems False by (auto simp: upsert_def set_upd_where assms(4) split: if_splits)
    with IH up show ?thesis by simp
  qed
qed

lemma upsert_pull_request_inv:
  assumes inv: "facts_inv d" and put: "upsert_pull_request repo pull t d = Inr (u, d1)"
  shows "facts_inv d1"
proof -
  let ?new = "pull_row (next_id d) repo pull t"
  have d1: "d1 = d\<lparr>next_id := Suc (next_id d), pull_requests := upsert pull_key merge_pull ?new (pull_requests d)\<rparr>"
    and free: "\<And>p. p \<in> set (pull_requests d) \<Longrightarrow> pull_key p \<noteq> pull_key ?new \<Longrightarrow>
        pr_github_pr_id p \<noteq> pr_github_pr_id ?new"
    using put by (auto simp: upsert_pull_request_def Let_def list_ex_iff split: if_splits)
  have "ingest_inv d1"
    using inv unfolding facts_inv_def by (elim conjE ingest_inv_grow) (auto simp: d1 pulls_keep)
  moreover have "distinct (map pr_github_pr_id (pull_requests d1))"
    using inv free unfolding d1 facts_inv_def vcs_inv_def table_ok_def
    by (auto intro!: distinct_upsert_unique simp: merge_pull_def)
  ultimately show ?thesis
    using inv by (auto simp: facts_inv_def vcs_inv_def d1 pull_table.upsert_ok pull_row_def intro: table_ok_mono)
qed

lemma apply_pull_request_inv:
  "facts_inv d \<Longrightarrow> apply_pull_request E repo payload d = Inr (b, d1) \<Longrightarrow> facts_inv d1"
  "facts_inv d \<Longrightarrow> apply_pull_request_review E repo payload d = Inr (b, d1) \<Longrightarrow> facts_inv d1"
  by (auto simp: apply_pull_request_def apply_pull_request_review_def Let_def
      split: sum.splits intro: upsert_pull_request_inv)

lemma resolve_workflow_vcs:
  "resolve_workflow repo run workflow d = Inr (w, d1) \<Longrightarrow> branches d1 = branches d"
  by (auto simp: resolve_workflow_def upsert_workflow_def Let_def split: option.splits sum.splits if_splits)

lemma ingest_vcs_frame:
  assumes "ingest_workflow_run E now utc repo org b run workflow d = Inr (i, d')"
  shows "commits d' = commits d \<and> pull_requests d' = pull_requests d \<and> branches d' = branches d \<and> next_id d \<le> next_id d'"
proof -
  from assms obtain w d1 d2 where
    st1: "resolve_workflow repo run workflow d = Inr (w, d1)" and
    st2: "put_workflow_run (new_run_row repo b run w d1) d1 = Inr (i, d2)" and
    st3: "if newly_completed run d1
     then (let d3 = emit_run_completed E now utc org repo i w run (is_default_run b run) (completion_time run) d2
           in if ships b run
              then infer_deployment E now utc repo org i run (completion_time run) d3 = Inr ((), d')
              else d' = d3)
     else d' = d2"
    by (rule ingest_success)
  have "commits d2 = commits d \<and> pull_requests d2 = pull_requests d \<and> branches d2 = branches d \<and> next_id d \<le> next_id d2"
    using resolve_workflow_frame [OF st1] resolve_workflow_vcs [OF st1] put_workflow_run_frame(1) [OF st2] by simp
  with st3 show ?thesis
    by (auto simp: emit_run_completed_def infer_deployment_def Let_def enqueue_def split: if_splits)
qed

lemma ingest_run_facts_inv:
  assumes "facts_inv d" and "ingest_workflow_run E now utc repo org b run workflow d = Inr (i, d')"
  shows "facts_inv d'"
  using assms ingest_workflow_run_inv [OF _ assms(2)] ingest_vcs_frame [OF assms(2)] vcs_inv_cong [of d d']
  by (simp add: facts_inv_def)

lemma put_steps_vcs:
  "branches (fold (put_step k) steps d) = branches d \<and> next_id d \<le> next_id (fold (put_step k) steps d)"
proof (induction steps arbitrary: d)
  case (Cons s steps)
  from Cons.IH [of "put_step k s d"] show ?case by (simp add: put_step_def)
qed simp

lemma ingest_job_facts_inv:
  assumes "facts_inv d" and "ingest_workflow_job repo job d = Inr (b, d')"
  shows "facts_inv d'"
proof -
  have steps: "next_id d \<le> next_id (fold (put_step k) steps (d\<lparr>next_id := Suc (next_id d), workflow_jobs := js\<rparr>))" for k steps js
    using put_steps_vcs [of k steps "d\<lparr>next_id := Suc (next_id d), workflow_jobs := js\<rparr>"] by simp
  have "commits d' = commits d \<and> pull_requests d' = pull_requests d \<and> branches d' = branches d \<and> next_id d \<le> next_id d'"
    using assms(2)
    by (auto simp: ingest_workflow_job_def Let_def table_simps put_steps_vcs steps split: option.splits if_splits)
  with assms ingest_workflow_job_inv [OF _ assms(2)] vcs_inv_cong [of d d'] show ?thesis by (simp add: facts_inv_def)
qed

lemma facts_inv_cong:
  assumes "facts_inv d" and "next_id d \<le> next_id d1"
    "workflows d1 = workflows d" "workflow_runs d1 = workflow_runs d" "workflow_jobs d1 = workflow_jobs d"
    "workflow_steps d1 = workflow_steps d" "deployments d1 = deployments d"
    "commits d1 = commits d" "pull_requests d1 = pull_requests d" "branches d1 = branches d"
    and "r_id ` set (repositories d) \<subseteq> r_id ` set (repositories d1)"
  shows "facts_inv d1"
proof -
  have "repository_known i d \<Longrightarrow> repository_known i d1" for i
    using assms(11) unfolding repository_known_def by (metis (no_types) imageE imageI subsetD)
  then show ?thesis
    using assms(1-10)
    unfolding facts_inv_def vcs_inv_def ingest_inv_def run_fks_def job_fks_def deployment_ok_def
    by (auto intro: table_ok_mono)
qed

lemma demo_facts_inv: "facts_inv demo_repo_db"
  using demo_ingest_inv by (simp add: facts_inv_def vcs_inv_def demo_repo_db_def empty_db_def)

section \<open>What the handlers store\<close>

lemma upsert_pull_request_review:
  assumes "upsert_pull_request repo pull t d = Inr (u, d1)"
  shows "existing_first_review repo (gp_number pull) d1 =
     (case find (\<lambda>p. pull_key p = (repo, gp_number pull)) (pull_requests d) of
        None \<Rightarrow> t | Some p \<Rightarrow> least_opt (pr_first_review_at p) t)"
proof -
  let ?new = "pull_row (next_id d) repo pull t"
  have d1: "pull_requests d1 = upsert pull_key merge_pull ?new (pull_requests d)"
    using assms by (auto simp: upsert_pull_request_def Let_def split: if_splits)
  have key: "pull_key ?new = (repo, gp_number pull)" by (simp add: pull_key_def pull_row_def)
  show ?thesis
    unfolding existing_first_review_def d1 key [symmetric] pull_table.upsert_lookup
    by (simp add: merge_pull_def pull_row_def split: option.splits)
qed

lemma push_commits_stored:
  assumes "upsert_push_commits repo cs d = Inr (u, d1)"
  shows "(\<forall>c\<in>set cs. (repo, pc_id c) \<in> commit_key ` set (commits d1)) \<and>
         commit_key ` set (commits d) \<subseteq> commit_key ` set (commits d1) \<and> branches d1 = branches d"
  using assms
proof (induction cs arbitrary: d)
  case (Cons c cs)
  from Cons.prems obtain d2 where put: "upsert_push_commit repo c d = Inr ((), d2)"
    and rest: "upsert_push_commits repo cs d2 = Inr (u, d1)" by (auto split: sum.splits)
  let ?new = "push_commit_row (next_id d) repo c"
  from put have d2: "commits d2 = upsert commit_key merge_push_commit ?new (commits d)" "branches d2 = branches d"
    by (auto simp: upsert_push_commit_def put_commit_def split: if_splits)
  have keys: "commit_key ` set (commits d2) = insert (commit_key ?new) (commit_key ` set (commits d))"
    unfolding d2(1) set_map [symmetric] push_commit_table.upsert_keys by auto
  have "commit_key ?new = (repo, pc_id c)" by (simp add: commit_key_def push_commit_row_def)
  with Cons.IH [OF rest] keys d2(2) show ?case by auto
qed simp

section \<open>Properties\<close>

text \<open>
  The first-review time of a pull request only ever moves to an earlier moment: a
  review stores the earlier of the stored and the submitted time, and a plain
  \<open>pull_request\<close> delivery, in whatever order it arrives, leaves it as it is.
\<close>

theorem first_review_is_earliest:
  assumes "payload_field E ''pull_request'' missing (de_GitHubPullRequest E) payload = Inr pull"
    and "payload_field E ''review'' missing' (de_ReviewPayload E) payload = Inr review"
  shows "(apply_pull_request_review E repo payload d = Inr (b1, d1) \<longrightarrow>
            existing_first_review repo (gp_number pull) d1 =
              least_opt (existing_first_review repo (gp_number pull) d) (rv_submitted_at review)) \<and>
         (apply_pull_request E repo payload d = Inr (b2, d2) \<longrightarrow>
            existing_first_review repo (gp_number pull) d2 = existing_first_review repo (gp_number pull) d)"
proof -
  have p: "payload_field E ''pull_request'' m (de_GitHubPullRequest E) payload = Inr pull" for m
    using assms(1) by (auto simp: payload_field_def split: option.splits)
  have r: "payload_field E ''review'' m (de_ReviewPayload E) payload = Inr review" for m
    using assms(2) by (auto simp: payload_field_def split: option.splits)
  have merged: "(case (e, s) of (Some e, Some s) \<Rightarrow> Some (min e s) | (e, s) \<Rightarrow> coalesce e s) = least_opt e s" for e s
    by (cases e; cases s) simp_all
  have least: "least_opt e (least_opt e s) = least_opt e s" for e s
    by (cases e; cases s) simp_all
  show ?thesis
    by (auto simp: apply_pull_request_review_def apply_pull_request_def p r Let_def merged
        existing_first_review_def [of repo "gp_number pull" d] least
        dest!: upsert_pull_request_review split: sum.splits option.splits)
qed

definition demo_pull_payload :: json where
  "demo_pull_payload =
     JObj [(''pull_request'',
        JObj [(''id'', JInt 60), (''number'', JInt 4), (''title'', JStr ''t''), (''state'', JStr ''open''),
              (''head'', JObj [(''ref'', JStr ''f''), (''sha'', JStr ''a'')]),
              (''base'', JObj [(''ref'', JStr ''main''), (''sha'', JStr ''b'')]),
              (''created_at'', JStr ''ttt'')]),
       (''review'', JObj [(''submitted_at'', JStr ''tttttt'')])]"

lemmas payload_eval =
  payload_field_def from_value_def de_GitHubPullRequest_def de_GitHubPullRef_def de_ReviewPayload_def
  de_PushPayload_def de_PushCommit_def de_PushIdentity_def de_required_def de_optional_def
  de_default_def de_aliased_def is_i64_def is_i32_def demo_ext_def Option.bind_def

theorem first_review_is_earliest_witness:
  "\<exists>d1. apply_pull_request_review demo_ext 1 demo_pull_payload demo_repo_db = Inr (True, d1) \<and>
     existing_first_review 1 4 d1 = Some 6"
proof -
  define pull where "pull = projr (payload_field demo_ext ''pull_request'' [] (de_GitHubPullRequest demo_ext) demo_pull_payload)"
  define review where "review = projr (payload_field demo_ext ''review'' [] (de_ReviewPayload demo_ext) demo_pull_payload)"
  have p: "payload_field demo_ext ''pull_request'' [] (de_GitHubPullRequest demo_ext) demo_pull_payload = Inr pull"
    "gp_number pull = 4"
    and r: "payload_field demo_ext ''review'' [] (de_ReviewPayload demo_ext) demo_pull_payload = Inr review"
    "rv_submitted_at review = Some 6"
    by (simp_all add: pull_def review_def payload_eval demo_pull_payload_def)
  obtain d1 where run: "apply_pull_request_review demo_ext 1 demo_pull_payload demo_repo_db = Inr (True, d1)"
    by (simp add: apply_pull_request_review_def payload_eval demo_pull_payload_def upsert_pull_request_def
        existing_first_review_def ingest_eval)
  have "existing_first_review 1 4 demo_repo_db = None"
    by (simp add: existing_first_review_def demo_repo_db_def empty_db_def)
  with first_review_is_earliest [OF p(1) r(1), of 1 demo_repo_db] run p(2) r(2) show ?thesis by auto
qed

text \<open>
  A push to a branch is recorded: after a push that does not delete the branch, the
  branch is stored with the pushed head, flagged as default exactly when it is the
  repository's default branch, and no longer marked deleted; every pushed commit is stored
  under the repository and no stored commit disappears. A ref that is not a branch changes
  nothing.
\<close>

theorem push_recorded:
  assumes "from_value E (de_PushPayload E) payload = Inr push"
  shows "(strip_prefix (ps_reference push) ''refs/heads/'' = None \<longrightarrow>
            apply_push E now repo payload d = Inr (False, d)) \<and>
     (strip_prefix (ps_reference push) ''refs/heads/'' = Some name \<longrightarrow> \<not> ps_deleted push \<longrightarrow>
        apply_push E now repo payload d = Inr (b, d') \<longrightarrow>
        b \<and>
        (\<exists>br. find (\<lambda>br. branch_key br = (repo, name)) (branches d') = Some br \<and>
           b_head_sha br = ps_after push \<and> b_deleted_at br = None \<and>
           (b_is_default br \<longleftrightarrow> name = ps_default_branch push)) \<and>
        (\<forall>c\<in>set (ps_commits push). (repo, pc_id c) \<in> commit_key ` set (commits d')) \<and>
        commit_key ` set (commits d) \<subseteq> commit_key ` set (commits d'))"
proof (intro conjI impI)
  assume "strip_prefix (ps_reference push) ''refs/heads/'' = None"
  with assms show "apply_push E now repo payload d = Inr (False, d)" by (simp add: apply_push_def)
next
  assume name: "strip_prefix (ps_reference push) ''refs/heads/'' = Some name" and "\<not> ps_deleted push"
    and run: "apply_push E now repo payload d = Inr (b, d')"
  then obtain d1 where put: "put_branch now repo push name d = Inr ((), d1)"
    and cs: "upsert_push_commits repo (ps_commits push) d1 = Inr ((), d')" and b
    using assms by (auto simp: apply_push_def split: sum.splits)
  show b by fact
  let ?new = "\<lparr>b_id = next_id d, b_repository_id = repo, b_name = name, b_head_sha = ps_after push,
      b_is_default = (name = ps_default_branch push), b_is_protected = False, b_deleted_at = None\<rparr>"
  have br: "branches d1 = upsert branch_key merge_branch ?new (branches d)" and c: "commits d1 = commits d"
    using put \<open>\<not> ps_deleted push\<close> by (auto simp: put_branch_def split: if_splits)
  have key: "branch_key ?new = (repo, name)" by (simp add: branch_key_def)
  note st = push_commits_stored [OF cs]
  then show "\<forall>c\<in>set (ps_commits push). (repo, pc_id c) \<in> commit_key ` set (commits d')"
    and "commit_key ` set (commits d) \<subseteq> commit_key ` set (commits d')" by (simp_all add: c)
  from st br have "branches d' = upsert branch_key merge_branch ?new (branches d)" by simp
  then show "\<exists>br. find (\<lambda>br. branch_key br = (repo, name)) (branches d') = Some br \<and>
      b_head_sha br = ps_after push \<and> b_deleted_at br = None \<and> (b_is_default br \<longleftrightarrow> name = ps_default_branch push)"
    unfolding key [symmetric] branch_table.upsert_lookup
    by (auto simp: branch_table.upsert_lookup merge_branch_def split: option.splits)
qed

definition demo_push_payload :: json where
  "demo_push_payload =
     JObj [(''ref'', JStr ''refs/heads/main''), (''after'', JStr ''abc''),
           (''repository'', JObj [(''default_branch'', JStr ''main'')]),
           (''commits'', JArr [JObj [(''id'', JStr ''abc''), (''message'', JStr ''m''), (''timestamp'', JStr ''tt''),
              (''author'', JObj []), (''committer'', JObj [])]])]"

theorem push_recorded_witness:
  "\<exists>d' br. apply_push demo_ext 0 1 demo_push_payload demo_repo_db = Inr (True, d') \<and>
     find (\<lambda>br. branch_key br = (1, ''main'')) (branches d') = Some br \<and> b_head_sha br = ''abc'' \<and>
     b_is_default br \<and> (1, ''abc'') \<in> commit_key ` set (commits d')"
proof -
  define push where "push = projr (from_value demo_ext (de_PushPayload demo_ext) demo_push_payload)"
  have p: "from_value demo_ext (de_PushPayload demo_ext) demo_push_payload = Inr push"
    and f: "ps_reference push = ''refs/heads/main''" "\<not> ps_deleted push" "ps_after push = ''abc''"
      "ps_default_branch push = ''main''" "map pc_id (ps_commits push) = [''abc'']"
    by (simp_all add: push_def payload_eval demo_push_payload_def)
  have name: "strip_prefix (ps_reference push) ''refs/heads/'' = Some ''main''"
    unfolding strip_prefix_Some by (simp add: f)
  obtain d' where run: "apply_push demo_ext 0 1 demo_push_payload demo_repo_db = Inr (True, d')"
    by (simp add: apply_push_def payload_eval demo_push_payload_def strip_prefix_def starts_with_def put_branch_def
        upsert_push_commit_def put_commit_def push_commit_row_def ingest_eval)
  from push_recorded [OF p, of 0 1 demo_repo_db "''main''" True d'] name run f show ?thesis
    by (cases "ps_commits push") auto
qed

end
