(* ===== verification/Repository_Sync.thy ===== *)
theory Repository_Sync
  imports Vcs_Ingest GitHub_Api
begin

text \<open>
  \<^verbatim>\<open>gateway/src/repository_sync.rs\<close>, the initial import of a repository: five resources,
  each read page by page, every page stored and its successor's URL saved as the cursor in one
  transaction, so that a later run continues where an earlier one stopped. A run that waits for
  GitHub has not returned: \<open>None\<close>. The clock is read from the number of requests made so far.
\<close>

section \<open>The state row of a resource\<close>

definition sync_key :: "sync_state \<Rightarrow> uuid \<times> string" where
  "sync_key s = (ss_repository_id s, ss_resource s)"

definition sync_row :: "uuid \<Rightarrow> string \<Rightarrow> db \<Rightarrow> sync_state option" where
  "sync_row repository_id resource d = find (\<lambda>s. sync_key s = (repository_id, resource)) (repository_sync_state d)"

definition merge_sync :: "sync_state \<Rightarrow> sync_state \<Rightarrow> sync_state" where
  "merge_sync new old = old\<lparr>ss_status := Syncing, ss_last_error := None\<rparr>"

definition begin_resource :: "uuid \<Rightarrow> string \<Rightarrow> (string option \<times> string option) tx" where
  "begin_resource repository_id resource d =
     (let new = \<lparr>ss_repository_id = repository_id, ss_resource = resource, ss_etag = None, ss_cursor = None,
                 ss_status = Syncing, ss_last_synced_at = None, ss_last_success_at = None, ss_last_error = None\<rparr>
      in if \<not> repository_known repository_id d
         then Inl (Internal ''repository_sync_state_repository_id_fkey'')
         else Inr (case sync_row repository_id resource d of
                     None \<Rightarrow> (None, None)
                   | Some s \<Rightarrow> (ss_cursor s, ss_etag s),
                   d\<lparr>repository_sync_state := upsert sync_key merge_sync new (repository_sync_state d)\<rparr>))"

definition set_sync :: "uuid \<Rightarrow> string \<Rightarrow> (sync_state \<Rightarrow> sync_state) \<Rightarrow> db \<Rightarrow> db" where
  "set_sync repository_id resource f d =
     d\<lparr>repository_sync_state := upd_where (\<lambda>s. sync_key s = (repository_id, resource)) f (repository_sync_state d)\<rparr>"

definition checkpoint :: "timestamp \<Rightarrow> uuid \<Rightarrow> string \<Rightarrow> string option \<Rightarrow> string option \<Rightarrow> db \<Rightarrow> db" where
  "checkpoint now repository_id resource cursor etag =
     set_sync repository_id resource (\<lambda>s.
       s\<lparr>ss_cursor := cursor, ss_etag := coalesce etag (ss_etag s), ss_last_synced_at := Some now\<rparr>)"

definition finish_resource :: "timestamp \<Rightarrow> uuid \<Rightarrow> string \<Rightarrow> db \<Rightarrow> db" where
  "finish_resource now repository_id resource =
     set_sync repository_id resource (\<lambda>s.
       s\<lparr>ss_cursor := None, ss_status := Idle, ss_last_synced_at := Some now,
         ss_last_success_at := Some now, ss_last_error := None\<rparr>)"

text \<open>\<open>None\<close> is the panic of \<open>String::truncate\<close> inside a character.\<close>

definition record_error :: "ext \<Rightarrow> timestamp \<Rightarrow> uuid \<Rightarrow> string \<Rightarrow> AppError \<Rightarrow> db \<Rightarrow> db option" where
  "record_error E now repository_id resource error d =
     map_option (\<lambda>detail.
         set_sync repository_id resource (\<lambda>s.
           s\<lparr>ss_status := Sync_error, ss_last_synced_at := Some now, ss_last_error := Some detail\<rparr>) d)
       (truncate_str 2000 (debug_error E error))"

definition parse_cursor :: "ext \<Rightarrow> string \<Rightarrow> string result" where
  "parse_cursor E cursor =
     (case parse_url E cursor of None \<Rightarrow> Inl (Internal (''invalid sync cursor: '' @ url_error E cursor)) | Some url \<Rightarrow> Inr url)"

section \<open>The page loop\<close>

type_synonym clock = "nat \<Rightarrow> timestamp"
type_synonym 'a fetcher = "string \<Rightarrow> string option \<Rightarrow> 'a GitHubPage api"

definition timed :: "clock \<Rightarrow> (timestamp \<Rightarrow> 'a api) \<Rightarrow> 'a api" where
  "timed clk call n = call (clk (length (sent n))) n"

text \<open>The transaction of one page: store the items, then the checkpoint.\<close>

definition store_page ::
  "(timestamp \<Rightarrow> 'b list \<Rightarrow> unit tx) \<Rightarrow> timestamp \<Rightarrow> uuid \<Rightarrow> string \<Rightarrow> bool \<Rightarrow> 'a GitHubPage \<Rightarrow> 'b list \<Rightarrow> unit tx" where
  "store_page store now repository_id resource first_page p items d =
     map_sum id (\<lambda>(_, d'). ((), checkpoint now repository_id resource (pg_next p)
                                  (if first_page then pg_etag p else None) d'))
       (store now items d)"

text \<open>
  The loop the five functions share: \<open>fetch\<close> is the page request, \<open>prepare\<close> the requests
  made for a page's items before its transaction, \<open>store\<close> the statements of the transaction.
\<close>

partial_function (option) sync_pages ::
  "'a fetcher \<Rightarrow> (db \<Rightarrow> 'a list \<Rightarrow> 'b list api) \<Rightarrow> (timestamp \<Rightarrow> 'b list \<Rightarrow> unit tx) \<Rightarrow> clock \<Rightarrow> uuid \<Rightarrow> string
     \<Rightarrow> bool \<Rightarrow> string \<Rightarrow> string option \<Rightarrow> db \<Rightarrow> net \<Rightarrow> (unit result \<times> db \<times> net) option" where
  "sync_pages fetch prepare store clk repository_id resource first_page url request_etag d n =
     Option.bind (fetch url request_etag n) (\<lambda>(reply, n1). case reply of
        Inl e \<Rightarrow> Some (Inl e, d, n1)
      | Inr p \<Rightarrow>
          if pg_not_modified p
          then Some (Inr (), finish_resource (clk (length (sent n1))) repository_id resource d, n1)
          else Option.bind (prepare d (pg_items p) n1) (\<lambda>(prepared, n2). case prepared of
             Inl e \<Rightarrow> Some (Inl e, d, n2)
           | Inr items \<Rightarrow>
               (case transact (store_page store (clk (length (sent n2))) repository_id resource first_page p items) d of
                  (Inl e, d1) \<Rightarrow> Some (Inl e, d1, n2)
                | (Inr _, d1) \<Rightarrow>
                    (case pg_next p of
                       Some next \<Rightarrow> sync_pages fetch prepare store clk repository_id resource False next None d1 n2
                     | None \<Rightarrow> Some (Inr (), finish_resource (clk (length (sent n2))) repository_id resource d1, n2)))))"

definition sync_resource ::
  "ext \<Rightarrow> string result \<Rightarrow> 'a fetcher \<Rightarrow> (db \<Rightarrow> 'a list \<Rightarrow> 'b list api) \<Rightarrow> (timestamp \<Rightarrow> 'b list \<Rightarrow> unit tx) \<Rightarrow> clock
     \<Rightarrow> uuid \<Rightarrow> string \<Rightarrow> db \<Rightarrow> net \<Rightarrow> (unit result \<times> db \<times> net) option" where
  "sync_resource E start fetch prepare store clk repository_id resource d n =
     (case transact (begin_resource repository_id resource) d of
        (Inl e, d1) \<Rightarrow> Some (Inl e, d1, n)
      | (Inr (cursor, etag), d1) \<Rightarrow>
          (case (case cursor of Some c \<Rightarrow> parse_cursor E c | None \<Rightarrow> start) of
             Inl e \<Rightarrow> Some (Inl e, d1, n)
           | Inr url \<Rightarrow>
               sync_pages fetch prepare store clk repository_id resource (cursor = None) url
                 (if cursor = None then etag else None) d1 n))"

definition start_url :: "ext \<Rightarrow> string \<Rightarrow> string list \<Rightarrow> (string \<times> string) list \<Rightarrow> string result" where
  "start_url E base segments pairs = map_sum id (\<lambda>url. url_query E url pairs) (endpoint E base segments)"

fun for_each :: "('a \<Rightarrow> unit tx) \<Rightarrow> 'a list \<Rightarrow> unit tx" where
  "for_each f [] d = Inr ((), d)"
| "for_each f (x # xs) d = (case f x d of Inl e \<Rightarrow> Inl e | Inr (_, d') \<Rightarrow> for_each f xs d')"

definition prepare_none :: "db \<Rightarrow> 'a list \<Rightarrow> 'a list api" where
  "prepare_none d items n = Some (Inr items, n)"

fun prepare_each :: "('a \<Rightarrow> 'b api) \<Rightarrow> 'a list \<Rightarrow> 'b list api" where
  "prepare_each f [] n = Some (Inr [], n)"
| "prepare_each f (x # xs) n =
     (case f x n of
        None \<Rightarrow> None
      | Some (Inl e, n') \<Rightarrow> Some (Inl e, n')
      | Some (Inr y, n') \<Rightarrow> map_option (map_prod (map_sum id (Cons y)) id) (prepare_each f xs n'))"

section \<open>The five resources\<close>

definition merge_synced_branch :: "branch \<Rightarrow> branch \<Rightarrow> branch" where
  "merge_synced_branch new old =
     old\<lparr>b_head_sha := b_head_sha new, b_is_default := b_is_default new,
         b_is_protected := b_is_protected new, b_deleted_at := None\<rparr>"

definition store_branch :: "uuid \<Rightarrow> string \<Rightarrow> GitHubBranch \<Rightarrow> unit tx" where
  "store_branch repository_id default_branch branch d =
     (if \<not> repository_known repository_id d then Inl (Internal ''branches_repository_id_fkey'')
      else Inr ((), d\<lparr>next_id := Suc (next_id d),
             branches := upsert branch_key merge_synced_branch
               \<lparr>b_id = next_id d, b_repository_id = repository_id, b_name = gb_name branch,
                b_head_sha = bh_sha (gb_commit branch), b_is_default = (gb_name branch = default_branch),
                b_is_protected = gb_protected branch, b_deleted_at = None\<rparr>
               (branches d)\<rparr>))"

definition sync_branches ::
  "ext \<Rightarrow> clock \<Rightarrow> string \<Rightarrow> uuid \<Rightarrow> string \<Rightarrow> string \<Rightarrow> string \<Rightarrow> db \<Rightarrow> net \<Rightarrow> (unit result \<times> db \<times> net) option" where
  "sync_branches E clk base repository_id owner name default_branch =
     sync_resource E (start_url E base [''repos'', owner, name, ''branches''] per_page)
       (\<lambda>url etag. timed clk (\<lambda>now. page E now de_GitHubBranch url etag))
       prepare_none (\<lambda>now. for_each (store_branch repository_id default_branch)) clk repository_id ''branches''"

definition sync_commits ::
  "ext \<Rightarrow> clock \<Rightarrow> string \<Rightarrow> uuid \<Rightarrow> string \<Rightarrow> string \<Rightarrow> db \<Rightarrow> net \<Rightarrow> (unit result \<times> db \<times> net) option" where
  "sync_commits E clk base repository_id owner name =
     sync_resource E (start_url E base [''repos'', owner, name, ''commits''] per_page)
       (\<lambda>url etag. timed clk (\<lambda>now. page E now (de_GitHubCommit E) url etag))
       prepare_none (\<lambda>now. for_each (upsert_commit repository_id)) clk repository_id ''commits''"

text \<open>The detail of a listed pull request and, unless one is stored, its first review.\<close>

definition prepare_pull ::
  "ext \<Rightarrow> clock \<Rightarrow> string \<Rightarrow> uuid \<Rightarrow> string \<Rightarrow> string \<Rightarrow> db \<Rightarrow> GitHubPullRequest
     \<Rightarrow> (GitHubPullRequest \<times> timestamp option) api" where
  "prepare_pull E clk base repository_id owner name d listed n =
     (case timed clk (\<lambda>now. pull_request_detail E now base owner name (gp_number listed)) n of
        None \<Rightarrow> None
      | Some (Inl e, n1) \<Rightarrow> Some (Inl e, n1)
      | Some (Inr pull, n1) \<Rightarrow>
          (case existing_first_review repository_id (gp_number pull) d of
             Some review \<Rightarrow> Some (Inr (pull, Some review), n1)
           | None \<Rightarrow>
               map_option (map_prod (map_sum id (Pair pull)) id)
                 (timed clk (\<lambda>now. first_review_at E now base owner name (gp_number pull)) n1)))"

definition sync_pull_requests ::
  "ext \<Rightarrow> clock \<Rightarrow> string \<Rightarrow> uuid \<Rightarrow> string \<Rightarrow> string \<Rightarrow> db \<Rightarrow> net \<Rightarrow> (unit result \<times> db \<times> net) option" where
  "sync_pull_requests E clk base repository_id owner name =
     sync_resource E
       (start_url E base [''repos'', owner, name, ''pulls'']
          [(''state'', ''all''), (''sort'', ''updated''), (''direction'', ''desc''), (''per_page'', ''100'')])
       (\<lambda>url etag. timed clk (\<lambda>now. page E now (de_GitHubPullRequest E) url etag))
       (\<lambda>d. prepare_each (prepare_pull E clk base repository_id owner name d))
       (\<lambda>now. for_each (\<lambda>(pull, review). upsert_pull_request repository_id pull review))
       clk repository_id ''pull_requests''"

text \<open>A page that comes inside an object: its items, or none when it has no body.\<close>

definition envelope_items :: "ext \<Rightarrow> timestamp \<Rightarrow> 'a list de \<Rightarrow> 'a fetcher" where
  "envelope_items E now de url etag n =
     map_option (map_prod (map_sum id (\<lambda>envelope.
         \<lparr>pg_items = (case en_body envelope of None \<Rightarrow> [] | Some items \<Rightarrow> items), pg_next = en_next envelope,
          pg_etag = en_etag envelope, pg_not_modified = en_not_modified envelope\<rparr>)) id)
       (page_envelope E now de url etag n)"

definition store_workflow :: "uuid \<Rightarrow> GitHubWorkflow \<Rightarrow> unit tx" where
  "store_workflow repository_id wflow d = map_sum id (map_prod (\<lambda>_. ()) id) (upsert_workflow repository_id wflow d)"

definition sync_workflows ::
  "ext \<Rightarrow> clock \<Rightarrow> string \<Rightarrow> uuid \<Rightarrow> string \<Rightarrow> string \<Rightarrow> db \<Rightarrow> net \<Rightarrow> (unit result \<times> db \<times> net) option" where
  "sync_workflows E clk base repository_id owner name =
     sync_resource E (start_url E base [''repos'', owner, name, ''actions'', ''workflows''] per_page)
       (\<lambda>url etag. timed clk (\<lambda>now. envelope_items E now de_GitHubWorkflowsPage url etag))
       prepare_none (\<lambda>now. for_each (store_workflow repository_id)) clk repository_id ''workflows''"

definition prepare_run ::
  "ext \<Rightarrow> clock \<Rightarrow> string \<Rightarrow> string \<Rightarrow> string \<Rightarrow> GitHubWorkflowRun \<Rightarrow> (GitHubWorkflowRun \<times> GitHubJob list) api" where
  "prepare_run E clk base owner name run n =
     map_option (map_prod (map_sum id (Pair run)) id)
       (timed clk (\<lambda>now. run_jobs E now base owner name (run_gid run)) n)"

definition store_job :: "uuid \<Rightarrow> GitHubJob \<Rightarrow> unit tx" where
  "store_job repository_id job d = map_sum id (map_prod (\<lambda>_. ()) id) (ingest_workflow_job repository_id job d)"

definition store_run ::
  "ext \<Rightarrow> timestamp \<Rightarrow> uuid \<Rightarrow> uuid \<Rightarrow> string \<Rightarrow> GitHubWorkflowRun \<times> GitHubJob list \<Rightarrow> unit tx" where
  "store_run E now repository_id organization_id default_branch = (\<lambda>(run, jobs) d.
     case ingest_workflow_run E now now repository_id organization_id default_branch run None d of
       Inl e \<Rightarrow> Inl e
     | Inr (_, d') \<Rightarrow> for_each (store_job repository_id) jobs d')"

definition sync_workflow_runs ::
  "ext \<Rightarrow> clock \<Rightarrow> string \<Rightarrow> uuid \<Rightarrow> uuid \<Rightarrow> string \<Rightarrow> string \<Rightarrow> string \<Rightarrow> db \<Rightarrow> net \<Rightarrow> (unit result \<times> db \<times> net) option" where
  "sync_workflow_runs E clk base repository_id organization_id owner name default_branch =
     sync_resource E (start_url E base [''repos'', owner, name, ''actions'', ''runs''] per_page)
       (\<lambda>url etag. timed clk (\<lambda>now. envelope_items E now (de_GitHubRunsPage E) url etag))
       (\<lambda>d. prepare_each (prepare_run E clk base owner name))
       (\<lambda>now. for_each (store_run E now repository_id organization_id default_branch))
       clk repository_id ''workflow_runs''"

section \<open>A whole repository\<close>

text \<open>
  The five calls in order. An error is recorded on its own resource and the next one is still
  tried; \<open>None\<close> in the first component is a panic while recording.
\<close>

type_synonym sync = "db \<Rightarrow> net \<Rightarrow> (unit result \<times> db \<times> net) option"

fun sync_each ::
  "ext \<Rightarrow> clock \<Rightarrow> uuid \<Rightarrow> (string \<times> sync) list \<Rightarrow> string list \<Rightarrow> db \<Rightarrow> net
     \<Rightarrow> (string list option \<times> db \<times> net) option" where
  "sync_each E clk repository_id [] errors d n = Some (Some errors, d, n)"
| "sync_each E clk repository_id ((resource, action) # rest) errors d n =
     (case action d n of
        None \<Rightarrow> None
      | Some (Inr _, d1, n1) \<Rightarrow> sync_each E clk repository_id rest errors d1 n1
      | Some (Inl e, d1, n1) \<Rightarrow>
          (case record_error E (clk (length (sent n1))) repository_id resource e d1 of
             None \<Rightarrow> Some (None, d1, n1)
           | Some d2 \<Rightarrow>
               sync_each E clk repository_id rest (errors @ [resource @ '': '' @ debug_error E e]) d2 n1))"

definition sync_repository ::
  "ext \<Rightarrow> clock \<Rightarrow> string \<Rightarrow> uuid \<Rightarrow> db \<Rightarrow> net \<Rightarrow> (unit result option \<times> db \<times> net) option" where
  "sync_repository E clk base repository_id d n =
     (case find (\<lambda>r. r_id r = repository_id \<and> r_tracking_enabled r \<and> r_deleted_at r = None) (repositories d) of
        None \<Rightarrow> Some (Some (Inl NotFound), d, n)
      | Some r \<Rightarrow>
          let owner = r_owner_login r; name = r_name r; default_branch = r_default_branch r
          in map_option (map_prod (map_option (\<lambda>errors.
                 if errors = [] then Inr () else Inl (Upstream (join ''; '' errors)))) id)
             (sync_each E clk repository_id
                [(''branches'', sync_branches E clk base repository_id owner name default_branch),
                 (''commits'', sync_commits E clk base repository_id owner name),
                 (''pull_requests'', sync_pull_requests E clk base repository_id owner name),
                 (''workflows'', sync_workflows E clk base repository_id owner name),
                 (''workflow_runs'', sync_workflow_runs E clk base repository_id (r_organization_id r)
                    owner name default_branch)]
                [] d n))"

section \<open>Answers from the network\<close>

text \<open>
  A network on which some request will fail: every call made on it returns, and costs at most
  one of the failures, and none when it succeeds.
\<close>

definition failures :: "net \<Rightarrow> nat" where
  "failures n = length (filter isl (replies n))"

abbreviation failing :: "net \<Rightarrow> bool" where
  "failing n \<equiv> 0 < failures n"

definition kept :: "net \<Rightarrow> 'a result \<Rightarrow> net \<Rightarrow> bool" where
  "kept n r n' \<longleftrightarrow> failures n \<le> failures n' + (if isl r then 1 else 0)"

lemma kept_refl [simp]: "kept n r n"
  by (simp add: kept_def)

definition answers :: "'a api \<Rightarrow> bool" where
  "answers f \<longleftrightarrow>
     (\<forall>n r n'. f n = Some (r, n') \<longrightarrow> length (replies n') \<le> length (replies n)) \<and>
     (\<forall>n. failing n \<longrightarrow> (\<exists>r n'. f n = Some (r, n') \<and> kept n r n'))"

lemma answersD:
  assumes "answers f" and "failing n"
  obtains r n' where "f n = Some (r, n')" and "kept n r n'"
  using assms unfolding answers_def by blast

lemma answers_shrink: "answers f \<Longrightarrow> f n = Some (r, n') \<Longrightarrow> length (replies n') \<le> length (replies n)"
  unfolding answers_def by blast

lemma answersI:
  assumes "\<And>n r n'. f n = Some (r, n') \<Longrightarrow> length (replies n') \<le> length (replies n)"
    and "\<And>n. failing n \<Longrightarrow> \<exists>r n'. f n = Some (r, n') \<and> kept n r n'"
  shows "answers f"
  using assms unfolding answers_def by blast

lemma answers_send: "answers (send q)"
proof (rule answersI)
  fix n assume "failing n"
  then show "\<exists>r n'. send q n = Some (r, n') \<and> kept n r n'"
    by (cases "replies n") (auto simp: failures_def send_def kept_def isl_map_sum)
qed (auto dest: send_consumes)

lemma answers_map:
  assumes "answers f" and "\<And>r. isl r = isl (g r)"
  shows "answers (\<lambda>n. map_option (map_prod g id) (f n))"
proof (rule answersI)
  fix n r n' assume "map_option (map_prod g id) (f n) = Some (r, n')"
  then show "length (replies n') \<le> length (replies n)" by (auto dest: answers_shrink [OF assms(1)])
next
  fix n assume "failing n"
  with assms(1) obtain r n' where "f n = Some (r, n')" "kept n r n'" by (rule answersD)
  moreover have "kept n (g r) n' = kept n r n'" by (simp add: kept_def assms(2) [symmetric])
  ultimately show "\<exists>r n'. map_option (map_prod g id) (f n) = Some (r, n') \<and> kept n r n'" by auto
qed

lemma answers_then:
  assumes f: "answers f" and k: "\<And>x. answers (k x)"
  shows "answers (\<lambda>n. case f n of None \<Rightarrow> None | Some (Inl e, n') \<Rightarrow> Some (Inl e, n') | Some (Inr x, n') \<Rightarrow> k x n')"
    (is "answers ?fk")
proof (rule answersI)
  fix n r n' assume "?fk n = Some (r, n')"
  then show "length (replies n') \<le> length (replies n)"
    by (auto split: option.splits sum.splits dest!: answers_shrink [OF f] answers_shrink [OF k])
next
  fix n assume "failing n"
  with f obtain r n1 where r: "f n = Some (r, n1)" "kept n r n1" by (rule answersD)
  show "\<exists>s n'. ?fk n = Some (s, n') \<and> kept n s n'"
  proof (cases r)
    case (Inr x)
    with r \<open>failing n\<close> have "failing n1" by (simp add: kept_def)
    then obtain s n2 where "k x n1 = Some (s, n2)" "kept n1 s n2" by (rule answersD [OF k])
    with r Inr show ?thesis by (auto simp: kept_def)
  qed (use r in \<open>auto simp: kept_def\<close>)
qed

lemma answers_return: "answers (\<lambda>n. Some (r, n))"
  by (auto intro: answersI simp: kept_def)

lemma answers_timed: "(\<And>now. answers (f now)) \<Longrightarrow> answers (timed clk f)"
  unfolding answers_def timed_def by blast

lemma answers_page_envelope: "answers (page_envelope E now de url etag)"
proof -
  have "answers (\<lambda>n. case send \<lparr>hq_url = url, hq_if_none_match = etag, hq_form = []\<rparr> n of None \<Rightarrow> None
      | Some (Inl e, n') \<Rightarrow> Some (Inl e, n') | Some (Inr response, n') \<Rightarrow> Some (envelope_of E now de url response, n'))"
    by (rule answers_then [OF answers_send answers_return])
  then show ?thesis unfolding answers_def page_envelope_def .
qed

lemma collect_pages_shrink:
  "collect_pages E now de f url acc n = Some (r, n') \<Longrightarrow> length (replies n') \<le> length (replies n)"
proof (induction E now de f url acc n rule: collect_pages.induct)
  case (1 E now de f url acc n)
  from "1.prems" obtain a n1 where a: "page_envelope E now de url None n = Some (a, n1)"
    by (auto simp: collect_pages.simps [of E now de f url acc] split: option.splits)
  note less = page_envelope_consumes [OF a]
  show ?case
  proof (cases a)
    case (Inl e)
    with "1.prems" a less show ?thesis by (simp add: collect_pages.simps [of E now de f url acc])
  next
    case (Inr envelope)
    show ?thesis
    proof (cases "en_next envelope")
      case None
      with "1.prems" a less Inr show ?thesis by (simp add: collect_pages.simps [of E now de f url acc])
    next
      case (Some u)
      from "1.prems" a less Inr Some "1.IH" [OF a refl Inr refl Some] show ?thesis
        by (simp add: collect_pages.simps [of E now de f url acc])
    qed
  qed
qed

lemma answers_collect_pages: "answers (collect_pages E now de f url acc)"
proof (rule answersI [OF collect_pages_shrink])
  fix n
  show "failing n \<Longrightarrow> \<exists>r n'. collect_pages E now de f url acc n = Some (r, n') \<and> kept n r n'"
  proof (induction E now de f url acc n rule: collect_pages.induct)
    case (1 E now de f url acc n)
    from answers_page_envelope \<open>failing n\<close> obtain r n1 where
      r: "page_envelope E now de url None n = Some (r, n1)" "kept n r n1"
      by (rule answersD)
    show ?case
    proof (cases r)
      case (Inl e)
      with r show ?thesis by (simp add: collect_pages.simps kept_def)
    next
      case (Inr envelope)
      show ?thesis
      proof (cases "en_next envelope")
        case None
        with r Inr show ?thesis by (simp add: collect_pages.simps kept_def)
      next
        case (Some u)
        from r Inr "1.prems" have "failing n1" by (simp add: kept_def)
        from "1.IH" [OF r(1) refl Inr refl Some this] obtain s n2 where
          "collect_pages E now de f u (acc @ (case en_body envelope of None \<Rightarrow> [] | Some body \<Rightarrow> f body)) n1 = Some (s, n2)"
          "kept n1 s n2" by blast
        with r Inr Some show ?thesis by (auto simp: collect_pages.simps kept_def)
      qed
    qed
  qed
qed

lemma answers_at_endpoint: "(\<And>url. answers (call url)) \<Longrightarrow> answers (at_endpoint E base segments pairs call)"
  unfolding answers_def at_endpoint_def by (auto split: sum.splits)

lemma answers_page: "answers (page E now de url etag)"
  unfolding page_def by (rule answers_map [OF answers_page_envelope]) (auto simp: isl_map_sum)

lemma answers_envelope_items: "answers (envelope_items E now de url etag)"
  unfolding envelope_items_def by (rule answers_map [OF answers_page_envelope]) (auto simp: isl_map_sum)

lemma answers_get_json: "answers (get_json E now de url)"
proof -
  have "answers (\<lambda>n. case send \<lparr>hq_url = url, hq_if_none_match = None, hq_form = []\<rparr> n of None \<Rightarrow> None
      | Some (Inl e, n') \<Rightarrow> Some (Inl e, n')
      | Some (Inr response, n') \<Rightarrow>
          if \<not> is_success (hr_status response) then Some (Inl (api_error E now response), n')
          else Some (read_json E de url response, n'))"
    by (rule answers_then [OF answers_send]) (auto simp: answers_def kept_def)
  then show ?thesis unfolding answers_def get_json_def .
qed

lemma answers_run_jobs: "answers (run_jobs E now base owner name run_id)"
  unfolding run_jobs_def by (rule answers_at_endpoint [OF answers_collect_pages])

lemma answers_first_review_at: "answers (first_review_at E now base owner name number)"
  unfolding first_review_at_def
  by (rule answers_map [OF answers_at_endpoint [OF answers_collect_pages]]) (auto simp: isl_map_sum)

lemma answers_pull_request_detail: "answers (pull_request_detail E now base owner name number)"
  unfolding pull_request_detail_def by (rule answers_at_endpoint [OF answers_get_json])

lemma answers_prepare_pull: "answers (prepare_pull E clk base repo owner name d listed)"
proof -
  have "answers (\<lambda>n. case timed clk (\<lambda>now. pull_request_detail E now base owner name (gp_number listed)) n of
        None \<Rightarrow> None
      | Some (Inl e, n1) \<Rightarrow> Some (Inl e, n1)
      | Some (Inr pull, n1) \<Rightarrow>
          (case existing_first_review repo (gp_number pull) d of
             Some review \<Rightarrow> Some (Inr (pull, Some review), n1)
           | None \<Rightarrow> map_option (map_prod (map_sum id (Pair pull)) id)
                 (timed clk (\<lambda>now. first_review_at E now base owner name (gp_number pull)) n1)))"
  proof (rule answers_then)
    fix pull
    show "answers (\<lambda>n1. case existing_first_review repo (gp_number pull) d of
        Some review \<Rightarrow> Some (Inr (pull, Some review), n1)
      | None \<Rightarrow> map_option (map_prod (map_sum id (Pair pull)) id)
           (timed clk (\<lambda>now. first_review_at E now base owner name (gp_number pull)) n1))"
      by (cases "existing_first_review repo (gp_number pull) d")
        (auto simp: isl_map_sum intro!: answers_map answers_timed answers_first_review_at answers_return)
  qed (auto intro: answers_timed answers_pull_request_detail)
  then show ?thesis unfolding answers_def prepare_pull_def .
qed

lemma answers_prepare_run: "answers (prepare_run E clk base owner name run)"
  unfolding prepare_run_def
  by (rule answers_map [OF answers_timed [OF answers_run_jobs]]) (auto simp: isl_map_sum)

lemma answers_prepare_each:
  assumes "\<And>x. answers (f x)"
  shows "answers (prepare_each f xs)"
proof (induction xs)
  case Nil
  show ?case by (simp add: answers_def kept_def)
next
  case (Cons x xs)
  have "answers (\<lambda>n. case f x n of None \<Rightarrow> None | Some (Inl e, n') \<Rightarrow> Some (Inl e, n')
      | Some (Inr y, n') \<Rightarrow> map_option (map_prod (map_sum id (Cons y)) id) (prepare_each f xs n'))"
    by (rule answers_then [OF assms]) (auto simp: isl_map_sum intro: answers_map Cons)
  then show ?case unfolding answers_def prepare_each.simps .
qed

lemma page_consumes: "page E now de url etag n = Some (r, n') \<Longrightarrow> length (replies n') < length (replies n)"
  by (auto simp: page_def dest: page_envelope_consumes)

lemma envelope_items_consumes:
  "envelope_items E now de url etag n = Some (r, n') \<Longrightarrow> length (replies n') < length (replies n)"
  by (auto simp: envelope_items_def dest: page_envelope_consumes)

lemma next_link_parsed: "next_link E s = Some v \<Longrightarrow> \<exists>u. parse_url E u = Some v"
proof -
  have "find_map (next_piece E) xs = Some v \<Longrightarrow> \<exists>u. parse_url E u = Some v" for xs
    by (induction xs) (auto simp: next_piece_def bind_eq_Some_conv split: option.splits if_splits list.splits)
  then show "next_link E s = Some v \<Longrightarrow> \<exists>u. parse_url E u = Some v" by (auto simp: next_link_def)
qed

lemma envelope_next_parsed:
  "page_envelope E now de url etag n = Some (Inr p, n') \<Longrightarrow> en_next p = Some v \<Longrightarrow> \<exists>u. parse_url E u = Some v"
  by (auto simp: page_envelope_def envelope_of_def Let_def bind_eq_Some_conv
      split: option.splits sum.splits prod.splits if_splits dest: next_link_parsed)

lemma page_next_parsed:
  "page E now de url etag n = Some (Inr p, n') \<Longrightarrow> pg_next p = Some v \<Longrightarrow> \<exists>u. parse_url E u = Some v"
  by (auto simp: page_def map_sum_Inr dest: envelope_next_parsed)

lemma envelope_items_next_parsed:
  "envelope_items E now de url etag n = Some (Inr p, n') \<Longrightarrow> pg_next p = Some v \<Longrightarrow> \<exists>u. parse_url E u = Some v"
  by (auto simp: envelope_items_def map_sum_Inr dest: envelope_next_parsed)

section \<open>What every page source promises\<close>

definition with_sync :: "sync_state list \<Rightarrow> db \<Rightarrow> db" where
  "with_sync s d = d\<lparr>repository_sync_state := s\<rparr>"

text \<open>The database without the progress of synchronisation.\<close>

abbreviation facts :: "db \<Rightarrow> db" where
  "facts \<equiv> with_sync []"

lemma with_sync_twice [simp]: "with_sync s (with_sync t d) = with_sync s d"
  by (simp add: with_sync_def)

lemma with_sync_state [simp]: "repository_sync_state (with_sync s d) = s"
  by (simp add: with_sync_def)

lemma with_own_sync [simp]: "with_sync (repository_sync_state d) d = d"
  by (simp add: with_sync_def)

lemma facts_set_sync [simp]: "with_sync s (set_sync repo resource f d) = with_sync s d"
  by (simp add: set_sync_def with_sync_def)

lemma facts_inv_with_sync [simp]: "facts_inv (with_sync s d) \<longleftrightarrow> facts_inv d"
proof
  assume "facts_inv (with_sync s d)"
  then show "facts_inv d" by (rule facts_inv_cong) (simp_all add: with_sync_def)
next
  assume "facts_inv d"
  then show "facts_inv (with_sync s d)" by (rule facts_inv_cong) (simp_all add: with_sync_def)
qed

lemma facts_inv_sync_only: "facts d1 = facts d2 \<Longrightarrow> facts_inv d1 \<longleftrightarrow> facts_inv d2"
  using facts_inv_with_sync [of "[]" d1] facts_inv_with_sync [of "[]" d2] by simp

text \<open>
  The pages of a chain that were stored, from \<open>url\<close> on: the URLs in the order of their
  transactions, the URL of the first page that was not stored, if any, and the database reached.
\<close>

inductive imported ::
  "'a fetcher \<Rightarrow> (db \<Rightarrow> 'a list \<Rightarrow> 'b list api) \<Rightarrow> (timestamp \<Rightarrow> 'b list \<Rightarrow> unit tx) \<Rightarrow> string \<Rightarrow> db \<Rightarrow> string list
     \<Rightarrow> string option \<Rightarrow> db \<Rightarrow> bool"
  for fetch prepare store where
  stop: "imported fetch prepare store url d [] (Some url) d"
| last: "fetch url etag n = Some (Inr p, n1) \<Longrightarrow> \<not> pg_not_modified p \<Longrightarrow> prepare d (pg_items p) n1 = Some (Inr items, n2) \<Longrightarrow>
    store now items d = Inr ((), d1) \<Longrightarrow> pg_next p = None \<Longrightarrow> imported fetch prepare store url d [url] None d1"
| more: "fetch url etag n = Some (Inr p, n1) \<Longrightarrow> \<not> pg_not_modified p \<Longrightarrow> prepare d (pg_items p) n1 = Some (Inr items, n2) \<Longrightarrow>
    store now items d = Inr ((), d1) \<Longrightarrow> pg_next p = Some next \<Longrightarrow> imported fetch prepare store next d1 us w d' \<Longrightarrow>
    imported fetch prepare store url d (url # us) w d'"

lemma imported_trans:
  "imported fetch prepare store url d us w d1 \<Longrightarrow> w = Some v \<Longrightarrow> imported fetch prepare store v d1 vs w' d2 \<Longrightarrow>
     imported fetch prepare store url d (us @ vs) w' d2"
  by (induction rule: imported.induct) (auto intro: imported.more)

lemma imported_at_start: "imported fetch prepare store url d [] w d' \<Longrightarrow> w = Some url \<and> d' = d"
  by (erule imported.cases) auto

text \<open>GitHub answered that a page has not changed since its entity tag.\<close>

definition unchanged :: "'a fetcher \<Rightarrow> string \<Rightarrow> string option \<Rightarrow> bool" where
  "unchanged fetch url etag \<longleftrightarrow> (\<exists>n p n'. fetch url etag n = Some (Inr p, n') \<and> pg_not_modified p)"

definition cursor_of :: "uuid \<Rightarrow> string \<Rightarrow> db \<Rightarrow> string option" where
  "cursor_of repository_id resource d = Option.bind (sync_row repository_id resource d) ss_cursor"

definition etag_of :: "uuid \<Rightarrow> string \<Rightarrow> db \<Rightarrow> string option" where
  "etag_of repository_id resource d = Option.bind (sync_row repository_id resource d) ss_etag"

lemma set_sync_row:
  assumes "\<And>s. sync_key (f s) = sync_key s"
  shows "sync_row repo resource (set_sync repo resource f d) = map_option f (sync_row repo resource d)"
proof -
  have "find (\<lambda>s. sync_key s = k) (upd_where (\<lambda>s. sync_key s = k) f xs) = map_option f (find (\<lambda>s. sync_key s = k) xs)" for k xs
    by (induction xs) (auto simp: assms)
  then show ?thesis by (simp add: sync_row_def set_sync_def)
qed

lemma sync_updates_row:
  "sync_row repo resource (checkpoint now repo resource cursor etag d) =
     map_option (\<lambda>s. s\<lparr>ss_cursor := cursor, ss_etag := coalesce etag (ss_etag s), ss_last_synced_at := Some now\<rparr>) (sync_row repo resource d)"
  "sync_row repo resource (finish_resource now repo resource d) =
     map_option (\<lambda>s. s\<lparr>ss_cursor := None, ss_status := Idle, ss_last_synced_at := Some now,
         ss_last_success_at := Some now, ss_last_error := None\<rparr>) (sync_row repo resource d)"
  by (simp_all add: checkpoint_def finish_resource_def set_sync_row sync_key_def)

lemma cursor_updates [simp]:
  "cursor_of repo resource (finish_resource now repo resource d) = None"
  "sync_row repo resource d \<noteq> None \<Longrightarrow> cursor_of repo resource (checkpoint now repo resource c etag d) = c"
  "sync_row repo resource (checkpoint now repo resource c etag d) = None \<longleftrightarrow> sync_row repo resource d = None"
  "with_sync s (checkpoint now repo resource c etag d) = with_sync s d"
  "with_sync s (finish_resource now repo resource d) = with_sync s d"
proof -
  show "cursor_of repo resource (finish_resource now repo resource d) = None"
    by (cases "sync_row repo resource d") (simp_all add: cursor_of_def sync_updates_row)
qed (auto simp: cursor_of_def sync_updates_row, simp_all add: checkpoint_def finish_resource_def)

lemma begin_resource_run:
  assumes "begin_resource repo resource d = Inr ((cursor, etag), d1)"
  shows "cursor = cursor_of repo resource d \<and> etag = etag_of repo resource d \<and> facts d1 = facts d \<and>
    sync_row repo resource d1 \<noteq> None \<and> cursor_of repo resource d1 = cursor \<and> etag_of repo resource d1 = etag"
proof -
  have "sync_row repo resource d1 = Some (case sync_row repo resource d of
      None \<Rightarrow> \<lparr>ss_repository_id = repo, ss_resource = resource, ss_etag = None, ss_cursor = None,
         ss_status = Syncing, ss_last_synced_at = None, ss_last_success_at = None, ss_last_error = None\<rparr>
    | Some s \<Rightarrow> s\<lparr>ss_status := Syncing, ss_last_error := None\<rparr>)"
  proof -
    let ?new = "\<lparr>ss_repository_id = repo, ss_resource = resource, ss_etag = None, ss_cursor = None,
         ss_status = Syncing, ss_last_synced_at = None, ss_last_success_at = None, ss_last_error = None\<rparr>"
    have "repository_sync_state d1 = upsert sync_key merge_sync ?new (repository_sync_state d)"
      using assms by (auto simp: begin_resource_def Let_def split: if_splits)
    then show ?thesis
      using find_upsert [of sync_key merge_sync ?new "(repo, resource)" "repository_sync_state d"]
      by (cases "sync_row repo resource d") (simp_all add: sync_row_def merge_sync_def sync_key_def)
  qed
  moreover have "facts d1 = facts d" and "(cursor, etag) = (case sync_row repo resource d of
      None \<Rightarrow> (None, None) | Some s \<Rightarrow> (ss_cursor s, ss_etag s))"
    using assms by (auto simp: begin_resource_def Let_def with_sync_def split: if_splits)
  ultimately show ?thesis by (auto simp: cursor_of_def etag_of_def split: option.splits)
qed

text \<open>A run that failed, its error recorded: the state the next run starts from.\<close>

inductive retried :: "ext \<Rightarrow> uuid \<Rightarrow> string \<Rightarrow> sync \<Rightarrow> db \<Rightarrow> db \<Rightarrow> bool" for E repo resource action where
  failed: "action d n = Some (Inl e, d1, n1) \<Longrightarrow> record_error E now repo resource e d1 = Some d2 \<Longrightarrow>
    retried E repo resource action d d2"

lemma record_error_run:
  assumes "record_error E now repo resource e d = Some d1"
  shows "facts d1 = facts d \<and> cursor_of repo resource d1 = cursor_of repo resource d"
proof -
  obtain f where d1: "d1 = set_sync repo resource f d" and f: "\<And>s. sync_key (f s) = sync_key s" "\<And>s. ss_cursor (f s) = ss_cursor s"
    using assms by (auto simp: record_error_def sync_key_def)
  then show ?thesis by (cases "sync_row repo resource d") (simp_all add: cursor_of_def set_sync_row)
qed

text \<open>A resource that returns on a failing network and keeps the facts.\<close>

definition good_sync :: "sync \<Rightarrow> bool" where
  "good_sync action \<longleftrightarrow>
     (\<forall>d n. failing n \<longrightarrow> (\<exists>r d' n'. action d n = Some (r, d', n') \<and> kept n r n')) \<and>
     (\<forall>d n r d' n'. facts_inv d \<longrightarrow> action d n = Some (r, d', n') \<longrightarrow> facts_inv d')"

text \<open>A parsed URL, written out, parses to itself.\<close>

definition stable_urls :: "ext \<Rightarrow> bool" where
  "stable_urls E \<longleftrightarrow> (\<forall>u v. parse_url E u = Some v \<longrightarrow> parse_url E v = Some v)"

locale page_store =
  fixes E :: ext and fetch :: "'a fetcher" and prepare :: "db \<Rightarrow> 'a list \<Rightarrow> 'b list api"
    and store :: "timestamp \<Rightarrow> 'b list \<Rightarrow> unit tx"
  assumes fetch_answers: "answers (fetch url etag)"
    and fetch_consumes: "fetch url etag n = Some (r, n') \<Longrightarrow> length (replies n') < length (replies n)"
    and next_parsed: "fetch url etag n = Some (Inr p, n') \<Longrightarrow> pg_next p = Some v \<Longrightarrow> \<exists>u. parse_url E u = Some v"
    and prepare_answers: "answers (prepare d items)"
    and prepare_frame: "prepare (with_sync s d) items = prepare d items"
    and store_frame: "store now xs (with_sync s d) = map_sum id (map_prod id (with_sync s)) (store now xs d)"
    and store_inv: "facts_inv d \<Longrightarrow> store now xs d = Inr ((), d1) \<Longrightarrow> facts_inv d1"
begin

lemma store_facts: "store now xs d = Inr ((), d1) \<Longrightarrow> store now xs (facts d) = Inr ((), facts d1)"
  by (simp add: store_frame)

lemma store_row:
  assumes "store now xs d = Inr ((), d1)"
  shows "sync_row repo resource d1 = sync_row repo resource d"
  using store_frame [of now xs "repository_sync_state d" d] assms
  by (auto simp: sync_row_def dest: arg_cong [where f = repository_sync_state])

text \<open>One turn of the loop.\<close>

lemma turn_cases [consumes 1, case_names failed not_modified finished continues]:
  assumes "sync_pages fetch prepare store clk repo resource first url etag d n = Some (r, d', n')"
  obtains e where "r = Inl e" "d' = d"
  | p where "fetch url etag n = Some (Inr p, n')" "pg_not_modified p" "r = Inr ()"
      "d' = finish_resource (clk (length (sent n'))) repo resource d"
  | p n1 items d1 where "fetch url etag n = Some (Inr p, n1)" "\<not> pg_not_modified p"
      "prepare d (pg_items p) n1 = Some (Inr items, n')" "store (clk (length (sent n'))) items d = Inr ((), d1)"
      "pg_next p = None" "r = Inr ()"
      "d' = finish_resource (clk (length (sent n'))) repo resource
              (checkpoint (clk (length (sent n'))) repo resource None (if first then pg_etag p else None) d1)"
  | p n1 items n2 d1 v where "fetch url etag n = Some (Inr p, n1)" "\<not> pg_not_modified p"
      "prepare d (pg_items p) n1 = Some (Inr items, n2)" "store (clk (length (sent n2))) items d = Inr ((), d1)"
      "pg_next p = Some v"
      "sync_pages fetch prepare store clk repo resource False v None
         (checkpoint (clk (length (sent n2))) repo resource (Some v) (if first then pg_etag p else None) d1) n2 = Some (r, d', n')"
proof -
  note body = trans [OF sync_pages.simps [symmetric] assms]
  from body obtain a n1 where f: "fetch url etag n = Some (a, n1)" by (auto simp: bind_eq_Some_conv)
  show thesis
  proof (cases a)
    case (Inl e)
    with body f that(1) show ?thesis by auto
  next
    case (Inr p)
    show ?thesis
    proof (cases "pg_not_modified p")
      case True
      with body f Inr that(2) show ?thesis by auto
    next
      case False
      with body f Inr obtain b n2 where g: "prepare d (pg_items p) n1 = Some (b, n2)" by (auto simp: bind_eq_Some_conv)
      show ?thesis
      proof (cases b)
        case (Inl e)
        with body f g Inr False that(1) show ?thesis by auto
      next
        case items: (Inr items)
        show ?thesis
        proof (cases "store (clk (length (sent n2))) items d")
          case (Inl e)
          with body f g \<open>a = Inr p\<close> items False that(1) show ?thesis by (auto simp: transact_def store_page_def)
        next
          case stored: (Inr x)
          obtain d1 where x: "x = ((), d1)" by (cases x) simp
          show ?thesis
          proof (cases "pg_next p")
            case None
            with body f g Inr items False stored x that(3) show ?thesis by (auto simp: transact_def store_page_def)
          next
            case (Some v)
            with body f g Inr items False stored x that(4) show ?thesis by (auto simp: transact_def store_page_def)
          qed
        qed
      qed
    qed
  qed
qed

text \<open>The loop returns on a network that does not stay up for ever.\<close>

lemma loop_ends:
  "failing n \<Longrightarrow> \<exists>r d' n'. sync_pages fetch prepare store clk repo resource first url etag d n = Some (r, d', n') \<and> kept n r n'"
proof (induction "length (replies n)" arbitrary: n first url etag d rule: less_induct)
  case less
  from fetch_answers less.prems obtain a n1 where f: "fetch url etag n = Some (a, n1)" "kept n a n1" by (rule answersD)
  note body = sync_pages.simps [of fetch prepare store clk repo resource first url etag d n]
  show ?case
  proof (cases "isl a \<or> pg_not_modified (projr a)")
    case True
    with f show ?thesis unfolding body by (cases a) (auto simp: kept_def)
  next
    case False
    then obtain p where a: "a = Inr p" "\<not> pg_not_modified p" by (cases a) auto
    with f less.prems have "failing n1" by (simp add: kept_def)
    with prepare_answers obtain b n2 where
      g: "prepare d (pg_items p) n1 = Some (b, n2)" "kept n1 b n2" by (rule answersD)
    have kept2: "kept n b n2" using f(2) g(2) a by (simp add: kept_def)
    show ?thesis
    proof (cases b)
      case (Inl e)
      with f g a kept2 show ?thesis unfolding body by (simp add: kept_def)
    next
      case (Inr items)
      obtain s d1 where t: "transact (store_page store (clk (length (sent n2))) repo resource first p items) d = (s, d1)"
        by fastforce
      have "failing n2" using kept2 less.prems Inr by (simp add: kept_def)
      moreover have "length (replies n2) < length (replies n)" using fetch_consumes [OF f(1)] answers_shrink [OF prepare_answers g(1)] by simp
      ultimately have IH: "\<exists>r d' n'. sync_pages fetch prepare store clk repo resource False v None d1 n2 = Some (r, d', n') \<and> kept n2 r n'" for v
        by (rule less.hyps [rotated])
      show ?thesis
      proof (cases "isl s \<or> pg_next p = None")
        case True
        with f g a Inr t kept2 show ?thesis unfolding body by (cases s) (auto simp: kept_def)
      next
        case False
        then obtain v where v: "pg_next p = Some v" "s = Inr ()" by (cases s) auto
        from IH [of v] obtain r d' n' where
          "sync_pages fetch prepare store clk repo resource False v None d1 n2 = Some (r, d', n')" "kept n2 r n'" by blast
        with f g a Inr t v kept2 show ?thesis unfolding body by (auto simp: kept_def)
      qed
    qed
  qed
qed

text \<open>What a run of the loop stored, and where it stands afterwards.\<close>

lemma loop_imports:
  assumes "sync_pages fetch prepare store clk repo resource first url etag d n = Some (r, d', n')"
    and "sync_row repo resource d \<noteq> None"
  shows "\<exists>us w. imported fetch prepare store url (facts d) us w (facts d') \<and>
    (case r of
       Inl e \<Rightarrow> w \<noteq> None \<and> cursor_of repo resource d' = (if us = [] then cursor_of repo resource d else w) \<and>
         (us \<noteq> [] \<longrightarrow> (\<exists>u. parse_url E u = w))
     | Inr _ \<Rightarrow> cursor_of repo resource d' = None \<and>
         (w = None \<or> (\<exists>u. w = Some u \<and> unchanged fetch u (if us = [] then etag else None))))"
  using assms
proof (induction "length (replies n)" arbitrary: n first url etag d rule: less_induct)
  case less
  note stop = imported.stop [of fetch prepare store url "facts d"]
  from less.prems(1) show ?case
  proof (cases rule: turn_cases)
    case (failed e)
    with stop show ?thesis by (intro exI [of _ "[]"] exI [of _ "Some url"]) simp
  next
    case (not_modified p)
    then have "unchanged fetch url etag" by (auto simp: unchanged_def)
    with stop not_modified show ?thesis
      by (intro exI [of _ "[]"] exI [of _ "Some url"])
        auto
  next
    case (finished p n1 items d1)
    then have "imported fetch prepare store url (facts d) [url] None (facts d1)"
      by (intro imported.last) (auto simp: prepare_frame intro: store_facts)
    with finished show ?thesis
      by (intro exI [of _ "[url]"] exI [of _ None])
        auto
  next
    case (continues p n1 items n2 d1 v)
    let ?c = "checkpoint (clk (length (sent n2))) repo resource (Some v) (if first then pg_etag p else None) d1"
    have "length (replies n2) < length (replies n)"
      using fetch_consumes [OF continues(1)] answers_shrink [OF prepare_answers continues(3)] by simp
    moreover have "sync_row repo resource ?c \<noteq> None" using less.prems(2) by (simp add: store_row [OF continues(4)])
    ultimately obtain us w where us: "imported fetch prepare store v (facts ?c) us w (facts d')"
      and out: "case r of
         Inl e \<Rightarrow> w \<noteq> None \<and> cursor_of repo resource d' = (if us = [] then cursor_of repo resource ?c else w) \<and>
           (us \<noteq> [] \<longrightarrow> (\<exists>u. parse_url E u = w))
       | Inr _ \<Rightarrow> cursor_of repo resource d' = None \<and>
           (w = None \<or> (\<exists>u. w = Some u \<and> unchanged fetch u (if us = [] then None else None)))"
      using less.hyps [OF _ continues(6)] by blast
    have "imported fetch prepare store url (facts d) (url # us) w (facts d')"
      using continues(1-5) us by (intro imported.more) (auto simp: prepare_frame intro: store_facts)
    moreover have "us = [] \<Longrightarrow> w = Some v" using imported_at_start us by blast
    ultimately show ?thesis
      using out next_parsed [OF continues(1,5)] \<open>sync_row repo resource ?c \<noteq> None\<close>
      by (intro exI [of _ "url # us"] exI [of _ w]) (auto split: sum.splits)
  qed
qed

lemma imported_inv: "imported fetch prepare store url d us w d' \<Longrightarrow> facts_inv d \<Longrightarrow> facts_inv d'"
  by (induction rule: imported.induct) (auto dest: store_inv)

lemma resource_ends:
  assumes "failing n"
  shows "\<exists>r d' n'. sync_resource E start fetch prepare store clk repo resource d n = Some (r, d', n') \<and> kept n r n'"
  unfolding sync_resource_def using assms by (auto split: sum.splits prod.splits intro: loop_ends)

text \<open>One run of a resource, from where the last one stood.\<close>

lemma resource_imports:
  assumes run: "sync_resource E start fetch prepare store clk repo resource d n = Some (r, d', n')"
    and url: "(case cursor_of repo resource d of Some c \<Rightarrow> parse_cursor E c | None \<Rightarrow> start) = Inr url"
  shows "\<exists>us w. imported fetch prepare store url (facts d) us w (facts d') \<and>
    (case r of
       Inl e \<Rightarrow> w \<noteq> None \<and> cursor_of repo resource d' = (if us = [] then cursor_of repo resource d else w) \<and>
         (us \<noteq> [] \<longrightarrow> (\<exists>u. parse_url E u = w))
     | Inr _ \<Rightarrow> cursor_of repo resource d' = None \<and>
         (w = None \<or> (\<exists>u. w = Some u \<and>
            unchanged fetch u (if us = [] then if cursor_of repo resource d = None then etag_of repo resource d else None else None))))"
proof (cases "begin_resource repo resource d")
  case (Inl e)
  with run have "r = Inl e" "d' = d" by (auto simp: sync_resource_def transact_def)
  with imported.stop [of fetch prepare store url "facts d"] show ?thesis
    by (intro exI [of _ "[]"] exI [of _ "Some url"]) simp
next
  case (Inr x)
  obtain cursor etag d1 where x: "x = ((cursor, etag), d1)" by (metis prod.collapse)
  note b = begin_resource_run [OF Inr [unfolded x]]
  then have row: "sync_row repo resource d1 \<noteq> None" and eqs: "facts d1 = facts d" "cursor = cursor_of repo resource d"
      "etag = etag_of repo resource d" "cursor_of repo resource d1 = cursor_of repo resource d" by auto
  have "sync_pages fetch prepare store clk repo resource (cursor = None) url (if cursor = None then etag else None) d1 n = Some (r, d', n')"
    using run url Inr x eqs(2) by (cases "cursor_of repo resource d") (simp_all add: sync_resource_def transact_def)
  from loop_imports [OF this row] show ?thesis unfolding eqs .
qed

lemma resource_inv:
  assumes inv: "facts_inv d" and run: "sync_resource E start fetch prepare store clk repo resource d n = Some (r, d', n')"
  shows "facts_inv d'"
proof (cases "case cursor_of repo resource d of Some c \<Rightarrow> parse_cursor E c | None \<Rightarrow> start")
  case (Inl e)
  have "facts d' = facts d"
    using run Inl by (auto simp: sync_resource_def transact_def split: sum.splits prod.splits dest!: begin_resource_run)
  with inv show ?thesis using facts_inv_sync_only by blast
next
  case (Inr url)
  from resource_imports [OF run Inr] imported_inv inv show ?thesis by fastforce
qed

lemma resource_good: "good_sync (sync_resource E start fetch prepare store clk repo resource)"
  unfolding good_sync_def using resource_ends resource_inv by blast

lemma retries_import:
  assumes idem: "stable_urls E" and start: "start = Inr url"
    and fresh: "cursor_of repo resource d = None"
    and runs: "(retried E repo resource (sync_resource E start fetch prepare store clk repo resource))\<^sup>*\<^sup>* d d'"
  shows "\<exists>us u. imported fetch prepare store url (facts d) us (Some u) (facts d') \<and>
    cursor_of repo resource d' = (if us = [] then None else Some u) \<and> (us \<noteq> [] \<longrightarrow> parse_url E u = Some u)"
  using runs
proof (induction rule: rtranclp_induct)
  case base
  from imported.stop fresh show ?case by (intro exI [of _ "[]"] exI [of _ url]) simp
next
  case (step y z)
  then obtain us u where us: "imported fetch prepare store url (facts d) us (Some u) (facts y)"
    and cur: "cursor_of repo resource y = (if us = [] then None else Some u)" and parsed: "us \<noteq> [] \<Longrightarrow> parse_url E u = Some u"
    by blast
  from step.hyps(2) obtain n e d1 n1 now where
    run: "sync_resource E start fetch prepare store clk repo resource y n = Some (Inl e, d1, n1)"
    and rec: "record_error E now repo resource e d1 = Some z" by (auto elim: retried.cases)
  have "us = [] \<Longrightarrow> u = url" using imported_at_start us by blast
  then have at: "(case cursor_of repo resource y of Some c \<Rightarrow> parse_cursor E c | None \<Rightarrow> start) = Inr u"
    using cur parsed start by (auto simp: parse_cursor_def)
  obtain vs v where vs: "imported fetch prepare store u (facts y) vs (Some v) (facts d1)"
    and cur1: "cursor_of repo resource d1 = (if vs = [] then cursor_of repo resource y else Some v)"
    and p1: "vs \<noteq> [] \<Longrightarrow> \<exists>x. parse_url E x = Some v"
    using resource_imports [OF run at] by auto
  have "imported fetch prepare store url (facts d) (us @ vs) (Some v) (facts z)"
    using imported_trans [OF us refl vs] record_error_run [OF rec] by simp
  moreover have "vs = [] \<Longrightarrow> v = u" using imported_at_start [of fetch prepare store u "facts y" "Some v"] vs by auto
  ultimately show ?case
    using record_error_run [OF rec] cur cur1 p1 idem [unfolded stable_urls_def] parsed
    by (intro exI [of _ "us @ vs"] exI [of _ v]) auto
qed

lemma retries_then_success:
  assumes idem: "stable_urls E" and start: "start = Inr url"
    and fresh: "cursor_of repo resource d = None"
    and runs: "(retried E repo resource (sync_resource E start fetch prepare store clk repo resource))\<^sup>*\<^sup>* d d1"
    and success: "sync_resource E start fetch prepare store clk repo resource d1 n = Some (Inr (), d2, n')"
  shows "\<exists>us w. imported fetch prepare store url (facts d) us w (facts d2) \<and>
    (w = None \<or> (\<exists>u. w = Some u \<and> unchanged fetch u (if us = [] then etag_of repo resource d1 else None)))"
proof -
  obtain us u where us: "imported fetch prepare store url (facts d) us (Some u) (facts d1)"
    and cur: "cursor_of repo resource d1 = (if us = [] then None else Some u)" and parsed: "us \<noteq> [] \<Longrightarrow> parse_url E u = Some u"
    using retries_import [OF idem start fresh runs] by auto
  have "us = [] \<Longrightarrow> u = url" using imported_at_start us by blast
  then have at: "(case cursor_of repo resource d1 of Some c \<Rightarrow> parse_cursor E c | None \<Rightarrow> start) = Inr u"
    using cur parsed start by (auto simp: parse_cursor_def)
  from resource_imports [OF success at] obtain vs w where "imported fetch prepare store u (facts d1) vs w (facts d2)"
    and "w = None \<or> (\<exists>v. w = Some v \<and>
      unchanged fetch v (if vs = [] then if cursor_of repo resource d1 = None then etag_of repo resource d1 else None else None))" by auto
  with imported_trans [OF us refl] cur show ?thesis
    by (intro exI [of _ "us @ vs"] exI [of _ w]) (auto split: if_splits)
qed

end

section \<open>The five resources keep the promise\<close>

interpretation synced_branch_table: keyed_table branch_key b_id "\<lambda>i r. r\<lparr>b_id := i\<rparr>" merge_synced_branch
  "\<lambda>b. b_deleted_at b = None"
  by unfold_locales (simp_all add: branch_key_def merge_synced_branch_def)

text \<open>A statement that neither reads nor writes the progress rows.\<close>

definition ignores_sync :: "'a tx \<Rightarrow> bool" where
  "ignores_sync f \<longleftrightarrow> (\<forall>s d. f (with_sync s d) = map_sum id (map_prod id (with_sync s)) (f d))"

lemma ignores_for_each:
  assumes "\<And>x. ignores_sync (f x)"
  shows "ignores_sync (for_each f xs)"
proof (induction xs)
  case (Cons x xs)
  show ?case
    unfolding ignores_sync_def
  proof (intro allI)
    fix s d
    show "for_each f (x # xs) (with_sync s d) = map_sum id (map_prod id (with_sync s)) (for_each f (x # xs) d)"
      using assms [of x] Cons by (cases "f x d") (auto simp: ignores_sync_def)
  qed
qed (simp add: ignores_sync_def)

definition keeps_facts :: "unit tx \<Rightarrow> bool" where
  "keeps_facts f \<longleftrightarrow> (\<forall>d d1. facts_inv d \<longrightarrow> f d = Inr ((), d1) \<longrightarrow> facts_inv d1)"

lemma keeps_factsD: "keeps_facts f \<Longrightarrow> facts_inv d \<Longrightarrow> f d = Inr ((), d1) \<Longrightarrow> facts_inv d1"
  by (auto simp: keeps_facts_def)

lemma keeps_for_each:
  assumes "\<And>x. keeps_facts (f x)"
  shows "keeps_facts (for_each f xs)"
proof -
  have "facts_inv d \<Longrightarrow> for_each f xs d = Inr ((), d1) \<Longrightarrow> facts_inv d1" for d d1
    by (induction xs arbitrary: d) (auto split: sum.splits intro: keeps_factsD [OF assms])
  then show ?thesis by (auto simp: keeps_facts_def)
qed

lemma with_sync_fields [simp]:
  "next_id (with_sync s d) = next_id d" "repositories (with_sync s d) = repositories d"
  "branches (with_sync s d) = branches d" "commits (with_sync s d) = commits d"
  "pull_requests (with_sync s d) = pull_requests d" "workflows (with_sync s d) = workflows d"
  "workflow_runs (with_sync s d) = workflow_runs d" "workflow_jobs (with_sync s d) = workflow_jobs d"
  "workflow_steps (with_sync s d) = workflow_steps d" "deployments (with_sync s d) = deployments d"
  "event_outbox (with_sync s d) = event_outbox d"
  by (simp_all add: with_sync_def)

lemma with_sync_updates [simp]:
  "(with_sync s d)\<lparr>next_id := i\<rparr> = with_sync s (d\<lparr>next_id := i\<rparr>)"
  "(with_sync s d)\<lparr>branches := bs\<rparr> = with_sync s (d\<lparr>branches := bs\<rparr>)"
  "(with_sync s d)\<lparr>commits := cs\<rparr> = with_sync s (d\<lparr>commits := cs\<rparr>)"
  "(with_sync s d)\<lparr>pull_requests := ps\<rparr> = with_sync s (d\<lparr>pull_requests := ps\<rparr>)"
  "(with_sync s d)\<lparr>workflows := ws\<rparr> = with_sync s (d\<lparr>workflows := ws\<rparr>)"
  "(with_sync s d)\<lparr>workflow_runs := rs\<rparr> = with_sync s (d\<lparr>workflow_runs := rs\<rparr>)"
  "(with_sync s d)\<lparr>workflow_jobs := js\<rparr> = with_sync s (d\<lparr>workflow_jobs := js\<rparr>)"
  "(with_sync s d)\<lparr>workflow_steps := ss\<rparr> = with_sync s (d\<lparr>workflow_steps := ss\<rparr>)"
  "(with_sync s d)\<lparr>deployments := ds\<rparr> = with_sync s (d\<lparr>deployments := ds\<rparr>)"
  "(with_sync s d)\<lparr>event_outbox := es\<rparr> = with_sync s (d\<lparr>event_outbox := es\<rparr>)"
  by (simp_all add: with_sync_def)

lemma repository_known_with_sync [simp]: "repository_known i (with_sync s d) = repository_known i d"
  by (simp add: repository_known_def)

lemma ignores_store_branch: "ignores_sync (store_branch repo default_branch b)"
  by (simp add: ignores_sync_def store_branch_def)

lemma ignores_upsert_commit: "ignores_sync (upsert_commit repo c)"
  by (simp add: ignores_sync_def upsert_commit_def put_commit_def Let_def split: option.splits)

lemma ignores_upsert_pull_request: "ignores_sync (upsert_pull_request repo pull t)"
  by (simp add: ignores_sync_def upsert_pull_request_def Let_def)

lemma ignores_upsert_workflow: "ignores_sync (upsert_workflow repo wflow)"
  by (simp add: ignores_sync_def upsert_workflow_def Let_def)

lemma ignores_store_workflow: "ignores_sync (store_workflow repo wflow)"
  using ignores_upsert_workflow [of repo wflow]
  by (simp add: ignores_sync_def store_workflow_def sum.map_comp comp_def map_prod.compositionality)

lemma run_lookups_with_sync [simp]:
  "find_workflow_id repo gid (with_sync s d) = find_workflow_id repo gid d"
  "find_commit_id repo sha (with_sync s d) = find_commit_id repo sha d"
  "find_pull_request_id repo run (with_sync s d) = find_pull_request_id repo run d"
  "previous_status run (with_sync s d) = previous_status run d"
  "run_fks (with_sync s d) = run_fks d" "deployment_taken row (with_sync s d) = deployment_taken row d"
  "find_run_id gid attempt (with_sync s d) = find_run_id gid attempt d" "job_fks (with_sync s d) = job_fks d"
  by (simp_all add: find_workflow_id_def find_commit_id_def find_pull_request_id_def previous_status_def run_fks_def
      deployment_taken_def find_run_id_def job_fks_def fun_eq_iff split: list.splits)

lemma emit_with_sync [simp]:
  "emit_run_completed E now utc org repo i w run b t (with_sync s d) =
     with_sync s (emit_run_completed E now utc org repo i w run b t d)"
  by (simp add: emit_run_completed_def enqueue_def Let_def)

lemma infer_with_sync:
  "infer_deployment E now utc repo org i run t (with_sync s d) =
     map_sum id (map_prod id (with_sync s)) (infer_deployment E now utc repo org i run t d)"
  by (simp add: infer_deployment_def enqueue_def Let_def)

lemma ignores_ingest_run: "ignores_sync (ingest_workflow_run E now utc repo org b run None)"
  by (auto simp: ignores_sync_def ingest_workflow_run_def resolve_workflow_def put_workflow_run_def Let_def infer_with_sync
      split: sum.splits)

lemma put_steps_with_sync: "fold (put_step k) steps (with_sync s d) = with_sync s (fold (put_step k) steps d)"
  by (induction steps arbitrary: d) (simp_all add: put_step_def)

lemma ignores_ingest_job: "ignores_sync (ingest_workflow_job repo job)"
  by (simp add: ignores_sync_def ingest_workflow_job_def Let_def put_steps_with_sync split: option.splits)

lemma ignores_store_job: "ignores_sync (store_job repo job)"
  using ignores_ingest_job [of repo job]
  by (simp add: ignores_sync_def store_job_def sum.map_comp comp_def map_prod.compositionality)

lemma ignores_store_run: "ignores_sync (store_run E now repo org b item)"
proof -
  obtain run jobs where item: "item = (run, jobs)" by (cases item)
  show ?thesis
    unfolding ignores_sync_def
  proof (intro allI)
    fix s d
    show "store_run E now repo org b item (with_sync s d) = map_sum id (map_prod id (with_sync s)) (store_run E now repo org b item d)"
      using ignores_ingest_run [of E now now repo org b run] ignores_for_each [of "store_job repo" jobs, OF ignores_store_job]
      by (cases "ingest_workflow_run E now now repo org b run None d") (auto simp: store_run_def ignores_sync_def item)
  qed
qed

lemma keeps_store_branch: "keeps_facts (store_branch repo b branch)"
  unfolding keeps_facts_def
proof (intro allI impI)
  fix d d1 assume inv: "facts_inv d" and put: "store_branch repo b branch d = Inr ((), d1)"
  from inv have "ingest_inv d1"
    using put unfolding facts_inv_def
    by (elim conjE ingest_inv_grow) (auto simp: store_branch_def split: if_splits)
  moreover have "vcs_inv d1"
    using put inv
    by (auto simp: store_branch_def facts_inv_def vcs_inv_def synced_branch_table.upsert_ok
        intro: table_ok_mono split: if_splits)
  ultimately show "facts_inv d1" by (simp add: facts_inv_def)
qed

lemma keeps_store_workflow: "keeps_facts (store_workflow repo wflow)"
  unfolding keeps_facts_def
proof (intro allI impI)
  fix d d1 assume inv: "facts_inv d" and "store_workflow repo wflow d = Inr ((), d1)"
  then obtain i where up: "upsert_workflow repo wflow d = Inr (i, d1)" by (auto simp: store_workflow_def map_sum_Inr)
  with inv show "facts_inv d1"
    using upsert_workflow_inv [OF _ up] vcs_inv_cong [of d d1] by (simp add: facts_inv_def upsert_workflow_frame(1) [OF up])
qed

lemma keeps_upserts:
  "keeps_facts (upsert_commit repo c)" "keeps_facts (upsert_pull_request repo pull t)" "keeps_facts (store_job repo job)"
  by (auto simp: keeps_facts_def store_job_def map_sum_Inr
      intro: upsert_commit_inv upsert_pull_request_inv ingest_job_facts_inv)

lemma keeps_store_run: "keeps_facts (store_run E now repo org b item)"
proof -
  have "facts_inv d1" if "facts_inv d" and "store_run E now repo org b item d = Inr ((), d1)" for d d1
  proof -
    from that(2) obtain run jobs i d0 where "ingest_workflow_run E now now repo org b run None d = Inr (i, d0)"
      and jobs: "for_each (store_job repo) jobs d0 = Inr ((), d1)"
      by (auto simp: store_run_def split: prod.splits sum.splits)
    with that(1) have "facts_inv d0" by (auto intro: ingest_run_facts_inv)
    then show ?thesis by (rule keeps_factsD [OF keeps_for_each [OF keeps_upserts(3)] _ jobs])
  qed
  then show ?thesis by (auto simp: keeps_facts_def)
qed

text \<open>A source of list pages, or of pages inside an object, with a statement per item.\<close>

lemma page_store_items:
  assumes fetch: "fetch = (\<lambda>url etag. timed clk (\<lambda>now. page E now de url etag)) \<or>
      fetch = (\<lambda>url etag. timed clk (\<lambda>now. envelope_items E now de' url etag))"
    and "\<And>d items. answers (prepare d items)" and "\<And>s d items. prepare (with_sync s d) items = prepare d items"
    and "\<And>now x. ignores_sync (f now x)" and "\<And>now x. keeps_facts (f now x)"
  shows "page_store E fetch prepare (\<lambda>now. for_each (f now))"
proof
  show "answers (fetch url etag)" for url etag
    using fetch by (auto intro: answers_timed answers_page answers_envelope_items)
  show "fetch url etag n = Some (r, n') \<Longrightarrow> length (replies n') < length (replies n)" for url etag n r n'
    using fetch by (auto simp: timed_def dest: page_consumes envelope_items_consumes)
  show "fetch url etag n = Some (Inr p, n') \<Longrightarrow> pg_next p = Some v \<Longrightarrow> \<exists>u. parse_url E u = Some v" for url etag n p n' v
    using fetch by (auto simp: timed_def dest: page_next_parsed envelope_items_next_parsed)
  show "for_each (f now) xs (with_sync s d) = map_sum id (map_prod id (with_sync s)) (for_each (f now) xs d)" for now xs s d
    using ignores_for_each [of "f now" xs] assms(4) by (auto simp: ignores_sync_def)
  show "facts_inv d \<Longrightarrow> for_each (f now) xs d = Inr ((), d1) \<Longrightarrow> facts_inv d1" for d now xs d1
    using keeps_for_each [of "f now" xs] assms(5) by (auto dest: keeps_factsD)
qed (use assms in auto)

lemma prepare_none_laws: "answers (prepare_none d items)" "prepare_none (with_sync s d) items = prepare_none d items"
  by (auto simp: prepare_none_def answers_def)

lemma existing_with_sync: "existing_first_review repo number (with_sync s d) = existing_first_review repo number d"
  by (simp add: existing_first_review_def)

lemma prepare_pull_with_sync:
  "prepare_pull E clk base repo owner name (with_sync s d) = prepare_pull E clk base repo owner name d"
  by (intro ext) (unfold prepare_pull_def existing_with_sync, rule refl)

interpretation branch_pages: page_store E "\<lambda>url etag. timed clk (\<lambda>now. page E now de_GitHubBranch url etag)"
  prepare_none "\<lambda>now. for_each (store_branch repo default_branch)"
  by (rule page_store_items) (auto simp: prepare_none_laws ignores_store_branch keeps_store_branch)

interpretation commit_pages: page_store E "\<lambda>url etag. timed clk (\<lambda>now. page E now (de_GitHubCommit E) url etag)"
  prepare_none "\<lambda>now. for_each (upsert_commit repo)"
  by (rule page_store_items) (auto simp: prepare_none_laws ignores_upsert_commit keeps_upserts)

interpretation pull_pages: page_store E "\<lambda>url etag. timed clk (\<lambda>now. page E now (de_GitHubPullRequest E) url etag)"
  "\<lambda>d. prepare_each (prepare_pull E clk base repo owner name d)"
  "\<lambda>now. for_each (\<lambda>(pull, review). upsert_pull_request repo pull review)"
  by (rule page_store_items)
    (auto simp: prepare_pull_with_sync ignores_upsert_pull_request keeps_upserts intro: answers_prepare_each answers_prepare_pull)

interpretation workflow_pages: page_store E "\<lambda>url etag. timed clk (\<lambda>now. envelope_items E now de_GitHubWorkflowsPage url etag)"
  prepare_none "\<lambda>now. for_each (store_workflow repo)"
  by (rule page_store_items) (auto simp: prepare_none_laws ignores_store_workflow keeps_store_workflow)

interpretation run_pages: page_store E "\<lambda>url etag. timed clk (\<lambda>now. envelope_items E now (de_GitHubRunsPage E) url etag)"
  "\<lambda>d. prepare_each (prepare_run E clk base owner name)" "\<lambda>now. for_each (store_run E now repo org default_branch)"
  by (rule page_store_items) (auto simp: ignores_store_run keeps_store_run intro: answers_prepare_each answers_prepare_run)

section \<open>Properties\<close>

lemma good_resources:
  "good_sync (sync_branches E clk base repo owner name b)" "good_sync (sync_commits E clk base repo owner name)"
  "good_sync (sync_pull_requests E clk base repo owner name)" "good_sync (sync_workflows E clk base repo owner name)"
  "good_sync (sync_workflow_runs E clk base repo org owner name b)"
  unfolding sync_branches_def sync_commits_def sync_pull_requests_def sync_workflows_def sync_workflow_runs_def
  by (rule branch_pages.resource_good commit_pages.resource_good pull_pages.resource_good
      workflow_pages.resource_good run_pages.resource_good)+

lemma sync_each_ends:
  assumes "\<forall>(resource, action)\<in>set actions. good_sync action" and "length actions \<le> failures n" and "facts_inv d"
  shows "\<exists>r d' n'. sync_each E clk repo actions errors d n = Some (r, d', n') \<and> facts_inv d'"
  using assms
proof (induction actions arbitrary: errors d n)
  case (Cons x actions)
  obtain resource action where x: "x = (resource, action)" by (cases x)
  have good: "good_sync action" using Cons.prems(1) by (simp add: x)
  have "failing n" using Cons.prems(2) by simp
  with good obtain r d1 n1 where run: "action d n = Some (r, d1, n1)" "kept n r n1" unfolding good_sync_def by blast
  have inv: "facts_inv d1" using good run(1) Cons.prems(3) unfolding good_sync_def by blast
  have more: "length actions \<le> failures n1" using run(2) Cons.prems(2) by (auto simp: kept_def split: if_splits)
  show ?case
  proof (cases r)
    case (Inr u)
    with run Cons.IH [OF _ more inv, of errors] Cons.prems(1) show ?thesis by (simp add: x)
  next
    case (Inl e)
    show ?thesis
    proof (cases "record_error E (clk (length (sent n1))) repo resource e d1")
      case None
      with run Inl inv show ?thesis by (simp add: x)
    next
      case (Some d2)
      have "facts_inv d2" using record_error_run [OF Some] facts_inv_sync_only inv by blast
      with run Inl Some Cons.IH [OF _ more, of d2 "errors @ [resource @ '': '' @ debug_error E e]"] Cons.prems(1)
      show ?thesis by (simp add: x)
    qed
  qed
qed simp




definition demo_page :: http_response where
  "demo_page = \<lparr>hr_status = 200, hr_headers = Map.empty, hr_body = Some [1], hr_content_length = None\<rparr>"

abbreviation demo_sync :: "db \<Rightarrow> net \<Rightarrow> (unit result \<times> db \<times> net) option" where
  "demo_sync \<equiv> sync_workflow_runs demo_ext int ''api'' 1 2 ''o'' ''n'' ''main''"

lemmas sync_eval =
  sync_workflow_runs_def sync_resource_def start_url_def endpoint_def timed_def envelope_items_def page_envelope_def
  send_def envelope_of_def demo_ext_def transact_def

lemma demo_sync_fails: "demo_sync demo_repo_db \<lparr>replies = [Inl ''down''], sent = []\<rparr> =
    Some (Inl (Upstream ''down''), snd (projr (begin_resource 1 ''workflow_runs'' demo_repo_db)),
      \<lparr>replies = [], sent = [\<lparr>hq_url = ''apireposonactionsruns'', hq_if_none_match = None, hq_form = []\<rparr>]\<rparr>)"
  by (simp add: sync_eval begin_resource_def sync_row_def repository_known_def Let_def sync_pages.simps [of _ _ _ _ _ _ True]
      demo_repo_db_def empty_db_def demo_repository_def)

definition demo_interrupted :: db where
  "demo_interrupted = the (record_error demo_ext 7 1 ''workflow_runs'' (Upstream ''down'')
     (snd (projr (begin_resource 1 ''workflow_runs'' demo_repo_db))))"

lemma demo_retried: "retried demo_ext 1 ''workflow_runs'' demo_sync demo_repo_db demo_interrupted"
  by (rule retried.failed [of demo_sync, OF demo_sync_fails, of _ 7])
    (simp add: demo_interrupted_def record_error_def truncate_str_def demo_ext_def)

lemma demo_sync_succeeds:
  "\<exists>d' n'. demo_sync demo_interrupted \<lparr>replies = [Inr demo_page], sent = []\<rparr> = Some (Inr (), d', n')"
  by (simp add: sync_eval begin_resource_def sync_row_def repository_known_def Let_def sync_pages.simps [of _ _ _ _ _ _ True]
      demo_repo_db_def empty_db_def demo_repository_def demo_interrupted_def record_error_def truncate_str_def set_sync_def
      sync_key_def upsert_def merge_sync_def demo_page_def is_success_def read_json_def header_text_def
      de_GitHubRunsPage_def de_default_def store_page_def)


text \<open>
  A branch import that GitHub answers with 304 on its first page stops there: it succeeds
  after that one request and stores nothing. The entity tag is that of the first page only,
  while branches are listed by name, so a branch that changed on a later page is missed for as
  long as the first page stays the same.
\<close>

theorem not_modified_ends_sync:
  assumes "cursor_of repo ''branches'' d = None" and "repository_known repo d"
    and "start_url E base [''repos'', owner, name, ''branches''] per_page = Inr url"
    and "replies n = Inr response # rest" and "hr_status response = 304"
  shows "\<exists>d'. sync_branches E clk base repo owner name b d n =
      Some (Inr (), d', n\<lparr>replies := rest,
        sent := sent n @ [\<lparr>hq_url = url, hq_if_none_match = etag_of repo ''branches'' d, hq_form = []\<rparr>]\<rparr>) \<and> facts d' = facts d"
proof -
  obtain cursor etag d1 where begin_run: "begin_resource repo ''branches'' d = Inr ((cursor, etag), d1)"
    using assms(2) by (cases "sync_row repo ''branches'' d") (simp_all add: begin_resource_def Let_def)
  from begin_resource_run [OF this] assms(1) have "cursor = None" "etag = etag_of repo ''branches'' d" "facts d1 = facts d" by auto
  with begin_run assms(3-5) show ?thesis
    by (simp add: sync_branches_def sync_resource_def transact_def sync_pages.simps [of _ _ _ _ _ _ True] timed_def
        page_def page_envelope_def send_def envelope_of_def)
qed

theorem not_modified_ends_sync_witness:
  "\<exists>d'. sync_branches demo_ext int ''api'' 1 ''o'' ''n'' ''main'' demo_repo_db
      \<lparr>replies = [Inr (demo_page\<lparr>hr_status := 304\<rparr>)], sent = []\<rparr> =
    Some (Inr (), d', \<lparr>replies = [], sent = [\<lparr>hq_url = ''apireposonbranches'', hq_if_none_match = None, hq_form = []\<rparr>]\<rparr>) \<and>
    facts d' = facts demo_repo_db"
proof -
  have e: "etag_of 1 ''branches'' demo_repo_db = None"
    by (simp add: etag_of_def sync_row_def demo_repo_db_def empty_db_def)
  have "cursor_of 1 ''branches'' demo_repo_db = None"
    by (simp add: cursor_of_def sync_row_def demo_repo_db_def empty_db_def)
  moreover have "repository_known 1 demo_repo_db" by (simp add: repository_known_def demo_repo_db_def demo_repository_def)
  moreover have "start_url demo_ext ''api'' [''repos'', ''o'', ''n'', ''branches''] per_page = Inr ''apireposonbranches''"
    by (simp add: start_url_def endpoint_def demo_ext_def)
  ultimately show ?thesis
    using not_modified_ends_sync [of 1 demo_repo_db demo_ext "''api''" "''o''" "''n''" "''apireposonbranches''"
        "\<lparr>replies = [Inr (demo_page\<lparr>hr_status := 304\<rparr>)], sent = []\<rparr>" "demo_page\<lparr>hr_status := 304\<rparr>" "[]" int "''main''"]
    by (simp add: e [simplified])
qed

end
