(* ===== verification/Webhooks.thy ===== *)
theory Webhooks
  imports Vcs_Ingest Installations Crypto Loops
begin

text \<open>
  \<^verbatim>\<open>gateway/src/webhooks.rs\<close>: the endpoint that stores signed deliveries and the
  processor that claims, applies and settles them. The state \<open>app\<close> holds the database,
  Redis and the log captures handed to background tasks. A \<open>proc_env\<close> carries what one
  iteration of the processor meets: clocks, rows locked by other replicas, and the
  infrastructure failures that may strike at each call. Header values that are not visible
  ASCII count as absent, as \<open>HeaderValue::to_str\<close> treats them.
\<close>

section \<open>Receiving\<close>

definition DELIVERY_HEADER :: string where "DELIVERY_HEADER = ''x-github-delivery''"
definition EVENT_HEADER :: string where "EVENT_HEADER = ''x-github-event''"
definition SIGNATURE_HEADER :: string where "SIGNATURE_HEADER = ''x-hub-signature-256''"

definition MAX_ATTEMPTS :: int where
  "MAX_ATTEMPTS = 5"

type_synonym headers = "string \<rightharpoonup> string"

definition required_header :: "headers \<Rightarrow> string \<Rightarrow> string result" where
  "required_header headers name =
     (case headers name of
        Some value \<Rightarrow> if value \<noteq> [] then Inr value else Inl (BadRequest (name @ '' header is required''))
      | None \<Rightarrow> Inl (BadRequest (name @ '' header is required'')))"

definition parse_body :: "ext \<Rightarrow> u8 list \<Rightarrow> json" where
  "parse_body E body =
     (case json_from_slice E body of
        Some v \<Rightarrow> v
      | None \<Rightarrow> JObj [(''_unparseable_body_base64'', JStr (base64_encode E body))])"

definition find_repository_id :: "int option \<Rightarrow> db \<Rightarrow> uuid option" where
  "find_repository_id github_repo_id d =
     (case github_repo_id of
        None \<Rightarrow> None
      | Some g \<Rightarrow> map_option r_id (find (\<lambda>r. r_github_repo_id r = g) (repositories d)))"

definition delivery_row ::
  "timestamp \<Rightarrow> uuid \<Rightarrow> uuid \<Rightarrow> string \<Rightarrow> json \<Rightarrow> bool \<Rightarrow> db \<Rightarrow> webhook_delivery" where
  "delivery_row now i delivery_id event_type payload signature_valid d =
     (let github_repo_id = Option.bind (pointer [''repository'', ''id''] payload) as_i64
      in \<lparr>wd_id = i, wd_github_delivery_id = delivery_id, wd_event_type = event_type,
          wd_action = Option.bind (get_field ''action'' payload) as_str,
          wd_github_repo_id = github_repo_id,
          wd_repository_id = find_repository_id github_repo_id d,
          wd_signature_valid = signature_valid,
          wd_status = (if signature_valid then Received else Ignored), wd_attempts = 0,
          wd_payload = payload,
          wd_error = (if signature_valid then None else Some ''webhook signature is invalid''),
          wd_received_at = now,
          wd_processed_at = (if signature_valid then None else Some now)\<rparr>)"

definition receive ::
  "ext \<Rightarrow> timestamp \<Rightarrow> string \<Rightarrow> headers \<Rightarrow> u8 list \<Rightarrow> db \<Rightarrow> (nat \<times> json) result \<times> db" where
  "receive E now secret headers body d =
     (case required_header headers DELIVERY_HEADER of
        Inl e \<Rightarrow> (Inl e, d)
      | Inr value \<Rightarrow>
          (case parse_uuid E value of
             None \<Rightarrow> (Inl (BadRequest ''X-GitHub-Delivery must be a UUID''), d)
           | Some delivery_id \<Rightarrow>
               (case required_header headers EVENT_HEADER of
                  Inl e \<Rightarrow> (Inl e, d)
                | Inr event_type \<Rightarrow>
                    let signature = (case headers SIGNATURE_HEADER of None \<Rightarrow> [] | Some s \<Rightarrow> s);
                        signature_valid = verify_github_signature E secret body signature;
                        payload = parse_body E body;
                        row = delivery_row now (next_id d) delivery_id event_type payload
                                signature_valid d;
                        inserted = \<not> list_ex (\<lambda>w. wd_github_delivery_id w = delivery_id)
                                        (webhook_deliveries d);
                        d' = d\<lparr>next_id := Suc (next_id d),
                               webhook_deliveries :=
                                 insert_new wd_github_delivery_id row (webhook_deliveries d)\<rparr>
                    in if \<not> signature_valid then (Inl InvalidWebhookSignature, d')
                       else (Inr (if inserted then 202 else 200,
                                  JObj [(''accepted'', JBool inserted)]), d'))))"

section \<open>Claiming\<close>

record Delivery =
  dl_id :: uuid
  dl_event_type :: string
  dl_github_repo_id :: "int option"
  dl_payload :: json

definition delivery_claimable :: "uuid set \<Rightarrow> webhook_delivery \<Rightarrow> bool" where
  "delivery_claimable locked w \<longleftrightarrow>
     (wd_status w = Received \<or> wd_status w = Delivery_failed) \<and> wd_signature_valid w \<and>
     wd_attempts w < MAX_ATTEMPTS \<and> wd_id w \<notin> locked"

definition mark_processing :: "webhook_delivery \<Rightarrow> webhook_delivery" where
  "mark_processing w = w\<lparr>wd_status := Processing, wd_attempts := wd_attempts w + 1, wd_error := None\<rparr>"

definition claim_delivery :: "uuid set \<Rightarrow> db \<Rightarrow> Delivery option \<times> db" where
  "claim_delivery locked d =
     (case sort_key wd_received_at (filter (delivery_claimable locked) (webhook_deliveries d)) of
        [] \<Rightarrow> (None, d)
      | row # _ \<Rightarrow>
          (Some \<lparr>dl_id = wd_id row, dl_event_type = wd_event_type row,
                 dl_github_repo_id = wd_github_repo_id row, dl_payload = wd_payload row\<rparr>,
           d\<lparr>webhook_deliveries :=
               upd_where (\<lambda>w. wd_id w = wd_id row) mark_processing (webhook_deliveries d)\<rparr>))"

definition set_delivery :: "uuid \<Rightarrow> (webhook_delivery \<Rightarrow> webhook_delivery) \<Rightarrow> db \<Rightarrow> db" where
  "set_delivery i f d =
     d\<lparr>webhook_deliveries := upd_where (\<lambda>w. wd_id w = i) f (webhook_deliveries d)\<rparr>"

definition mark_delivery ::
  "timestamp \<Rightarrow> uuid \<Rightarrow> delivery_status \<Rightarrow> string option \<Rightarrow> db \<Rightarrow> db" where
  "mark_delivery now i status error d =
     set_delivery i (\<lambda>w. w\<lparr>wd_status := status, wd_processed_at := Some now, wd_error := error\<rparr>) d"

section \<open>Repository events\<close>

record RepoContext =
  cx_id :: uuid
  cx_organization_id :: uuid
  cx_default_branch :: string
  cx_owner_login :: string
  cx_name :: string

definition fetch_repo_context :: "int \<Rightarrow> db \<Rightarrow> RepoContext option" where
  "fetch_repo_context github_repo_id d =
     map_option (\<lambda>r. \<lparr>cx_id = r_id r, cx_organization_id = r_organization_id r,
                      cx_default_branch = r_default_branch r, cx_owner_login = r_owner_login r,
                      cx_name = r_name r\<rparr>)
       (find (\<lambda>r. r_github_repo_id r = github_repo_id \<and> r_tracking_enabled r \<and>
                  r_deleted_at r = None) (repositories d))"

record LogCapture =
  lc_repository_id :: uuid
  lc_workflow_run_id :: uuid
  lc_owner :: string
  lc_name :: string
  lc_github_run_id :: int
  lc_run_attempt :: int
  lc_executed_at :: timestamp

record Outcome =
  oc_applied :: bool
  oc_log_capture :: "LogCapture option"

definition applied_only :: "bool \<Rightarrow> Outcome" where
  "applied_only b = \<lparr>oc_applied = b, oc_log_capture = None\<rparr>"

definition logs_held :: "uuid \<Rightarrow> db \<Rightarrow> bool" where
  "logs_held run_id d \<longleftrightarrow>
     (\<exists>b\<in>set (build_logs d). bl_workflow_run_id b = run_id \<and> bl_workflow_job_id b = None)"

definition apply_workflow_run :: "ext \<Rightarrow> timestamp \<Rightarrow> timestamp \<Rightarrow> RepoContext \<Rightarrow> json \<Rightarrow> Outcome tx" where
  "apply_workflow_run E now utc context payload d =
     (case payload_field E ''workflow_run'' ''workflow_run payload is missing the run''
             (de_GitHubWorkflowRun E) payload of
        Inl e \<Rightarrow> Inl e
      | Inr run \<Rightarrow>
          let workflow = Option.bind (get_field ''workflow'' payload) de_GitHubWorkflow
          in (case ingest_workflow_run E now utc (cx_id context) (cx_organization_id context)
                     (cx_default_branch context) run workflow d of
                Inl e \<Rightarrow> Inl e
              | Inr (workflow_run_id, d') \<Rightarrow>
                  Inr (\<lparr>oc_applied = True,
                        oc_log_capture =
                          (if run_status run = ''completed'' \<and> \<not> logs_held workflow_run_id d'
                           then Some \<lparr>lc_repository_id = cx_id context,
                                      lc_workflow_run_id = workflow_run_id,
                                      lc_owner = cx_owner_login context, lc_name = cx_name context,
                                      lc_github_run_id = run_gid run,
                                      lc_run_attempt = run_attempt run,
                                      lc_executed_at =
                                        (case run_updated_at run of None \<Rightarrow> utc | Some t \<Rightarrow> t)\<rparr>
                           else None)\<rparr>, d')))"

definition apply_workflow_job :: "ext \<Rightarrow> uuid \<Rightarrow> json \<Rightarrow> bool tx" where
  "apply_workflow_job E repository_id payload d =
     (case payload_field E ''workflow_job'' ''workflow_job payload is missing the job''
             (de_GitHubJob E) payload of
        Inl e \<Rightarrow> Inl e
      | Inr job \<Rightarrow> ingest_workflow_job repository_id job d)"

definition only_applied :: "bool tx \<Rightarrow> Outcome tx" where
  "only_applied body d =
     (case body d of Inl e \<Rightarrow> Inl e | Inr (b, d') \<Rightarrow> Inr (applied_only b, d'))"

text \<open>The \<open>match\<close> on the event type, inside the transaction.\<close>

definition apply_event :: "ext \<Rightarrow> timestamp \<Rightarrow> timestamp \<Rightarrow> RepoContext \<Rightarrow> string \<Rightarrow> json \<Rightarrow> Outcome tx" where
  "apply_event E now utc context event_type payload d =
     (if event_type = ''push'' then only_applied (apply_push E now (cx_id context) payload) d
      else if event_type = ''pull_request''
      then only_applied (apply_pull_request E (cx_id context) payload) d
      else if event_type = ''pull_request_review''
      then only_applied (apply_pull_request_review E (cx_id context) payload) d
      else if event_type = ''workflow_run'' then apply_workflow_run E now utc context payload d
      else if event_type = ''workflow_job''
      then only_applied (apply_workflow_job E (cx_id context) payload) d
      else Inr (applied_only False, d))"

definition settle_delivery :: "timestamp \<Rightarrow> uuid \<Rightarrow> RepoContext \<Rightarrow> Outcome \<Rightarrow> db \<Rightarrow> db" where
  "settle_delivery now i context outcome d =
     set_delivery i
       (\<lambda>w. w\<lparr>wd_repository_id := Some (cx_id context),
              wd_status := (if oc_applied outcome then Processed else Ignored),
              wd_processed_at := Some now,
              wd_error := (if oc_applied outcome then None
                           else Some ''event type or action is not handled in Phase 4'')\<rparr>) d"

section \<open>Installation events\<close>

definition parse_installation :: "json \<Rightarrow> Installation option" where
  "parse_installation payload = do {
     installation_id \<leftarrow> Option.bind (pointer [''installation'', ''id''] payload) as_i64;
     account_login \<leftarrow> Option.bind (pointer [''installation'', ''account'', ''login''] payload) as_str;
     account_id \<leftarrow> Option.bind (pointer [''installation'', ''account'', ''id''] payload) as_i64;
     Some \<lparr>in_installation_id = installation_id, in_account_login = account_login,
           in_account_id = account_id,
           in_target_type =
             (case Option.bind (pointer [''installation'', ''target_type''] payload) as_str of
                None \<Rightarrow> ''User'' | Some s \<Rightarrow> s),
           in_repository_selection =
             (case Option.bind (pointer [''installation'', ''repository_selection''] payload) as_str of
                None \<Rightarrow> ''selected'' | Some s \<Rightarrow> s),
           in_suspended =
             (case pointer [''installation'', ''suspended_at''] payload of
                None \<Rightarrow> False | Some v \<Rightarrow> v \<noteq> JNull)\<rparr>
   }"

record app =
  app_db :: db
  app_redis :: redis
  app_spawned :: "LogCapture list"

text \<open>
  Where the infrastructure fails in one iteration: claiming, the database calls of the
  handler (which then have no effect), the acknowledgement of a commit that took effect, the
  Redis call, the statement that marks the delivery, and the statement that records a failure.
\<close>

record faults =
  fl_claim :: "AppError option"
  fl_db :: "AppError option"
  fl_commit :: "AppError option"
  fl_redis :: "AppError option"
  fl_mark :: "AppError option"
  fl_record :: "AppError option"

definition no_faults :: faults where
  "no_faults = \<lparr>fl_claim = None, fl_db = None, fl_commit = None, fl_redis = None, fl_mark = None, fl_record = None\<rparr>"

text \<open>A call under a possible fault.\<close>

definition guarded :: "AppError option \<Rightarrow> (app \<Rightarrow> app) \<Rightarrow> app \<Rightarrow> unit result \<times> app" where
  "guarded fault f a = (case fault of Some e \<Rightarrow> (Inl e, a) | None \<Rightarrow> (Inr (), f a))"

definition and_then :: "unit result \<times> app \<Rightarrow> (app \<Rightarrow> unit result \<times> app) \<Rightarrow> unit result \<times> app" where
  "and_then p k = (case p of (Inl e, a) \<Rightarrow> (Inl e, a) | (Inr _, a) \<Rightarrow> k a)"

definition on_db :: "(db \<Rightarrow> db) \<Rightarrow> app \<Rightarrow> app" where
  "on_db f a = a\<lparr>app_db := f (app_db a)\<rparr>"

definition on_redis :: "(redis \<Rightarrow> redis) \<Rightarrow> app \<Rightarrow> app" where
  "on_redis f a = a\<lparr>app_redis := f (app_redis a)\<rparr>"

definition apply_installation :: "timestamp \<Rightarrow> faults \<Rightarrow> Delivery \<Rightarrow> app \<Rightarrow> unit result \<times> app" where
  "apply_installation now fl delivery a =
     (let payload = dl_payload delivery;
          action = (case Option.bind (pointer [''action''] payload) as_str of
                      None \<Rightarrow> [] | Some s \<Rightarrow> s)
      in case Option.bind (pointer [''installation'', ''id''] payload) as_i64 of
           None \<Rightarrow>
             guarded (fl_mark fl)
               (on_db (mark_delivery now (dl_id delivery) Ignored (Some ''no installation id''))) a
         | Some i \<Rightarrow>
             and_then
               (if action = ''deleted'' then guarded (fl_db fl) (on_db (remove_installation i)) a
                else if action = ''suspend''
                then guarded (fl_db fl) (on_db (set_suspended now i True)) a
                else if action = ''unsuspend''
                then guarded (fl_db fl) (on_db (set_suspended now i False)) a
                else
                  and_then
                    (case parse_installation payload of
                       Some inst \<Rightarrow> guarded (fl_db fl) (on_db (upsert_installation now inst)) a
                     | None \<Rightarrow> (Inr (), a))
                    (guarded (fl_redis fl) (on_redis (invalidate_installation_token i))))
               (guarded (fl_mark fl) (on_db (mark_delivery now (dl_id delivery) Processed None))))"

definition removed_ids :: "json \<Rightarrow> int list" where
  "removed_ids payload =
     (case Option.bind (pointer [''repositories_removed''] payload) as_array of
        None \<Rightarrow> []
      | Some items \<Rightarrow> List.map_filter (\<lambda>repo. Option.bind (get_field ''id'' repo) as_i64) items)"

definition apply_installation_repositories ::
  "timestamp \<Rightarrow> faults \<Rightarrow> Delivery \<Rightarrow> app \<Rightarrow> unit result \<times> app" where
  "apply_installation_repositories now fl delivery a =
     (let payload = dl_payload delivery
      in and_then (guarded (fl_db fl) (on_db (untrack_repositories (removed_ids payload))) a)
           (\<lambda>a. and_then
              (case Option.bind (pointer [''installation'', ''id''] payload) as_i64 of
                 Some i \<Rightarrow> guarded (fl_redis fl) (on_redis (invalidate_installation_token i)) a
               | None \<Rightarrow> (Inr (), a))
              (guarded (fl_mark fl) (on_db (mark_delivery now (dl_id delivery) Processed None)))))"

section \<open>Applying a delivery\<close>

definition apply_repository_event ::
  "ext \<Rightarrow> timestamp \<Rightarrow> timestamp \<Rightarrow> faults \<Rightarrow> Delivery \<Rightarrow> RepoContext \<Rightarrow> app \<Rightarrow> unit result \<times> app" where
  "apply_repository_event E now utc fl delivery context a =
     (case apply_event E now utc context (dl_event_type delivery) (dl_payload delivery) (app_db a) of
        Inl e \<Rightarrow> (Inl e, a)
      | Inr (outcome, d) \<Rightarrow>
          let committed = a\<lparr>app_db := settle_delivery now (dl_id delivery) context outcome d\<rparr>
          in (case fl_commit fl of
                Some e \<Rightarrow> (Inl e, committed)
              | None \<Rightarrow>
                  (Inr (), committed\<lparr>app_spawned := app_spawned a @
                             (case oc_log_capture outcome of None \<Rightarrow> [] | Some c \<Rightarrow> [c])\<rparr>)))"

definition apply_delivery ::
  "ext \<Rightarrow> timestamp \<Rightarrow> timestamp \<Rightarrow> faults \<Rightarrow> Delivery \<Rightarrow> app \<Rightarrow> unit result \<times> app" where
  "apply_delivery E now utc fl delivery a =
     (let not_tracked = guarded (fl_mark fl)
            (on_db (mark_delivery now (dl_id delivery) Ignored (Some ''repository is not tracked''))) a
      in if dl_event_type delivery = ''installation'' then apply_installation now fl delivery a
         else if dl_event_type delivery = ''installation_repositories''
         then apply_installation_repositories now fl delivery a
         else case dl_github_repo_id delivery of
                None \<Rightarrow> not_tracked
              | Some g \<Rightarrow>
                  (case fl_db fl of
                     Some e \<Rightarrow> (Inl e, a)
                   | None \<Rightarrow>
                       (case fetch_repo_context g (app_db a) of
                          None \<Rightarrow> not_tracked
                        | Some context \<Rightarrow>
                            apply_repository_event E now utc fl delivery context a)))"

section \<open>The processor\<close>

record proc_env =
  pe_now :: timestamp
  pe_utc :: timestamp
  pe_locked :: "uuid set"
  pe_faults :: faults

datatype process_result = Ok_one bool | Err_one AppError | Panic_one

definition record_delivery_failure :: "uuid \<Rightarrow> string \<Rightarrow> db \<Rightarrow> db" where
  "record_delivery_failure i detail d =
     set_delivery i (\<lambda>w. w\<lparr>wd_status := Delivery_failed, wd_error := Some detail\<rparr>) d"

definition process_one :: "ext \<Rightarrow> proc_env \<Rightarrow> app \<Rightarrow> process_result \<times> app" where
  "process_one E env a =
     (case fl_claim (pe_faults env) of
        Some e \<Rightarrow> (Err_one e, a)
      | None \<Rightarrow>
          (case claim_delivery (pe_locked env) (app_db a) of
             (None, d) \<Rightarrow> (Ok_one False, a\<lparr>app_db := d\<rparr>)
           | (Some delivery, d) \<Rightarrow>
               (case apply_delivery E (pe_now env) (pe_utc env) (pe_faults env) delivery
                       (a\<lparr>app_db := d\<rparr>) of
                  (Inr _, a') \<Rightarrow> (Ok_one True, a')
                | (Inl process_error, a') \<Rightarrow>
                    (case truncate_str 2000 (debug_error E process_error) of
                       None \<Rightarrow> (Panic_one, a')
                     | Some detail \<Rightarrow>
                         (case fl_record (pe_faults env) of
                            Some e \<Rightarrow> (Err_one e, a')
                          | None \<Rightarrow>
                              (Ok_one True,
                               on_db (record_delivery_failure (dl_id delivery) detail) a'))))))"

text \<open>
  The inner loop of \<open>run_processor\<close>: iterations until there is nothing to claim, or an
  error or a panic ends it. \<open>delivery_work\<close> bounds their number.
\<close>

record proc_world =
  pw_app :: app
  pw_last :: process_result

definition process_step :: "ext \<Rightarrow> proc_env \<Rightarrow> proc_world \<Rightarrow> bool \<times> proc_world" where
  "process_step E env w =
     (case process_one E env (pw_app w) of
        (res, a) \<Rightarrow> (res = Ok_one True, \<lparr>pw_app = a, pw_last = res\<rparr>))"

definition delivery_work :: "db \<Rightarrow> nat" where
  "delivery_work d = sum_list (map (\<lambda>w. nat (MAX_ATTEMPTS - wd_attempts w)) (webhook_deliveries d))"

definition process_tick :: "ext \<Rightarrow> (nat \<Rightarrow> proc_env) \<Rightarrow> proc_world \<Rightarrow> proc_world" where
  "process_tick E env w =
     (case run_loop (process_step E) (Suc (delivery_work (app_db (pw_app w)))) env 0 w of
        None \<Rightarrow> w | Some w' \<Rightarrow> w')"

definition recover :: "db \<Rightarrow> db" where
  "recover d =
     d\<lparr>webhook_deliveries :=
         upd_where (\<lambda>w. wd_status w = Processing)
           (\<lambda>w. w\<lparr>wd_status := Delivery_failed,
                  wd_error := Some ''processor restarted during delivery''\<rparr>)
           (webhook_deliveries d)\<rparr>"

datatype proc_event = Proc_shutdown bool bool | Proc_tick "nat \<Rightarrow> proc_env"
datatype proc_state = Proc_running | Proc_stopped | Proc_dead

fun processor_loop :: "ext \<Rightarrow> proc_event list \<Rightarrow> proc_world \<Rightarrow> proc_state \<times> proc_world" where
  "processor_loop E [] w = (Proc_running, w)"
| "processor_loop E (Proc_shutdown is_err value # evs) w =
     (if is_err \<or> value then (Proc_stopped, w) else processor_loop E evs w)"
| "processor_loop E (Proc_tick env # evs) w =
     (let w' = process_tick E env w
      in if pw_last w' = Panic_one then (Proc_dead, w') else processor_loop E evs w')"

text \<open>\<open>recovered\<close> tells whether the recovery statement at start succeeded; a failure is only logged.\<close>

definition run_processor :: "ext \<Rightarrow> bool \<Rightarrow> proc_event list \<Rightarrow> app \<Rightarrow> proc_state \<times> proc_world" where
  "run_processor E recovered evs a =
     processor_loop E evs
       \<lparr>pw_app = (if recovered then on_db recover a else a), pw_last = Ok_one False\<rparr>"

section \<open>Frames\<close>

text \<open>The handlers of repository events touch neither the deliveries nor the build logs.\<close>

definition delivery_frame :: "db \<Rightarrow> db \<Rightarrow> bool" where
  "delivery_frame d d' \<longleftrightarrow>
     webhook_deliveries d' = webhook_deliveries d \<and> build_logs d' = build_logs d \<and> next_id d \<le> next_id d' \<and>
     repositories d' = repositories d \<and> github_installations d' = github_installations d \<and>
     organizations d' = organizations d"

lemma delivery_frame_refl: "delivery_frame d d"
  by (simp add: delivery_frame_def)

lemma delivery_frame_trans: "delivery_frame a b \<Longrightarrow> delivery_frame b c \<Longrightarrow> delivery_frame a c"
  by (auto simp: delivery_frame_def)

lemma resolve_workflow_deliveries: "resolve_workflow repo run workflow d = Inr (w, d1) \<Longrightarrow> delivery_frame d d1"
  by (auto simp: resolve_workflow_def upsert_workflow_def Let_def delivery_frame_def
      split: option.splits sum.splits if_splits)

lemma put_workflow_run_deliveries: "put_workflow_run new d = Inr (i, d1) \<Longrightarrow> delivery_frame d d1"
  by (auto simp: put_workflow_run_def Let_def delivery_frame_def split: if_splits)

lemma emit_deliveries: "delivery_frame d (emit_run_completed E now utc org repo i w run b t d)"
  by (simp add: emit_run_completed_def Let_def enqueue_def delivery_frame_def)

lemma infer_deliveries: "infer_deployment E now utc repo org i run t d = Inr (u, d1) \<Longrightarrow> delivery_frame d d1"
  by (auto simp: infer_deployment_def Let_def enqueue_def delivery_frame_def split: if_splits)

lemma ingest_run_deliveries:
  assumes "ingest_workflow_run E now utc repo org b run workflow d = Inr (i, d')"
  shows "delivery_frame d d'"
proof -
  from assms obtain w d1 d2 where
    st1: "resolve_workflow repo run workflow d = Inr (w, d1)" and
    st2: "put_workflow_run (new_run_row repo b run w d1) d1 = Inr (i, d2)" and
    st3: "if newly_completed run d1
     then (let d3 = emit_run_completed E now utc org repo i w run (is_default_run b run) (completion_time run) d2
           in if ships b run
              then infer_deployment E now utc repo org i run (completion_time run) d3 = Inr ((), d')
              else d' = d3)
     else d' = d2"
    by (rule ingest_success)
  have d2: "delivery_frame d d2"
    using resolve_workflow_deliveries [OF st1] put_workflow_run_deliveries [OF st2] by (rule delivery_frame_trans)
  with st3 show ?thesis
    by (auto simp: Let_def split: if_splits
        intro: delivery_frame_trans [OF d2] delivery_frame_trans [OF emit_deliveries] infer_deliveries emit_deliveries)
qed

lemma put_steps_deliveries: "delivery_frame d (fold (put_step k) steps d)"
proof (induction steps arbitrary: d)
  case (Cons s steps)
  have "delivery_frame d (put_step k s d)" by (simp add: put_step_def delivery_frame_def)
  from delivery_frame_trans [OF this Cons.IH] show ?case by simp
qed (simp add: delivery_frame_refl)

lemma ingest_job_deliveries:
  assumes "ingest_workflow_job repo job d = Inr (b, d')"
  shows "delivery_frame d d'"
proof -
  have "delivery_frame d (fold (put_step k) steps (d\<lparr>next_id := Suc (next_id d), workflow_jobs := js\<rparr>))" for k steps js
    by (rule delivery_frame_trans [OF _ put_steps_deliveries]) (simp add: delivery_frame_def)
  with assms show ?thesis
    by (auto simp: ingest_workflow_job_def Let_def delivery_frame_refl split: option.splits if_splits)
qed

lemma push_commits_deliveries: "upsert_push_commits repo cs d = Inr (u, d') \<Longrightarrow> delivery_frame d d'"
proof (induction cs arbitrary: d)
  case (Cons c cs)
  from Cons.prems obtain d2 where put: "upsert_push_commit repo c d = Inr ((), d2)"
    and rest: "upsert_push_commits repo cs d2 = Inr (u, d')" by (auto split: sum.splits)
  have "delivery_frame d d2"
    using put by (auto simp: upsert_push_commit_def put_commit_def delivery_frame_def split: if_splits)
  with Cons.IH [OF rest] show ?case by (rule delivery_frame_trans [rotated])
qed (simp add: delivery_frame_refl)

lemma put_branch_deliveries: "put_branch now repo push name d = Inr (u, d1) \<Longrightarrow> delivery_frame d d1"
  by (auto simp: put_branch_def delivery_frame_def split: if_splits)

lemma push_deliveries: "apply_push E now repo payload d = Inr (b, d') \<Longrightarrow> delivery_frame d d'"
  by (auto simp: apply_push_def delivery_frame_refl split: sum.splits option.splits
      dest!: push_commits_deliveries put_branch_deliveries intro: delivery_frame_trans)

lemma pull_deliveries:
  "apply_pull_request E repo payload d = Inr (b, d') \<Longrightarrow> delivery_frame d d'"
  "apply_pull_request_review E repo payload d = Inr (b, d') \<Longrightarrow> delivery_frame d d'"
  by (auto simp: apply_pull_request_def apply_pull_request_review_def upsert_pull_request_def Let_def
      delivery_frame_def split: sum.splits if_splits)

lemma only_applied_Inr: "only_applied body d = Inr (oc, d') \<longleftrightarrow> (\<exists>b. body d = Inr (b, d') \<and> oc = applied_only b)"
  by (auto simp: only_applied_def split: sum.splits)

lemma apply_event_cases:
  assumes "apply_event E now utc cx ty payload d = Inr (oc, d')"
  obtains b where "apply_push E now (cx_id cx) payload d = Inr (b, d')" "oc_log_capture oc = None"
  | b where "apply_pull_request E (cx_id cx) payload d = Inr (b, d')" "oc_log_capture oc = None"
  | b where "apply_pull_request_review E (cx_id cx) payload d = Inr (b, d')" "oc_log_capture oc = None"
  | "apply_workflow_run E now utc cx payload d = Inr (oc, d')" "ty = ''workflow_run''"
  | b where "apply_workflow_job E (cx_id cx) payload d = Inr (b, d')" "oc_log_capture oc = None"
  | "d' = d" "oc_log_capture oc = None"
  using assms by (auto simp: apply_event_def only_applied_Inr applied_only_def split: if_splits)

lemma apply_event_deliveries:
  "apply_event E now utc cx ty payload d = Inr (oc, d') \<Longrightarrow> delivery_frame d d'"
  by (erule apply_event_cases)
    (auto simp: apply_workflow_run_def apply_workflow_job_def Let_def delivery_frame_refl split: sum.splits
      dest: push_deliveries pull_deliveries ingest_run_deliveries ingest_job_deliveries)

lemma apply_event_facts:
  "facts_inv d \<Longrightarrow> apply_event E now utc cx ty payload d = Inr (oc, d') \<Longrightarrow> facts_inv d'"
  by (erule apply_event_cases)
    (auto simp: apply_workflow_run_def apply_workflow_job_def Let_def split: sum.splits
      intro: apply_push_inv apply_pull_request_inv ingest_run_facts_inv ingest_job_facts_inv)

section \<open>What one delivery can touch\<close>

text \<open>An update of a delivery that keeps its identity, its signature flag and its attempt count.\<close>

definition keeps_delivery :: "(webhook_delivery \<Rightarrow> webhook_delivery) \<Rightarrow> bool" where
  "keeps_delivery g \<longleftrightarrow>
     (\<forall>w. wd_id (g w) = wd_id w \<and> wd_github_delivery_id (g w) = wd_github_delivery_id w \<and>
          wd_signature_valid (g w) = wd_signature_valid w \<and> wd_attempts (g w) = wd_attempts w \<and>
          wd_event_type (g w) = wd_event_type w \<and> wd_payload (g w) = wd_payload w)"

definition touches :: "uuid \<Rightarrow> app \<Rightarrow> app \<Rightarrow> bool" where
  "touches k a a' \<longleftrightarrow>
     (facts_inv (app_db a) \<longrightarrow> facts_inv (app_db a')) \<and> next_id (app_db a) \<le> next_id (app_db a') \<and>
     (\<exists>g. keeps_delivery g \<and>
        webhook_deliveries (app_db a') = upd_where (\<lambda>w. wd_id w = k) g (webhook_deliveries (app_db a)))"

lemma upd_where_compose:
  assumes "\<And>w. wd_id (g w) = wd_id w"
  shows "upd_where (\<lambda>w. wd_id w = k) h (upd_where (\<lambda>w. wd_id w = k) g ws) = upd_where (\<lambda>w. wd_id w = k) (h \<circ> g) ws"
  using assms by (simp add: upd_where_def)

lemma keeps_compose: "keeps_delivery g \<Longrightarrow> keeps_delivery h \<Longrightarrow> keeps_delivery (h \<circ> g)"
  by (simp add: keeps_delivery_def)

lemma touches_refl: "touches k a a"
  unfolding touches_def by (intro conjI exI [of _ id]) (simp_all add: keeps_delivery_def upd_where_id)

lemma touches_trans:
  assumes "touches k a b" and "touches k b c"
  shows "touches k a c"
proof -
  from assms obtain g h where g: "keeps_delivery g" and h: "keeps_delivery h"
    and b: "webhook_deliveries (app_db b) = upd_where (\<lambda>w. wd_id w = k) g (webhook_deliveries (app_db a))"
    and c: "webhook_deliveries (app_db c) = upd_where (\<lambda>w. wd_id w = k) h (webhook_deliveries (app_db b))"
    by (auto simp: touches_def)
  have "webhook_deliveries (app_db c) = upd_where (\<lambda>w. wd_id w = k) (h \<circ> g) (webhook_deliveries (app_db a))"
    unfolding b c using g by (intro upd_where_compose) (simp add: keeps_delivery_def)
  with keeps_compose [OF g h] assms show ?thesis unfolding touches_def by (auto intro: order_trans)
qed

lemma touches_set: "keeps_delivery f \<Longrightarrow> touches k a (on_db (set_delivery k f) a)"
  unfolding touches_def
  by (intro conjI impI exI [of _ f])
    (auto simp: on_db_def set_delivery_def intro: facts_inv_cong)

lemma touches_mark: "touches k a (on_db (mark_delivery now k st err) a)"
proof -
  have "on_db (mark_delivery now k st err) a =
      on_db (set_delivery k (\<lambda>w. w\<lparr>wd_status := st, wd_processed_at := Some now, wd_error := err\<rparr>)) a"
    by (simp add: on_db_def mark_delivery_def)
  then show ?thesis using touches_set by (simp add: keeps_delivery_def)
qed

lemma touches_other:
  assumes "webhook_deliveries (f (app_db a)) = webhook_deliveries (app_db a)"
    and "next_id (f (app_db a)) = next_id (app_db a)"
    and "facts_inv (app_db a) \<Longrightarrow> facts_inv (f (app_db a))"
  shows "touches k a (on_db f a)"
  using assms unfolding touches_def on_db_def
  by (auto intro!: exI [of _ id] simp: keeps_delivery_def upd_where_id)

lemma r_ids_upd: "(\<And>r. r_id (f r) = r_id r) \<Longrightarrow> r_id ` set (upd_where P f rs) = r_id ` set rs"
  unfolding set_map [symmetric] by (simp add: map_upd_where del: set_map)

lemma touches_installations:
  "touches k a (on_db (remove_installation i) a)" "touches k a (on_db (set_suspended now i b) a)"
  "touches k a (on_db (upsert_installation now inst) a)" "touches k a (on_db (untrack_repositories ids) a)"
  "touches k a (on_redis h a)"
proof -
  show "touches k a (on_db (remove_installation i) a)"
    by (rule touches_other) (auto simp: remove_installation_def r_ids_upd elim!: facts_inv_cong)
  show "touches k a (on_db (set_suspended now i b) a)"
    by (rule touches_other) (auto simp: set_suspended_def elim!: facts_inv_cong)
  show "touches k a (on_db (upsert_installation now inst) a)"
    by (rule touches_other) (auto simp: upsert_installation_def elim!: facts_inv_cong)
  show "touches k a (on_db (untrack_repositories ids) a)"
    by (rule touches_other) (auto simp: untrack_repositories_def r_ids_upd elim!: facts_inv_cong)
  have "touches k a a" by (rule touches_refl)
  then show "touches k a (on_redis h a)" by (simp add: touches_def on_redis_def)
qed

lemma guarded_touches: "(\<And>a. touches k a (f a)) \<Longrightarrow> touches k a (snd (guarded fault f a))"
  by (auto simp: guarded_def touches_refl split: option.splits)

lemma and_then_touches:
  assumes "touches k a (snd p)" and "\<And>b. touches k b (snd (c b))"
  shows "touches k a (snd (and_then p c))"
  using assms touches_trans [OF assms(1) assms(2)]
  by (cases p) (auto simp: and_then_def split: sum.splits)

lemmas touch_intros = touches_refl touches_installations touches_mark and_then_touches guarded_touches

lemma apply_installation_touches: "touches (dl_id dl) a (snd (apply_installation now fl dl a))"
  by (auto simp: apply_installation_def Let_def split: option.splits intro!: touch_intros)

lemma apply_installation_repositories_touches:
  "touches (dl_id dl) a (snd (apply_installation_repositories now fl dl a))"
  by (auto simp: apply_installation_repositories_def Let_def split: option.splits intro!: touch_intros)

lemma apply_repository_event_touches:
  "touches (dl_id dl) a (snd (apply_repository_event E now utc fl dl cx a))"
proof (cases "apply_event E now utc cx (dl_event_type dl) (dl_payload dl) (app_db a)")
  case (Inl e)
  then show ?thesis by (simp add: apply_repository_event_def touches_refl)
next
  case (Inr p)
  obtain oc d where p: "p = (oc, d)" by (cases p)
  let ?b = "a\<lparr>app_db := d\<rparr>"
  have "touches (dl_id dl) a ?b"
    using apply_event_deliveries [OF Inr [unfolded p]] apply_event_facts [OF _ Inr [unfolded p]]
    by (auto simp: touches_def delivery_frame_def keeps_delivery_def upd_where_id intro!: exI [of _ id])
  moreover have "touches (dl_id dl) ?b (a\<lparr>app_db := settle_delivery now (dl_id dl) cx oc d\<rparr>)"
    using touches_set [of _ "dl_id dl" ?b]
    by (simp add: settle_delivery_def on_db_def keeps_delivery_def)
  ultimately have "touches (dl_id dl) a (a\<lparr>app_db := settle_delivery now (dl_id dl) cx oc d\<rparr>)"
    by (rule touches_trans)
  then show ?thesis
    by (auto simp: apply_repository_event_def Inr p Let_def touches_def split: option.splits)
qed

lemma apply_delivery_touches: "touches (dl_id dl) a (snd (apply_delivery E now utc fl dl a))"
  by (auto simp: apply_delivery_def Let_def split: option.splits
      intro!: touch_intros apply_installation_touches apply_installation_repositories_touches
        apply_repository_event_touches)

section \<open>One iteration of the processor\<close>

lemma claim_delivery_None:
  "fst (claim_delivery locked d) = None \<longleftrightarrow> (\<forall>w\<in>set (webhook_deliveries d). \<not> delivery_claimable locked w)"
proof -
  let ?q = "sort_key wd_received_at (filter (delivery_claimable locked) (webhook_deliveries d))"
  have "fst (claim_delivery locked d) = None \<longleftrightarrow> ?q = []"
    by (cases ?q) (simp_all add: claim_delivery_def)
  then show ?thesis by (simp add: filter_empty_conv)
qed

lemma claim_delivery_None_db: "claim_delivery locked d = (None, d') \<Longrightarrow> d' = d"
  by (auto simp: claim_delivery_def split: list.splits)

lemma claim_delivery_Some:
  assumes "claim_delivery locked d = (Some dl, d')"
  obtains row where "row \<in> set (webhook_deliveries d)" "delivery_claimable locked row" "dl_id dl = wd_id row"
    "dl_event_type dl = wd_event_type row" "dl_payload dl = wd_payload row"
    "dl_github_repo_id dl = wd_github_repo_id row"
    "\<forall>w\<in>set (webhook_deliveries d). delivery_claimable locked w \<longrightarrow> wd_received_at row \<le> wd_received_at w"
    "d' = d\<lparr>webhook_deliveries := upd_where (\<lambda>w. wd_id w = dl_id dl) mark_processing (webhook_deliveries d)\<rparr>"
proof -
  let ?q = "sort_key wd_received_at (filter (delivery_claimable locked) (webhook_deliveries d))"
  from assms obtain row rest where q: "?q = row # rest"
    and dl: "dl = \<lparr>dl_id = wd_id row, dl_event_type = wd_event_type row,
                 dl_github_repo_id = wd_github_repo_id row, dl_payload = wd_payload row\<rparr>"
    and d': "d' = d\<lparr>webhook_deliveries := upd_where (\<lambda>w. wd_id w = wd_id row) mark_processing (webhook_deliveries d)\<rparr>"
    by (auto simp: claim_delivery_def split: list.splits)
  have set: "set ?q = {w \<in> set (webhook_deliveries d). delivery_claimable locked w}" by auto
  have sorted: "sorted (map wd_received_at ?q)" by simp
  have first: "wd_received_at row \<le> wd_received_at w" if "w \<in> set ?q" for w
    using sorted that unfolding q by auto
  from set q first dl d' show ?thesis by (intro that [of row]) auto
qed

lemma process_one_effect:
  assumes "process_one E env a = (res, a')"
  shows "(a' = a \<and> res \<noteq> Ok_one True) \<or>
     (\<exists>row \<in> set (webhook_deliveries (app_db a)). \<exists>g.
        delivery_claimable (pe_locked env) row \<and> keeps_delivery g \<and>
        webhook_deliveries (app_db a') = upd_where (\<lambda>w. wd_id w = wd_id row) (g \<circ> mark_processing) (webhook_deliveries (app_db a)) \<and>
        next_id (app_db a) \<le> next_id (app_db a') \<and> (facts_inv (app_db a) \<longrightarrow> facts_inv (app_db a')))"
proof (cases "fl_claim (pe_faults env)")
  case (Some e)
  with assms show ?thesis by (auto simp: process_one_def)
next
  case None
  obtain c d where claim: "claim_delivery (pe_locked env) (app_db a) = (c, d)" by fastforce
  show ?thesis
  proof (cases c)
    case None
    with claim claim_delivery_None_db have "d = app_db a" by blast
    with assms claim None \<open>fl_claim (pe_faults env) = None\<close> show ?thesis by (auto simp: process_one_def)
  next
    case (Some dl)
    let ?b = "a\<lparr>app_db := d\<rparr>"
    obtain r a1 where run: "apply_delivery E (pe_now env) (pe_utc env) (pe_faults env) dl ?b = (r, a1)" by fastforce
    have "touches (dl_id dl) ?b a1" using apply_delivery_touches [of dl ?b E] run by (metis snd_conv)
    moreover have "touches (dl_id dl) a1 (on_db (record_delivery_failure (dl_id dl) detail) a1)" for detail
    proof -
      have "on_db (record_delivery_failure (dl_id dl) detail) a1 =
          on_db (set_delivery (dl_id dl) (\<lambda>w. w\<lparr>wd_status := Delivery_failed, wd_error := Some detail\<rparr>)) a1"
        by (simp add: on_db_def record_delivery_failure_def)
      then show ?thesis using touches_set by (simp add: keeps_delivery_def)
    qed
    ultimately have t: "touches (dl_id dl) ?b a'"
      using assms claim Some run None
      by (auto simp: process_one_def split: sum.splits option.splits intro: touches_trans)
    from claim Some obtain row where row: "row \<in> set (webhook_deliveries (app_db a))"
      "delivery_claimable (pe_locked env) row" "dl_id dl = wd_id row"
      and d: "d = (app_db a)\<lparr>webhook_deliveries := upd_where (\<lambda>w. wd_id w = dl_id dl) mark_processing (webhook_deliveries (app_db a))\<rparr>"
      by (metis claim_delivery_Some)
    from t obtain g where g: "keeps_delivery g" and ws: "webhook_deliveries (app_db a') =
        upd_where (\<lambda>w. wd_id w = wd_id row) g (upd_where (\<lambda>w. wd_id w = wd_id row) mark_processing (webhook_deliveries (app_db a)))"
      by (auto simp: touches_def d row(3))
    have "webhook_deliveries (app_db a') = upd_where (\<lambda>w. wd_id w = wd_id row) (g \<circ> mark_processing) (webhook_deliveries (app_db a))"
      unfolding ws by (rule upd_where_compose) (simp add: mark_processing_def)
    moreover have "facts_inv (app_db a) \<Longrightarrow> facts_inv d" by (auto simp: d intro: facts_inv_cong)
    ultimately show ?thesis using t row g by (auto simp: touches_def d)
  qed
qed

section \<open>Termination of a tick\<close>

lemma process_one_work:
  assumes "process_one E env a = (Ok_one True, a')"
  shows "delivery_work (app_db a') < delivery_work (app_db a)"
proof -
  from process_one_effect [OF assms] obtain row g where row: "row \<in> set (webhook_deliveries (app_db a))"
    "delivery_claimable (pe_locked env) row" and g: "keeps_delivery g"
    and ws: "webhook_deliveries (app_db a') =
      upd_where (\<lambda>w. wd_id w = wd_id row) (g \<circ> mark_processing) (webhook_deliveries (app_db a))" by auto
  let ?g = "\<lambda>w. if wd_id w = wd_id row then g (mark_processing w) else w"
  have att: "wd_attempts (g (mark_processing w)) = wd_attempts w + 1" for w
    using g by (simp add: keeps_delivery_def mark_processing_def)
  have "sum_list (map (\<lambda>w. nat (MAX_ATTEMPTS - wd_attempts (?g w))) (webhook_deliveries (app_db a))) <
      sum_list (map (\<lambda>w. nat (MAX_ATTEMPTS - wd_attempts w)) (webhook_deliveries (app_db a)))"
    by (rule sum_list_map_strict [where f = "\<lambda>w. nat (MAX_ATTEMPTS - wd_attempts w)" and g = ?g, OF _ row(1)])
      (use row(2) in \<open>auto simp: att delivery_claimable_def\<close>)
  then show ?thesis by (simp add: delivery_work_def ws upd_where_def o_def)
qed

interpretation processor: work_loop "process_step E" "\<lambda>w. delivery_work (app_db (pw_app w))" "\<lambda>_. True" for E
proof
  fix s s' :: proc_world and e :: proc_env
  assume "process_step E e s = (True, s')"
  then show "delivery_work (app_db (pw_app s')) < delivery_work (app_db (pw_app s))"
    using process_one_work by (auto simp: process_step_def split: prod.splits)
qed simp

lemma process_tick_returns:
  "run_loop (process_step E) (Suc (delivery_work (app_db (pw_app w)))) env 0 w = Some (process_tick E env w)"
  using processor.enough_fuel [of w "Suc (delivery_work (app_db (pw_app w)))" E env 0]
  by (auto simp: process_tick_def)

lemma process_step_idle:
  assumes "process_step E env w = (False, w')"
  shows "pw_last w' = Panic_one \<or> (\<exists>e. pw_last w' = Err_one e) \<or>
     (\<forall>d\<in>set (webhook_deliveries (app_db (pw_app w'))). \<not> delivery_claimable (pe_locked env) d)"
proof (cases "pw_last w'")
  case (Ok_one b)
  with assms have run: "process_one E env (pw_app w) = (Ok_one False, pw_app w')"
    by (cases b) (auto simp: process_step_def split: prod.splits)
  then have "fst (claim_delivery (pe_locked env) (app_db (pw_app w))) = None \<and> pw_app w' = pw_app w"
    by (auto simp: process_one_def split: option.splits prod.splits sum.splits dest!: claim_delivery_None_db)
  then show ?thesis using claim_delivery_None by metis
qed auto

section \<open>The deliveries as a transition system\<close>

definition delivery_ok :: "webhook_delivery \<Rightarrow> bool" where
  "delivery_ok w \<longleftrightarrow>
     0 \<le> wd_attempts w \<and> wd_attempts w \<le> MAX_ATTEMPTS \<and>
     (\<not> wd_signature_valid w \<longrightarrow> wd_status w = Ignored \<and> wd_attempts w = 0)"

definition deliveries_inv :: "db \<Rightarrow> bool" where
  "deliveries_inv d \<longleftrightarrow>
     table_ok wd_github_delivery_id wd_id (next_id d) (webhook_deliveries d) \<and>
     (\<forall>w\<in>set (webhook_deliveries d). delivery_ok w)"

definition app_inv :: "app \<Rightarrow> bool" where
  "app_inv a \<longleftrightarrow> facts_inv (app_db a) \<and> deliveries_inv (app_db a)"

text \<open>A request to the endpoint, an iteration of a processor, the start of a processor.\<close>

inductive app_step :: "ext \<Rightarrow> app \<Rightarrow> app \<Rightarrow> bool" for E where
  Receive: "app_step E a (a\<lparr>app_db := snd (receive E now secret headers body (app_db a))\<rparr>)"
| Process: "process_one E env a = (res, a') \<Longrightarrow> app_step E a a'"
| Restart: "app_step E a (on_db recover a)"

inductive app_reachable :: "ext \<Rightarrow> app \<Rightarrow> bool" for E where
  Start: "facts_inv (app_db a) \<Longrightarrow> webhook_deliveries (app_db a) = [] \<Longrightarrow> app_reachable E a"
| Step: "app_reachable E a \<Longrightarrow> app_step E a a' \<Longrightarrow> app_reachable E a'"

inductive_cases app_stepE: "app_step E a a'"

lemma receive_db:
  "snd (receive E now secret headers body d) = d \<or>
   (\<exists>row. snd (receive E now secret headers body d) =
      d\<lparr>next_id := Suc (next_id d), webhook_deliveries := insert_new wd_github_delivery_id row (webhook_deliveries d)\<rparr> \<and>
      wd_id row = next_id d \<and> wd_attempts row = 0 \<and>
      (\<not> wd_signature_valid row \<longrightarrow> wd_status row = Ignored))"
  by (auto simp: receive_def Let_def delivery_row_def split: sum.splits option.splits)

lemma receive_inv:
  assumes "app_inv a"
  shows "app_inv (a\<lparr>app_db := snd (receive E now secret headers body (app_db a))\<rparr>)"
proof -
  let ?d = "app_db a"
  from receive_db [of E now secret headers body ?d] show ?thesis
  proof (elim disjE exE conjE)
    assume "snd (receive E now secret headers body ?d) = ?d"
    with assms show ?thesis by (simp add: app_inv_def)
  next
    fix row
    assume d': "snd (receive E now secret headers body ?d) =
        ?d\<lparr>next_id := Suc (next_id ?d), webhook_deliveries := insert_new wd_github_delivery_id row (webhook_deliveries ?d)\<rparr>"
      and row: "wd_id row = next_id ?d" "wd_attempts row = 0" "\<not> wd_signature_valid row \<longrightarrow> wd_status row = Ignored"
    from row have ok: "delivery_ok row" by (simp add: delivery_ok_def MAX_ATTEMPTS_def)
    have "table_ok wd_github_delivery_id wd_id (Suc (next_id ?d)) (insert_new wd_github_delivery_id row (webhook_deliveries ?d))"
      using assms row(1) by (simp add: app_inv_def deliveries_inv_def table_ok_insert_new)
    moreover have "facts_inv (snd (receive E now secret headers body ?d))"
      using assms unfolding app_inv_def d' by (elim conjE facts_inv_cong) simp_all
    ultimately show ?thesis
      using assms ok by (auto simp: d' app_inv_def deliveries_inv_def dest: insert_new_cases)
  qed
qed

lemma process_one_inv:
  assumes inv: "app_inv a" and run: "process_one E env a = (res, a')"
  shows "app_inv a'"
  using process_one_effect [OF run]
proof (elim disjE conjE bexE exE)
  assume "a' = a"
  with inv show ?thesis by simp
next
  fix row g
  assume row: "row \<in> set (webhook_deliveries (app_db a))" "delivery_claimable (pe_locked env) row" and g: "keeps_delivery g"
    and ws: "webhook_deliveries (app_db a') =
        upd_where (\<lambda>w. wd_id w = wd_id row) (g \<circ> mark_processing) (webhook_deliveries (app_db a))"
    and le: "next_id (app_db a) \<le> next_id (app_db a')" and f: "facts_inv (app_db a) \<longrightarrow> facts_inv (app_db a')"
  have tab: "table_ok wd_github_delivery_id wd_id (next_id (app_db a)) (webhook_deliveries (app_db a))"
    using inv by (simp add: app_inv_def deliveries_inv_def)
  have only: "w = row" if "w \<in> set (webhook_deliveries (app_db a))" "wd_id w = wd_id row" for w
    using that tab row(1) by (auto simp: table_ok_def dest: distinct_key_unique)
  have "table_ok wd_github_delivery_id wd_id (next_id (app_db a')) (webhook_deliveries (app_db a'))"
    unfolding ws using g tab by (intro table_ok_mono [OF _ le] table_ok_upd)
      (auto simp: keeps_delivery_def mark_processing_def)
  moreover have "delivery_ok w" if "w \<in> set (webhook_deliveries (app_db a'))" for w
  proof -
    from that obtain w0 where w0: "w0 \<in> set (webhook_deliveries (app_db a))"
      and w: "w = (if wd_id w0 = wd_id row then g (mark_processing w0) else w0)"
      unfolding ws set_upd_where by auto
    from inv w0 have ok: "delivery_ok w0" by (simp add: app_inv_def deliveries_inv_def)
    have new: "delivery_ok (g (mark_processing row))"
      using row inv g by (auto simp: app_inv_def deliveries_inv_def delivery_ok_def delivery_claimable_def
          keeps_delivery_def mark_processing_def)
    show ?thesis using only [OF w0] ok new by (cases "wd_id w0 = wd_id row") (auto simp: w)
  qed
  ultimately show ?thesis using inv f by (simp add: app_inv_def deliveries_inv_def)
qed

lemma recover_inv: "app_inv a \<Longrightarrow> app_inv (on_db recover a)"
  unfolding app_inv_def deliveries_inv_def on_db_def recover_def
  by (auto simp: set_upd_where delivery_ok_def intro!: table_ok_upd intro: facts_inv_cong split: if_splits)

lemma app_reachable_inv: "app_reachable E a \<Longrightarrow> app_inv a"
proof (induction rule: app_reachable.induct)
  case (Start a)
  then show ?case by (simp add: app_inv_def deliveries_inv_def)
next
  case (Step a a')
  from Step.hyps(2) Step.IH show ?case
    by (cases rule: app_step.cases) (auto intro: receive_inv process_one_inv recover_inv)
qed

lemma app_steps_reachable: "(app_step E)\<^sup>*\<^sup>* a a' \<Longrightarrow> app_reachable E a \<Longrightarrow> app_reachable E a'"
  by (induction rule: rtranclp_induct) (auto intro: app_reachable.Step)

text \<open>A delivery that was stored stays stored; one with a bad signature is never touched again.\<close>

definition same_delivery :: "webhook_delivery \<Rightarrow> webhook_delivery \<Rightarrow> bool" where
  "same_delivery w w' \<longleftrightarrow>
     wd_id w' = wd_id w \<and> wd_github_delivery_id w' = wd_github_delivery_id w \<and>
     wd_payload w' = wd_payload w \<and> wd_event_type w' = wd_event_type w \<and>
     wd_signature_valid w' = wd_signature_valid w \<and> wd_attempts w \<le> wd_attempts w' \<and>
     (\<not> wd_signature_valid w \<longrightarrow> w' = w)"

lemma same_delivery_refl: "same_delivery w w"
  by (simp add: same_delivery_def)

lemma same_delivery_trans: "same_delivery a b \<Longrightarrow> same_delivery b c \<Longrightarrow> same_delivery a c"
  by (auto simp: same_delivery_def)

lemma app_step_keeps:
  assumes inv: "app_inv a" and step: "app_step E a a'" and w: "w \<in> set (webhook_deliveries (app_db a))"
  shows "\<exists>w'\<in>set (webhook_deliveries (app_db a')). same_delivery w w'"
  using step
proof (cases rule: app_step.cases)
  case (Receive now secret headers body)
  with w receive_db [of E now secret headers body "app_db a"] have "w \<in> set (webhook_deliveries (app_db a'))"
    by (auto simp: insert_new_keeps)
  then show ?thesis by (auto intro: same_delivery_refl)
next
  case (Process env res)
  from process_one_effect [OF this] show ?thesis
  proof (elim disjE conjE bexE exE)
    assume "a' = a"
    with w show ?thesis by (auto intro: same_delivery_refl)
  next
    fix row g
    assume row: "row \<in> set (webhook_deliveries (app_db a))" "delivery_claimable (pe_locked env) row" and g: "keeps_delivery g"
      and ws: "webhook_deliveries (app_db a') =
          upd_where (\<lambda>w. wd_id w = wd_id row) (g \<circ> mark_processing) (webhook_deliveries (app_db a))"
    let ?w = "if wd_id w = wd_id row then (g \<circ> mark_processing) w else w"
    have "wd_id w = wd_id row \<Longrightarrow> w = row"
      using inv w row(1) by (auto simp: app_inv_def deliveries_inv_def table_ok_def dest: distinct_key_unique)
    then have "same_delivery w ?w"
      using g row(2) by (auto simp: same_delivery_def keeps_delivery_def mark_processing_def delivery_claimable_def)
    moreover have "?w \<in> set (webhook_deliveries (app_db a'))"
      unfolding ws set_upd_where using w by (rule imageI)
    ultimately show ?thesis by blast
  qed
next
  case Restart
  let ?w = "if wd_status w = Processing then w\<lparr>wd_status := Delivery_failed,
      wd_error := Some ''processor restarted during delivery''\<rparr> else w"
  have "?w \<in> set (webhook_deliveries (app_db a'))"
    unfolding Restart using w by (auto simp: on_db_def recover_def set_upd_where image_iff)
  moreover have "same_delivery w ?w"
    using inv w by (auto simp: same_delivery_def app_inv_def deliveries_inv_def delivery_ok_def)
  ultimately show ?thesis by blast
qed

lemma app_steps_keep:
  assumes "(app_step E)\<^sup>*\<^sup>* a a'" and "app_reachable E a" and "w \<in> set (webhook_deliveries (app_db a))"
  shows "\<exists>w'\<in>set (webhook_deliveries (app_db a')). same_delivery w w'"
  using assms
proof (induction rule: rtranclp_induct)
  case base
  then show ?case by (auto intro: same_delivery_refl)
next
  case (step b c)
  then obtain w1 where "w1 \<in> set (webhook_deliveries (app_db b))" "same_delivery w w1" by blast
  with app_step_keeps [OF app_reachable_inv [OF app_steps_reachable [OF step.hyps(1) step.prems(1)]] step.hyps(2)]
  show ?case by (meson same_delivery_trans)
qed

section \<open>Properties\<close>

definition demo_signature :: string where
  "demo_signature = ''sha256='' @ replicate 64 CHR ''0''"

lemma demo_signature_valid: "verify_github_signature demo_ext ''key'' body demo_signature"
proof -
  have "hmac_sha256 demo_ext (as_bytes ''key'') body = replicate 32 0"
    by (simp add: hmac_sha256_def Let_def demo_ext_def)
  moreover have "map to_ascii_lowercase (replicate 64 CHR ''0'') = hex_lower (replicate 32 0)" by code_simp
  ultimately show ?thesis
    unfolding verify_iff [OF demo_sha256_ok] demo_signature_def by auto
qed

lemma demo_signature_invalid: "\<not> verify_github_signature demo_ext ''key'' body []"
  unfolding verify_iff [OF demo_sha256_ok] by simp

definition demo_headers :: "string \<Rightarrow> headers" where
  "demo_headers sig = [''x-github-delivery'' \<mapsto> ''uuid'', ''x-github-event'' \<mapsto> ''push'', ''x-hub-signature-256'' \<mapsto> sig]"

lemmas receive_eval = receive_def required_header_def DELIVERY_HEADER_def EVENT_HEADER_def SIGNATURE_HEADER_def
  demo_headers_def delivery_row_def parse_body_def insert_new_def find_repository_id_def Let_def

definition demo_app :: "string \<Rightarrow> app" where
  "demo_app sig =
     \<lparr>app_db = snd (receive demo_ext 0 ''key'' (demo_headers sig) [1] demo_repo_db),
      app_redis = Map.empty, app_spawned = []\<rparr>"

lemma demo_parse_uuid: "parse_uuid demo_ext ''uuid'' = Some 4"
  by (simp add: demo_ext_def)

lemma demo_app_reachable: "app_reachable demo_ext (demo_app sig)"
proof -
  let ?a = "\<lparr>app_db = demo_repo_db, app_redis = Map.empty, app_spawned = []\<rparr>"
  have "app_reachable demo_ext ?a"
    by (rule app_reachable.Start) (simp_all add: demo_facts_inv, simp add: demo_repo_db_def empty_db_def)
  from app_reachable.Step [OF this app_step.Receive [of _ _ 0 "''key''" "demo_headers sig" "[1]"]]
  show ?thesis by (simp add: demo_app_def)
qed

lemma demo_app_deliveries:
  "webhook_deliveries (app_db (demo_app sig)) =
     [delivery_row 0 10 4 ''push'' (JObj []) (verify_github_signature demo_ext ''key'' [1] sig) demo_repo_db]"
  by (simp add: demo_app_def receive_eval demo_parse_uuid)
    (simp add: demo_repo_db_def empty_db_def demo_ext_def)

lemma demo_app_shape:
  "length (webhook_deliveries (app_db (demo_app sig))) = 1"
  "wd_attempts (hd (webhook_deliveries (app_db (demo_app sig)))) = 0"
  "wd_signature_valid (hd (webhook_deliveries (app_db (demo_app sig)))) = verify_github_signature demo_ext ''key'' [1] sig"
  "wd_github_delivery_id (hd (webhook_deliveries (app_db (demo_app sig)))) = 4"
  by (simp_all add: demo_app_deliveries delivery_row_def)

text \<open>
  C4. No delivery is lost or forged: a stored delivery stays stored with its payload,
  event type and signature verdict through any sequence of requests, processor iterations
  (with any infrastructure failures and concurrent replicas) and restarts; it is attempted
  at most five times; and one whose signature was invalid stays ignored exactly as it was
  recorded, so it never reaches a handler.
\<close>

theorem deliveries_safe:
  assumes "app_reachable E a" and "(app_step E)\<^sup>*\<^sup>* a a'" and "w \<in> set (webhook_deliveries (app_db a))"
  shows "\<exists>w'\<in>set (webhook_deliveries (app_db a')). same_delivery w w' \<and>
     0 \<le> wd_attempts w' \<and> wd_attempts w' \<le> 5 \<and>
     (\<not> wd_signature_valid w \<longrightarrow> wd_status w' = Ignored \<and> wd_attempts w' = 0)"
proof -
  from app_steps_keep [OF assms(2,1,3)] obtain w' where
    w': "w' \<in> set (webhook_deliveries (app_db a'))" "same_delivery w w'" by blast
  from app_reachable_inv [OF app_steps_reachable [OF assms(2,1)]] w'(1) have "delivery_ok w'"
    by (simp add: app_inv_def deliveries_inv_def)
  with w' show ?thesis
    by (intro bexI [of _ w']) (auto simp: delivery_ok_def same_delivery_def MAX_ATTEMPTS_def)
qed

theorem deliveries_safe_witness:
  "\<exists>w'\<in>set (webhook_deliveries (app_db (on_db recover (demo_app [])))).
     same_delivery (hd (webhook_deliveries (app_db (demo_app [])))) w' \<and>
     wd_status w' = Ignored \<and> wd_attempts w' = 0"
proof -
  have "hd (webhook_deliveries (app_db (demo_app []))) \<in> set (webhook_deliveries (app_db (demo_app [])))"
    by (rule hd_in_set) (simp add: demo_app_deliveries)
  from deliveries_safe [OF demo_app_reachable r_into_rtranclp [where r = "app_step demo_ext", OF app_step.Restart] this]
  show ?thesis by (auto simp: demo_app_shape demo_signature_invalid)
qed

text \<open>
  A tick of the processor terminates: the loop over \<open>process_one\<close> ends after at most
  one iteration more than the attempts left on all deliveries, and it ends with an error, a
  panic, or no claimable delivery left.
\<close>

theorem processor_tick_terminates:
  "\<exists>w'. run_loop (process_step E) (Suc (delivery_work (app_db (pw_app w)))) env 0 w = Some w' \<and>
     w' = process_tick E env w \<and>
     (pw_last w' = Panic_one \<or> (\<exists>e. pw_last w' = Err_one e) \<or>
      (\<exists>j. \<forall>d\<in>set (webhook_deliveries (app_db (pw_app w'))). \<not> delivery_claimable (pe_locked (env j)) d))"
proof -
  note run = process_tick_returns [of E w env]
  from run_loop_final [OF run] obtain j w0 where "process_step E (env j) w0 = (False, process_tick E env w)" by blast
  from process_step_idle [OF this] run show ?thesis by blast
qed

definition demo_env :: "faults \<Rightarrow> proc_env" where
  "demo_env fl = \<lparr>pe_now = 7, pe_utc = 7, pe_locked = {}, pe_faults = fl\<rparr>"

theorem processor_tick_terminates_witness:
  "\<exists>w'. run_loop (process_step demo_ext) 6 (\<lambda>_. demo_env no_faults) 0
          \<lparr>pw_app = demo_app demo_signature, pw_last = Ok_one False\<rparr> = Some w' \<and>
     (pw_last w' = Panic_one \<or> (\<exists>e. pw_last w' = Err_one e) \<or>
      (\<exists>j::nat. \<forall>d\<in>set (webhook_deliveries (app_db (pw_app w'))). \<not> delivery_claimable {} d))"
proof -
  let ?w = "\<lparr>pw_app = demo_app demo_signature, pw_last = Ok_one False\<rparr>"
  have work: "Suc (delivery_work (app_db (pw_app ?w))) = 6"
    by (simp add: delivery_work_def demo_app_deliveries delivery_row_def MAX_ATTEMPTS_def)
  from processor_tick_terminates [of demo_ext ?w "\<lambda>_. demo_env no_faults", unfolded work]
  show ?thesis by (simp add: demo_env_def)
qed

text \<open>
  The stored facts stay well formed under the whole ingestion: from any well-formed
  database, every sequence of requests to the endpoint, processor iterations and restarts
  keeps the invariant of the fact tables and of the deliveries.
\<close>

theorem ingestion_keeps_facts:
  assumes "app_reachable E a" and "(app_step E)\<^sup>*\<^sup>* a a'"
  shows "facts_inv (app_db a') \<and> deliveries_inv (app_db a')"
  using app_reachable_inv [OF app_steps_reachable [OF assms(2,1)]] by (simp add: app_inv_def)

theorem ingestion_keeps_facts_witness: "facts_inv (app_db (demo_app [])) \<and> deliveries_inv (app_db (demo_app []))"
  by (rule ingestion_keeps_facts [OF demo_app_reachable [of "[]"]]) simp

text \<open>
  What the endpoint answers and stores, once its headers are present and the delivery
  id is a UUID: an invalid signature is answered with 401 and a new delivery is recorded as
  ignored; a valid one is answered with 202 and recorded as received when the id is new,
  and with 200 and no change of the table when it is a redelivery.
\<close>

theorem receive_behaviour:
  assumes "headers DELIVERY_HEADER = Some h1" and "h1 \<noteq> []" and "parse_uuid E h1 = Some delivery_id"
    and "headers EVENT_HEADER = Some event_type" and "event_type \<noteq> []"
    and "headers SIGNATURE_HEADER = Some signature"
    and "receive E now secret headers body d = (res, d')"
  shows "(if verify_github_signature E secret body signature
          then res = Inr (if delivery_id \<in> wd_github_delivery_id ` set (webhook_deliveries d) then 200 else 202,
                          JObj [(''accepted'', JBool (delivery_id \<notin> wd_github_delivery_id ` set (webhook_deliveries d)))])
          else res = Inl InvalidWebhookSignature \<and> fst (into_response InvalidWebhookSignature) = 401) \<and>
     (if delivery_id \<in> wd_github_delivery_id ` set (webhook_deliveries d)
      then webhook_deliveries d' = webhook_deliveries d
      else \<exists>row. webhook_deliveries d' = webhook_deliveries d @ [row] \<and>
             wd_github_delivery_id row = delivery_id \<and> wd_event_type row = event_type \<and>
             wd_payload row = parse_body E body \<and>
             wd_signature_valid row = verify_github_signature E secret body signature \<and>
             wd_status row = (if verify_github_signature E secret body signature then Received else Ignored) \<and>
             (wd_signature_valid row \<longrightarrow> delivery_claimable {} row))"
proof -
  have mem: "list_ex (\<lambda>w. wd_github_delivery_id w = delivery_id) (webhook_deliveries d) \<longleftrightarrow>
      delivery_id \<in> wd_github_delivery_id ` set (webhook_deliveries d)"
    by (auto simp: list_ex_iff)
  let ?row = "delivery_row now (next_id d) delivery_id event_type (parse_body E body)
      (verify_github_signature E secret body signature) d"
  have key: "wd_github_delivery_id ?row = delivery_id" by (simp add: delivery_row_def Let_def)
  have ins: "insert_new wd_github_delivery_id ?row (webhook_deliveries d) =
      (if delivery_id \<in> wd_github_delivery_id ` set (webhook_deliveries d) then webhook_deliveries d
       else webhook_deliveries d @ [?row])"
    by (auto simp: insert_new_def key)
  have row: "wd_event_type ?row = event_type \<and> wd_payload ?row = parse_body E body \<and>
      wd_signature_valid ?row = verify_github_signature E secret body signature \<and>
      wd_status ?row = (if verify_github_signature E secret body signature then Received else Ignored) \<and>
      (wd_signature_valid ?row \<longrightarrow> delivery_claimable {} ?row)"
    by (simp add: delivery_row_def Let_def delivery_claimable_def MAX_ATTEMPTS_def)
  have "(res, d') = (if verify_github_signature E secret body signature
      then Inr (if delivery_id \<in> wd_github_delivery_id ` set (webhook_deliveries d) then 200 else 202,
                JObj [(''accepted'', JBool (delivery_id \<notin> wd_github_delivery_id ` set (webhook_deliveries d)))])
      else Inl InvalidWebhookSignature,
      d\<lparr>next_id := Suc (next_id d), webhook_deliveries := insert_new wd_github_delivery_id ?row (webhook_deliveries d)\<rparr>)"
    using assms(1-6) unfolding assms(7) [symmetric]
    by (simp add: receive_def required_header_def Let_def mem)
  then show ?thesis using ins key row by (auto split: if_splits)
qed

theorem receive_behaviour_witness:
  "fst (receive demo_ext 0 ''key'' (demo_headers demo_signature) [1] demo_repo_db) =
     Inr (202, JObj [(''accepted'', JBool True)])"
proof -
  obtain res d' where run: "receive demo_ext 0 ''key'' (demo_headers demo_signature) [1] demo_repo_db = (res, d')"
    by fastforce
  have h: "demo_headers demo_signature DELIVERY_HEADER = Some ''uuid''"
    "demo_headers demo_signature EVENT_HEADER = Some ''push''"
    "demo_headers demo_signature SIGNATURE_HEADER = Some demo_signature"
    by (simp_all add: demo_headers_def DELIVERY_HEADER_def EVENT_HEADER_def SIGNATURE_HEADER_def)
  have "webhook_deliveries demo_repo_db = []" by (simp add: demo_repo_db_def empty_db_def)
  with receive_behaviour [OF h(1) _ demo_parse_uuid h(2) _ h(3) run] demo_signature_valid run
  show ?thesis by simp
qed

text \<open>
  C11. A delivery id first seen with an invalid signature is lost for good: a later
  redelivery under the same id with a valid signature is answered with 200 and
  \<open>accepted: false\<close>, changes nothing, and no row with that id is ever claimable.
\<close>

theorem bad_signature_blocks_redelivery:
  assumes "app_reachable E a" and "w \<in> set (webhook_deliveries (app_db a))" and "\<not> wd_signature_valid w"
    and "headers DELIVERY_HEADER = Some h1" and "h1 \<noteq> []" and "parse_uuid E h1 = Some (wd_github_delivery_id w)"
    and "headers EVENT_HEADER = Some event_type" and "event_type \<noteq> []"
    and "headers SIGNATURE_HEADER = Some signature" and "verify_github_signature E secret body signature"
  shows "fst (receive E now secret headers body (app_db a)) = Inr (200, JObj [(''accepted'', JBool False)]) \<and>
     webhook_deliveries (snd (receive E now secret headers body (app_db a))) = webhook_deliveries (app_db a) \<and>
     (\<forall>x\<in>set (webhook_deliveries (app_db a)).
        wd_github_delivery_id x = wd_github_delivery_id w \<longrightarrow> \<not> delivery_claimable locked x)"
proof -
  let ?d = "app_db a"
  have mem: "list_ex (\<lambda>x. wd_github_delivery_id x = wd_github_delivery_id w) (webhook_deliveries ?d)"
    using assms(2) by (auto simp: list_ex_iff)
  have "distinct (map wd_github_delivery_id (webhook_deliveries ?d))"
    using app_reachable_inv [OF assms(1)] by (simp add: app_inv_def deliveries_inv_def table_ok_def)
  then have "x = w" if "x \<in> set (webhook_deliveries ?d)" "wd_github_delivery_id x = wd_github_delivery_id w" for x
    using that assms(2) by (auto dest: distinct_key_unique)
  then have "\<forall>x\<in>set (webhook_deliveries ?d). wd_github_delivery_id x = wd_github_delivery_id w \<longrightarrow> \<not> delivery_claimable locked x"
    using assms(3) by (auto simp: delivery_claimable_def)
  moreover have "insert_new wd_github_delivery_id row (webhook_deliveries ?d) = webhook_deliveries ?d"
    if "wd_github_delivery_id row = wd_github_delivery_id w" for row
    by (rule insert_new_present [OF assms(2)]) (simp add: that)
  ultimately show ?thesis
    using assms(4-10) mem by (simp add: receive_def required_header_def Let_def delivery_row_def)
qed

theorem bad_signature_blocks_redelivery_witness:
  "fst (receive demo_ext 9 ''key'' (demo_headers demo_signature) [1] (app_db (demo_app []))) =
     Inr (200, JObj [(''accepted'', JBool False)])"
proof -
  let ?w = "hd (webhook_deliveries (app_db (demo_app [])))"
  have w: "?w \<in> set (webhook_deliveries (app_db (demo_app [])))"
    by (rule hd_in_set) (simp add: demo_app_deliveries)
  have h: "demo_headers demo_signature DELIVERY_HEADER = Some ''uuid''"
    "demo_headers demo_signature EVENT_HEADER = Some ''push''"
    "demo_headers demo_signature SIGNATURE_HEADER = Some demo_signature"
    by (simp_all add: demo_headers_def DELIVERY_HEADER_def EVENT_HEADER_def SIGNATURE_HEADER_def)
  have u: "parse_uuid demo_ext ''uuid'' = Some (wd_github_delivery_id ?w)"
    by (simp add: demo_app_shape demo_parse_uuid)
  show ?thesis
    using bad_signature_blocks_redelivery [OF demo_app_reachable w _ h(1) _ u h(2) _ h(3) demo_signature_valid]
    by (simp add: demo_app_shape demo_signature_invalid)
qed


definition demo_tracked_app :: app where
  "demo_tracked_app = (demo_app demo_signature)\<lparr>app_db :=
     (app_db (demo_app demo_signature))\<lparr>webhook_deliveries :=
        map (\<lambda>w. w\<lparr>wd_github_repo_id := Some 77\<rparr>) (webhook_deliveries (app_db (demo_app demo_signature)))\<rparr>\<rparr>"

definition demo_claimed :: db where
  "demo_claimed = snd (claim_delivery {} (app_db demo_tracked_app))"

lemma demo_claim:
  "claim_delivery {} (app_db demo_tracked_app) =
     (Some \<lparr>dl_id = 10, dl_event_type = ''push'', dl_github_repo_id = Some 77, dl_payload = JObj []\<rparr>, demo_claimed)"
  by (simp add: demo_claimed_def demo_tracked_app_def claim_delivery_def demo_app_deliveries delivery_row_def
      delivery_claimable_def demo_signature_valid MAX_ATTEMPTS_def)

lemma demo_claimed_context: "\<exists>cx. fetch_repo_context 77 demo_claimed = Some cx"
proof -
  have "repositories demo_claimed = [demo_repository]"
    by (simp add: demo_claimed_def demo_tracked_app_def claim_delivery_def demo_app_deliveries delivery_row_def
        delivery_claimable_def demo_signature_valid MAX_ATTEMPTS_def)
      (simp add: demo_app_def receive_eval demo_parse_uuid, simp add: demo_repo_db_def)
  then show ?thesis by (simp add: fetch_repo_context_def demo_repository_def)
qed

lemma demo_push_fails:
  "json_from_slice E = json_from_slice demo_ext \<Longrightarrow>
   apply_event E now utc cx ''push'' (JObj []) d = Inl (Internal (serde_error E (JObj [])))"
  by (simp add: apply_event_def only_applied_def apply_push_def from_value_def de_PushPayload_def de_required_def)


text \<open>
  C12. An error text with a multi-byte character across byte 2000 kills the processor: the
  truncation panics, the iteration ends without recording the failure, the delivery is left
  in \<open>processing\<close> where no replica can claim it, and only the recovery statement at the
  next start makes it claimable again.
\<close>

theorem truncation_panic_strands_delivery:
  assumes "claim_delivery (pe_locked env) (app_db a) = (Some dl, d)"
    and "pe_faults env = no_faults"
    and "dl_event_type dl \<noteq> ''installation''" and "dl_event_type dl \<noteq> ''installation_repositories''"
    and "dl_github_repo_id dl = Some g" and "fetch_repo_context g d = Some cx"
    and "apply_event E (pe_now env) (pe_utc env) cx (dl_event_type dl) (dl_payload dl) d = Inl e"
    and "\<not> is_char_boundary (debug_error E e) 2000" and "2000 < length (debug_error E e)"
  shows "process_one E env a = (Panic_one, a\<lparr>app_db := d\<rparr>) \<and>
     (\<forall>w\<in>set (webhook_deliveries d). wd_id w = dl_id dl \<longrightarrow> \<not> delivery_claimable locked w) \<and>
     (\<forall>w\<in>set (webhook_deliveries (recover d)). wd_id w = dl_id dl \<longrightarrow> wd_status w = Delivery_failed)"
proof -
  have "truncate_str 2000 (debug_error E e) = None" using assms(8,9) by (simp add: truncate_str_def slice_to_def)
  then have "process_one E env a = (Panic_one, a\<lparr>app_db := d\<rparr>)"
    using assms(1-7) by (simp add: process_one_def apply_delivery_def apply_repository_event_def no_faults_def Let_def)
  moreover from assms(1) obtain row where
    "d = (app_db a)\<lparr>webhook_deliveries := upd_where (\<lambda>w. wd_id w = dl_id dl) mark_processing (webhook_deliveries (app_db a))\<rparr>"
    by (rule claim_delivery_Some)
  then have "wd_status w = Processing" if "w \<in> set (webhook_deliveries d)" "wd_id w = dl_id dl" for w
    using that by (auto simp: set_upd_where mark_processing_def split: if_splits)
  ultimately show ?thesis
    by (auto simp: delivery_claimable_def recover_def set_upd_where split: if_splits)
qed

definition panic_ext :: ext where
  "panic_ext = demo_ext\<lparr>debug_error := \<lambda>_. replicate 1999 CHR ''a'' @ [CHR 0xC3, CHR 0xA9]\<rparr>"

theorem truncation_panic_strands_delivery_witness:
  "process_one panic_ext (demo_env no_faults) demo_tracked_app = (Panic_one, demo_tracked_app\<lparr>app_db := demo_claimed\<rparr>)"
proof -
  obtain cx where cx: "fetch_repo_context 77 demo_claimed = Some cx" using demo_claimed_context by blast
  have b: "\<not> is_char_boundary (debug_error panic_ext err) 2000" "2000 < length (debug_error panic_ext err)" for err
    by (simp_all add: panic_ext_def is_char_boundary_def nth_append is_cont_def)
  have "json_from_slice panic_ext = json_from_slice demo_ext" by (simp add: panic_ext_def)
  from truncation_panic_strands_delivery [of "demo_env no_faults" demo_tracked_app _ demo_claimed 77 cx panic_ext]
    demo_claim cx demo_push_fails [OF this] b
  show ?thesis by (simp add: demo_env_def)
qed

end
