(* ===== verification/Repositories.thy ===== *)
theory Repositories
  imports Sign_In Repository_Sync Webhooks
begin

text \<open>
  \<^verbatim>\<open>gateway/src/routes/repositories.rs\<close>: which repositories a workspace's installation can
  see, the recovery of a missed installation link, and switching tracking on and off. A handler
  is a function of the database, Redis and the network; \<open>None\<close> is a handler that waits for
  GitHub. The trigger-maintained \<open>updated_at\<close> of the answers is not modelled.
\<close>

section \<open>Answers\<close>

record RepositoryResponse =
  rr_id :: uuid
  rr_organization_id :: uuid
  rr_github_repo_id :: int
  rr_owner_login :: string
  rr_name :: string
  rr_description :: "string option"
  rr_default_branch :: string
  rr_is_private :: bool
  rr_is_archived :: bool
  rr_is_fork :: bool
  rr_primary_language :: "string option"
  rr_html_url :: "string option"
  rr_tracking_enabled :: bool
  rr_github_created_at :: "timestamp option"
  rr_github_pushed_at :: "timestamp option"
  rr_created_at :: timestamp

definition repository_from_row :: "repository \<Rightarrow> RepositoryResponse" where
  "repository_from_row r =
     \<lparr>rr_id = r_id r, rr_organization_id = r_organization_id r, rr_github_repo_id = r_github_repo_id r,
      rr_owner_login = r_owner_login r, rr_name = r_name r, rr_description = r_description r,
      rr_default_branch = r_default_branch r, rr_is_private = r_is_private r, rr_is_archived = r_is_archived r,
      rr_is_fork = r_is_fork r, rr_primary_language = r_primary_language r, rr_html_url = r_html_url r,
      rr_tracking_enabled = r_tracking_enabled r, rr_github_created_at = r_github_created_at r,
      rr_github_pushed_at = r_github_pushed_at r, rr_created_at = r_created_at r\<rparr>"

record TrackingSummary =
  tk_repository_id :: uuid
  tk_organization_id :: uuid
  tk_tracking_enabled :: bool

record DiscoveredRepository =
  dr_github :: GitHubRepository
  dr_tracking :: "TrackingSummary option"

record DiscoverResponse =
  ds_installed :: bool
  ds_install_url :: string
  ds_repositories :: "DiscoveredRepository list"

record TrackingResponse =
  tg_repository :: RepositoryResponse
  tg_sync_status :: string

section \<open>Discovery\<close>

definition install_url :: "site \<Rightarrow> string" where
  "install_url site = ''https://github.com/apps/'' @ st_app_slug site @ ''/installations/new''"

definition caller_single_installation :: "ext \<Rightarrow> site \<Rightarrow> uuid \<Rightarrow> db \<Rightarrow> int option api" where
  "caller_single_installation E site user_id d n =
     (case user_access_token (st_cipher site) user_id d of
        Inl _ \<Rightarrow> Some (Inr None, n)
      | Inr _ \<Rightarrow>
          map_option (\<lambda>(res, n'). case res of
               Inr [installation_id] \<Rightarrow> (Inr (Some installation_id), n')
             | _ \<Rightarrow> (Inr None, n'))
            (user_installation_ids E n))"

abbreviation site_jwt :: "site \<Rightarrow> timestamp \<Rightarrow> string result" where
  "site_jwt site now \<equiv> app_jwt (st_sign site) (st_app_id site) now"

definition reconcile_installation ::
  "ext \<Rightarrow> site \<Rightarrow> timestamp \<Rightarrow> uuid \<Rightarrow> uuid \<Rightarrow> db \<Rightarrow> redis \<Rightarrow> net
     \<Rightarrow> (string option result \<times> db \<times> redis \<times> net) option" where
  "reconcile_installation E site now user_id organization_id d r n =
     (case caller_single_installation E site user_id d n of
        None \<Rightarrow> None
      | Some (Inl e, n1) \<Rightarrow> Some (Inl e, d, r, n1)
      | Some (Inr None, n1) \<Rightarrow> Some (Inr None, d, r, n1)
      | Some (Inr (Some installation_id), n1) \<Rightarrow>
          (case fetch_installation E (site_jwt site now) (st_api_base site) installation_id n1 of
             None \<Rightarrow> None
           | Some (Inl e, n2) \<Rightarrow> Some (Inl e, d, r, n2)
           | Some (Inr installation, n2) \<Rightarrow>
               (case transact (link_to_personal_organization user_id installation_id)
                       (upsert_installation now installation d) of
                  (Inl e, d1) \<Rightarrow> Some (Inl e, d1, r, n2)
                | (Inr _, d1) \<Rightarrow>
                    map_option (\<lambda>(res, r', n3). (res, d1, r', n3))
                      (workspace_token E now (site_jwt site now) (st_api_base site) organization_id d1 r n2))))"

text \<open>The tracked repositories of a workspace by GitHub id, collected into a map.\<close>

definition tracked_map :: "uuid \<Rightarrow> db \<Rightarrow> int \<rightharpoonup> TrackingSummary" where
  "tracked_map organization_id d =
     map_of (rev (map (\<lambda>x. (r_github_repo_id x,
         \<lparr>tk_repository_id = r_id x, tk_organization_id = r_organization_id x,
          tk_tracking_enabled = r_tracking_enabled x\<rparr>))
       (filter (\<lambda>x. r_organization_id x = organization_id \<and> r_deleted_at x = None) (repositories d))))"

definition list_discovered ::
  "ext \<Rightarrow> site \<Rightarrow> timestamp \<Rightarrow> uuid \<Rightarrow> db \<Rightarrow> redis \<Rightarrow> net \<Rightarrow> (DiscoverResponse result \<times> db \<times> redis \<times> net) option" where
  "list_discovered E site now organization_id d r n =
     map_option (\<lambda>(res, n'). (map_sum id (\<lambda>repos.
         \<lparr>ds_installed = True, ds_install_url = install_url site,
          ds_repositories = map (\<lambda>x. \<lparr>dr_github = x, dr_tracking = tracked_map organization_id d (gr_id x)\<rparr>) repos\<rparr>) res,
         d, r, n'))
       (installation_repositories E now (st_api_base site) n)"

definition discover ::
  "ext \<Rightarrow> site \<Rightarrow> timestamp \<Rightarrow> Principal \<Rightarrow> uuid \<Rightarrow> db \<Rightarrow> redis \<Rightarrow> net
     \<Rightarrow> (DiscoverResponse result \<times> db \<times> redis \<times> net) option" where
  "discover E site now p organization_id d r n =
     (case require_session p of Inl e \<Rightarrow> Some (Inl e, d, r, n) | Inr _ \<Rightarrow>
      (case require_organization_role p organization_id Viewer d of Inl e \<Rightarrow> Some (Inl e, d, r, n) | Inr _ \<Rightarrow>
       (case workspace_token_fresh E now (site_jwt site now) (st_api_base site) organization_id d r n of
          None \<Rightarrow> None
        | Some (Inl e, r1, n1) \<Rightarrow> Some (Inl e, d, r1, n1)
        | Some (Inr (Some token), r1, n1) \<Rightarrow> list_discovered E site now organization_id d r1 n1
        | Some (Inr None, r1, n1) \<Rightarrow>
            (case reconcile_installation E site now (p_user_id p) organization_id d r1 n1 of
               None \<Rightarrow> None
             | Some (Inl e, d2, r2, n2) \<Rightarrow> Some (Inl e, d2, r2, n2)
             | Some (Inr (Some token), d2, r2, n2) \<Rightarrow> list_discovered E site now organization_id d2 r2 n2
             | Some (Inr None, d2, r2, n2) \<Rightarrow>
                 Some (Inr \<lparr>ds_installed = False, ds_install_url = install_url site, ds_repositories = []\<rparr>, d2, r2, n2)))))"

section \<open>The list\<close>

definition repository_le :: "ext \<Rightarrow> RepositoryResponse \<Rightarrow> RepositoryResponse \<Rightarrow> bool" where
  "repository_le E a b \<longleftrightarrow>
     (if text_le E (rr_owner_login a) (rr_owner_login b) \<and> text_le E (rr_owner_login b) (rr_owner_login a)
      then text_le E (rr_name a) (rr_name b)
      else text_le E (rr_owner_login a) (rr_owner_login b))"

definition list_repositories :: "ext \<Rightarrow> Principal \<Rightarrow> uuid \<Rightarrow> db \<Rightarrow> RepositoryResponse list result" where
  "list_repositories E p organization_id d =
     map_sum id (\<lambda>_. order_by (repository_le E) (map repository_from_row
         (filter (\<lambda>x. r_organization_id x = organization_id \<and> r_deleted_at x = None) (repositories d))))
       (require_organization_role p organization_id Viewer d)"

section \<open>Tracking\<close>

definition repository_row :: "timestamp \<Rightarrow> uuid \<Rightarrow> uuid \<Rightarrow> GitHubRepository \<Rightarrow> repository" where
  "repository_row now i organization_id x =
     \<lparr>r_id = i, r_organization_id = organization_id, r_github_repo_id = gr_id x,
      r_owner_login = us_login (gr_owner x), r_name = gr_name x, r_default_branch = gr_default_branch x,
      r_tracking_enabled = True, r_deleted_at = None, r_description = gr_description x,
      r_is_private = gr_is_private x, r_is_archived = gr_archived x, r_is_fork = gr_fork x,
      r_primary_language = gr_language x, r_html_url = Some (gr_html_url x),
      r_github_created_at = gr_created_at x, r_github_pushed_at = gr_pushed_at x, r_created_at = now\<rparr>"

definition merge_repository :: "repository \<Rightarrow> repository \<Rightarrow> repository" where
  "merge_repository new old =
     old\<lparr>r_owner_login := r_owner_login new, r_name := r_name new, r_description := r_description new,
         r_default_branch := r_default_branch new, r_is_private := r_is_private new,
         r_is_archived := r_is_archived new, r_is_fork := r_is_fork new,
         r_primary_language := r_primary_language new, r_html_url := r_html_url new,
         r_tracking_enabled := True, r_github_created_at := r_github_created_at new,
         r_github_pushed_at := r_github_pushed_at new, r_deleted_at := None\<rparr>"

text \<open>\<open>None\<close>: the conflicting row belongs to another workspace, nothing is returned.\<close>

definition put_repository :: "timestamp \<Rightarrow> uuid \<Rightarrow> GitHubRepository \<Rightarrow> repository option tx" where
  "put_repository now organization_id x d =
     (let new = repository_row now (next_id d) organization_id x
      in if organization_id \<notin> set (map o_id (organizations d))
         then Inl (Internal ''repositories_organization_id_fkey'')
         else case find (\<lambda>y. r_github_repo_id y = gr_id x) (repositories d) of
           None \<Rightarrow> Inr (Some new, d\<lparr>next_id := Suc (next_id d), repositories := repositories d @ [new]\<rparr>)
         | Some old \<Rightarrow>
             if r_organization_id old = organization_id
             then Inr (Some (merge_repository new old),
                       d\<lparr>next_id := Suc (next_id d),
                         repositories := upd_where (\<lambda>y. r_github_repo_id y = gr_id x) (merge_repository new) (repositories d)\<rparr>)
             else Inr (None, d\<lparr>next_id := Suc (next_id d)\<rparr>))"

definition existing_organization :: "int \<Rightarrow> db \<Rightarrow> uuid option" where
  "existing_organization github_repo_id d =
     map_option r_organization_id
       (find (\<lambda>y. r_github_repo_id y = github_repo_id \<and> r_deleted_at y = None) (repositories d))"

definition enable_tracking_tx ::
  "timestamp \<Rightarrow> Principal \<Rightarrow> AuditContext \<Rightarrow> uuid \<Rightarrow> GitHubRepository \<Rightarrow> (nat \<times> TrackingResponse) tx" where
  "enable_tracking_tx now p context organization_id x d =
     (case put_repository now organization_id x d of
        Inl e \<Rightarrow> Inl e
      | Inr (None, d1) \<Rightarrow>
          Inl (Conflict ''this GitHub repository was assigned to another organization concurrently'')
      | Inr (Some row, d1) \<Rightarrow>
          (case write_audit p context (Some organization_id) ''repository.tracking_enabled'' (Some ''repository'')
                  (Some (r_id row))
                  (JObj [(''github_repo_id'', JInt (gr_id x)), (''full_name'', JStr (gr_full_name x))]) d1 of
             Inl e \<Rightarrow> Inl e
           | Inr (_, d2) \<Rightarrow>
               Inr ((202, \<lparr>tg_repository = repository_from_row row, tg_sync_status = ''queued''\<rparr>), d2)))"

text \<open>On success the handler spawns \<open>sync_repository\<close> for the returned repository.\<close>

definition enable_tracking ::
  "ext \<Rightarrow> site \<Rightarrow> timestamp \<Rightarrow> Principal \<Rightarrow> AuditContext \<Rightarrow> uuid \<Rightarrow> int \<Rightarrow> db \<Rightarrow> redis \<Rightarrow> net
     \<Rightarrow> ((nat \<times> TrackingResponse) result \<times> db \<times> redis \<times> net) option" where
  "enable_tracking E site now p context organization_id github_repository_id d r n =
     (case require_session p of Inl e \<Rightarrow> Some (Inl e, d, r, n) | Inr _ \<Rightarrow>
      (case require_organization_role p organization_id Admin d of Inl e \<Rightarrow> Some (Inl e, d, r, n) | Inr _ \<Rightarrow>
       (case workspace_token_fresh E now (site_jwt site now) (st_api_base site) organization_id d r n of
          None \<Rightarrow> None
        | Some (Inl e, r1, n1) \<Rightarrow> Some (Inl e, d, r1, n1)
        | Some (Inr None, r1, n1) \<Rightarrow>
            Some (Inl (BadRequest ''install the BuildLens GitHub App on this workspace before tracking repositories''), d, r1, n1)
        | Some (Inr (Some token), r1, n1) \<Rightarrow>
            (case repository_opt E now (st_api_base site) github_repository_id n1 of
               None \<Rightarrow> None
             | Some (Inl e, n2) \<Rightarrow> Some (Inl e, d, r1, n2)
             | Some (Inr None, n2) \<Rightarrow>
                 Some (Inl (BadRequest ''this repository is not part of your BuildLens installation; add it to the app on GitHub first''), d, r1, n2)
             | Some (Inr (Some x), n2) \<Rightarrow>
                 if (case existing_organization (gr_id x) d of None \<Rightarrow> False | Some existing \<Rightarrow> existing \<noteq> organization_id)
                 then Some (Inl (Conflict ''this GitHub repository is already assigned to another BuildLens organization''), d, r1, n2)
                 else (case transact (enable_tracking_tx now p context organization_id x) d of
                         (res, d') \<Rightarrow> Some (res, d', r1, n2))))))"

definition disable_tracking_tx :: "Principal \<Rightarrow> AuditContext \<Rightarrow> uuid \<Rightarrow> repository \<Rightarrow> nat tx" where
  "disable_tracking_tx p context organization_id row d =
     (if \<not> list_ex (\<lambda>y. r_id y = r_id row \<and> r_organization_id y = organization_id \<and> r_tracking_enabled y) (repositories d)
      then Inl NotFound
      else
        let d1 = d\<lparr>repositories :=
              upd_where (\<lambda>y. r_id y = r_id row \<and> r_organization_id y = organization_id \<and> r_tracking_enabled y)
                (\<lambda>y. y\<lparr>r_tracking_enabled := False\<rparr>) (repositories d)\<rparr>
        in (case write_audit p context (Some organization_id) ''repository.tracking_disabled'' (Some ''repository'')
                   (Some (r_id row)) (JObj [(''full_name'', JStr (r_owner_login row @ ''/'' @ r_name row))]) d1 of
              Inl e \<Rightarrow> Inl e
            | Inr (_, d2) \<Rightarrow> Inr (204, d2)))"

definition disable_tracking ::
  "Principal \<Rightarrow> AuditContext \<Rightarrow> uuid \<Rightarrow> uuid \<Rightarrow> db \<Rightarrow> nat result \<times> db" where
  "disable_tracking p context organization_id repository_id d =
     (case require_session p of Inl e \<Rightarrow> (Inl e, d) | Inr _ \<Rightarrow>
      (case require_organization_role p organization_id Admin d of Inl e \<Rightarrow> (Inl e, d) | Inr _ \<Rightarrow>
       (case find (\<lambda>y. r_id y = repository_id \<and> r_organization_id y = organization_id \<and> r_deleted_at y = None)
               (repositories d) of
          None \<Rightarrow> (Inl NotFound, d)
        | Some row \<Rightarrow> transact (disable_tracking_tx p context organization_id row) d)))"

section \<open>What tracking means\<close>

text \<open>
  The abstraction: for each GitHub repository the row that stands for it, the workspace that
  owns it, and whether deliveries for it are stored. Enabling and disabling are updates of this
  map at one key.
\<close>

definition tracking :: "db \<Rightarrow> int \<rightharpoonup> uuid \<times> uuid \<times> bool" where
  "tracking d g = map_option (\<lambda>r. (r_id r, r_organization_id r, r_tracking_enabled r \<and> r_deleted_at r = None))
     (find (\<lambda>r. r_github_repo_id r = g) (repositories d))"

definition repositories_inv :: "db \<Rightarrow> bool" where
  "repositories_inv d \<longleftrightarrow> table_ok r_github_repo_id r_id (next_id d) (repositories d)"

lemma tracking_cong: "repositories d' = repositories d \<Longrightarrow> tracking d' = tracking d"
  by (simp add: tracking_def [abs_def])

lemma repositories_inv_cong:
  "repositories_inv d \<Longrightarrow> repositories d' = repositories d \<Longrightarrow> next_id d \<le> next_id d' \<Longrightarrow> repositories_inv d'"
  by (auto simp: repositories_inv_def intro: table_ok_mono)

lemma tracking_row:
  assumes "repositories_inv d" and "r \<in> set (repositories d)"
  shows "tracking d (r_github_repo_id r) = Some (r_id r, r_organization_id r, r_tracking_enabled r \<and> r_deleted_at r = None)"
  using assms find_key_eq [of r_github_repo_id "repositories d" r] by (simp add: tracking_def repositories_inv_def table_ok_def)

lemma context_tracking:
  assumes "repositories_inv d"
  shows "fetch_repo_context g d = None \<longleftrightarrow> (\<nexists>i org. tracking d g = Some (i, org, True))"
proof -
  have "tracking d g = Some (i, org, True) \<longleftrightarrow>
      (\<exists>r\<in>set (repositories d). r_github_repo_id r = g \<and> r_id r = i \<and> r_organization_id r = org \<and>
         r_tracking_enabled r \<and> r_deleted_at r = None)" (is "?l \<longleftrightarrow> ?r") for i org
  proof
    show "?l \<Longrightarrow> ?r" by (auto simp: tracking_def dest!: find_SomeD)
    show "?r \<Longrightarrow> ?l" using tracking_row [OF assms] by fastforce
  qed
  then show ?thesis by (auto simp: fetch_repo_context_def find_None_iff_all)
qed

text \<open>An update of one row that keeps its keys is an update of the map.\<close>

lemma tracking_upd:
  assumes "repositories_inv d" and "row \<in> set (repositories d)" and "Q row" and "\<And>r. Q r \<Longrightarrow> r \<in> set (repositories d) \<Longrightarrow> r = row"
    and "r_github_repo_id (f row) = r_github_repo_id row" "r_id (f row) = r_id row"
    and "repositories d' = upd_where Q f (repositories d)" and "next_id d \<le> next_id d'"
  shows "repositories_inv d'"
    and "tracking d' = (tracking d)(r_github_repo_id row \<mapsto>
       (r_id row, r_organization_id (f row), r_tracking_enabled (f row) \<and> r_deleted_at (f row) = None))"
proof -
  let ?g = "\<lambda>r. if r = row then f row else r"
  have rows: "repositories d' = map ?g (repositories d)"
    unfolding assms(7) upd_where_def using assms(3,4) by (auto intro!: map_cong)
  have keys: "r_github_repo_id (?g r) = r_github_repo_id r" "r_id (?g r) = r_id r" for r
    using assms(5,6) by auto
  have maps: "map r_github_repo_id (repositories d') = map r_github_repo_id (repositories d)"
    "map r_id (repositories d') = map r_id (repositories d)"
    unfolding rows map_map comp_def keys by (rule refl)+
  have bound: "r_id ` set (repositories d') = r_id ` set (repositories d)" using arg_cong [OF maps(2), of set] by simp
  show inv: "repositories_inv d'"
    using assms(1,8) bound unfolding repositories_inv_def table_ok_def maps
    by (metis (no_types, lifting) imageE imageI order_less_le_trans)
  have "tracking d' g = map_option (\<lambda>r. (r_id r, r_organization_id (?g r), r_tracking_enabled (?g r) \<and> r_deleted_at (?g r) = None))
      (find (\<lambda>r. r_github_repo_id r = g) (repositories d))" for g
    unfolding tracking_def rows find_map_cong_key [of "\<lambda>r. r_github_repo_id r = g" ?g, simplified keys, OF refl]
    by (simp add: option.map_comp comp_def keys)
  moreover have "find (\<lambda>r. r_github_repo_id r = r_github_repo_id row) (repositories d) = Some row"
    using assms(1,2) find_key_eq [of r_github_repo_id "repositories d" row] by (simp add: repositories_inv_def table_ok_def)
  ultimately show "tracking d' = (tracking d)(r_github_repo_id row \<mapsto>
       (r_id row, r_organization_id (f row), r_tracking_enabled (f row) \<and> r_deleted_at (f row) = None))"
    by (auto simp: fun_eq_iff tracking_def dest!: find_SomeD intro!: option.map_cong split: if_splits)
qed

lemma put_repository_tracking:
  assumes inv: "repositories_inv d" and put: "put_repository now org x d = Inr (Some row, d1)"
  shows "repositories_inv d1 \<and> tracking d1 = (tracking d)(gr_id x \<mapsto> (r_id row, org, True)) \<and>
    (case tracking d (gr_id x) of None \<Rightarrow> r_id row = next_id d
     | Some (i, owner, _) \<Rightarrow> i = r_id row \<and> owner = org)"
proof (cases "find (\<lambda>y. r_github_repo_id y = gr_id x) (repositories d)")
  case None
  then have fresh: "gr_id x \<notin> r_github_repo_id ` set (repositories d)" by (auto simp: find_None_iff_all)
  from None put have row: "row = repository_row now (next_id d) org x"
    and d1: "d1 = d\<lparr>next_id := Suc (next_id d), repositories := repositories d @ [row]\<rparr>"
    by (auto simp: put_repository_def Let_def split: if_splits)
  have "repositories_inv d1"
    using table_ok_insert [OF inv [unfolded repositories_inv_def], of row] fresh
    by (simp add: repositories_inv_def d1 row repository_row_def)
  moreover have "tracking d1 = (tracking d)(gr_id x \<mapsto> (r_id row, org, True))"
    using None by (auto simp: fun_eq_iff tracking_def d1 row repository_row_def find_append split: option.splits)
  moreover have "tracking d (gr_id x) = None" using None by (simp add: tracking_def)
  ultimately show ?thesis using row by (simp add: repository_row_def)
next
  case (Some old)
  let ?f = "merge_repository (repository_row now (next_id d) org x)"
  from Some put have own: "r_organization_id old = org" and row: "row = ?f old"
    and d1: "d1 = d\<lparr>next_id := Suc (next_id d),
       repositories := upd_where (\<lambda>y. r_github_repo_id y = gr_id x) ?f (repositories d)\<rparr>"
    by (auto simp: put_repository_def Let_def split: if_splits)
  from Some have old: "r_github_repo_id old = gr_id x" "old \<in> set (repositories d)" by (auto dest: find_SomeD)
  have uniq: "r = old" if "r_github_repo_id r = gr_id x" "r \<in> set (repositories d)" for r
    using that old inv distinct_key_unique [of r_github_repo_id "repositories d" r old]
    by (simp add: repositories_inv_def table_ok_def)
  note upd = tracking_upd [of d old "\<lambda>y. r_github_repo_id y = gr_id x" ?f d1, OF inv old(2) old(1) uniq]
  have "repositories_inv d1" by (rule upd(1)) (simp_all add: d1 merge_repository_def)
  moreover have "tracking d1 = (tracking d)(r_github_repo_id old \<mapsto>
      (r_id old, r_organization_id (?f old), r_tracking_enabled (?f old) \<and> r_deleted_at (?f old) = None))"
    by (rule upd(2)) (simp_all add: d1 merge_repository_def)
  moreover have "tracking d (gr_id x) = Some (r_id old, org, r_tracking_enabled old \<and> r_deleted_at old = None)"
    using tracking_row [OF inv old(2)] own old(1) by simp
  ultimately show ?thesis using row own old(1) by (simp add: merge_repository_def)
qed

lemma audit_keeps_tracking:
  assumes "write_audit p context org action ty i metadata d = Inr (u, d')" and "repositories_inv d"
  shows "repositories_inv d'" and "tracking d' = tracking d" and "fetch_repo_context g d' = fetch_repo_context g d"
  using write_audit_frame [OF assms(1)] assms(2)
  by (auto intro: repositories_inv_cong intro!: tracking_cong simp: fetch_repo_context_def)

lemma put_repository_row: "put_repository now org x d = Inr (Some row, d1) \<Longrightarrow> r_tracking_enabled row \<and> r_github_repo_id row = gr_id x"
  by (auto simp: put_repository_def Let_def repository_row_def merge_repository_def split: if_splits option.splits
      dest!: find_SomeD)

lemma enable_tracking_tx_tracking:
  assumes inv: "repositories_inv d" and run: "enable_tracking_tx now p context org x d = Inr ((status, tr), d')"
  shows "repositories_inv d' \<and> tracking d' = (tracking d)(gr_id x \<mapsto> (rr_id (tg_repository tr), org, True)) \<and>
    (case tracking d (gr_id x) of None \<Rightarrow> rr_id (tg_repository tr) = next_id d
     | Some (i, owner, _) \<Rightarrow> i = rr_id (tg_repository tr) \<and> owner = org)"
proof -
  from run obtain row d1 a b c e f where put: "put_repository now org x d = Inr (Some row, d1)"
    and audit: "write_audit p context a b c e f d1 = Inr ((), d')"
    and tr: "tr = \<lparr>tg_repository = repository_from_row row, tg_sync_status = ''queued''\<rparr>"
    by (auto simp: enable_tracking_tx_def split: sum.splits option.splits prod.splits)
  from put_repository_tracking [OF inv put] audit_keeps_tracking [OF audit] tr show ?thesis
    by (simp add: repository_from_row_def split: option.splits prod.splits)
qed

text \<open>
  C27. Enabling tracking is one update of the tracking map, and it never moves a repository
  between workspaces. A request either leaves the database as it was, or it came from a browser
  session of an administrator of the workspace, GitHub returned the repository through the
  workspace's own installation, and afterwards that GitHub repository, and no other, is tracked
  by this workspace: under the id it already had if the workspace knew it (also when it had been
  deleted), under a fresh id if nobody knew it, and never if another workspace holds it.
\<close>

theorem enable_tracking_updates_map:
  assumes "repositories_inv d" and "enable_tracking E site now p context org github_id d r n = Some (res, d', r', n')"
  shows "repositories_inv d' \<and> (\<forall>e. res = Inl e \<longrightarrow> d' = d) \<and>
    (\<forall>status tr. res = Inr (status, tr) \<longrightarrow>
       require_session p = Inr () \<and> (\<exists>role. require_organization_role p org Admin d = Inr role) \<and>
       (\<exists>i token n1 x. organization_installation_id org d = Some i \<and>
          mint_installation_token E (site_jwt site now) (st_api_base site) i n = Some (Inr token, n1) \<and>
          repository_opt E now (st_api_base site) github_id n1 = Some (Inr (Some x), n') \<and>
          tracking d' = (tracking d)(gr_id x \<mapsto> (rr_id (tg_repository tr), org, True)) \<and>
          (case tracking d (gr_id x) of None \<Rightarrow> rr_id (tg_repository tr) = next_id d
           | Some (i, owner, _) \<Rightarrow> i = rr_id (tg_repository tr) \<and> owner = org)))"
proof (cases "\<exists>e. res = Inl e")
  case True
  with assms(2) have "d' = d"
    by (auto simp: enable_tracking_def split: sum.splits option.splits prod.splits if_splits dest: transact_error)
  with True assms(1) show ?thesis by auto
next
  case False
  then obtain status tr where res: "res = Inr (status, tr)" by (cases res) auto
  from assms(2) res obtain u role where guard: "require_session p = Inr u" "require_organization_role p org Admin d = Inr role"
    by (auto simp: enable_tracking_def split: sum.splits)
  from assms(2) guard obtain token r1 n1 where
    token: "workspace_token_fresh E now (site_jwt site now) (st_api_base site) org d r n = Some (Inr (Some token), r1, n1)"
    unfolding res by (auto simp: enable_tracking_def split: sum.splits option.splits prod.splits)
  from assms(2) guard token obtain x where x: "repository_opt E now (st_api_base site) github_id n1 = Some (Inr (Some x), n')"
    and tx: "enable_tracking_tx now p context org x d = Inr ((status, tr), d')"
    unfolding res
    by (auto simp: enable_tracking_def transact_def split: sum.splits option.splits prod.splits if_splits)
  from fresh_token_minted [OF token] x enable_tracking_tx_tracking [OF assms(1) tx] guard res show ?thesis by auto
qed

text \<open>
  Disabling is the inverse update: only a live, tracked repository of this workspace is touched,
  its row and id stay, and every other request leaves the database alone.
\<close>

lemma disable_tracking_map:
  assumes inv: "repositories_inv d" and run: "disable_tracking p context org repo d = (Inr status, d')"
  shows "status = 204 \<and> require_session p = Inr () \<and> (\<exists>role. require_organization_role p org Admin d = Inr role) \<and>
    repositories_inv d' \<and> (\<exists>g. tracking d g = Some (repo, org, True) \<and> tracking d' = (tracking d)(g \<mapsto> (repo, org, False)))"
proof -
  let ?Q = "\<lambda>y. r_id y = repo \<and> r_organization_id y = org \<and> r_tracking_enabled y"
  let ?f = "\<lambda>y. y\<lparr>r_tracking_enabled := False\<rparr>"
  from run obtain u role row where guard: "require_session p = Inr u" "require_organization_role p org Admin d = Inr role"
    and row: "row \<in> set (repositories d)" "r_id row = repo" "r_organization_id row = org" "r_deleted_at row = None"
    and tx: "disable_tracking_tx p context org row d = Inr (status, d')"
    by (auto simp: disable_tracking_def transact_def split: sum.splits option.splits prod.splits dest!: find_SomeD)
  have uniq: "y = row" if "y \<in> set (repositories d)" "r_id y = repo" for y
    using that row inv distinct_key_unique [of r_id "repositories d" y row] by (simp add: repositories_inv_def table_ok_def)
  from tx row(2) obtain d1 a b c e f where on: "list_ex ?Q (repositories d)"
    and d1: "d1 = d\<lparr>repositories := upd_where ?Q ?f (repositories d)\<rparr>"
    and audit: "write_audit p context a b c e f d1 = Inr ((), d')" and "status = 204"
    by (auto simp: disable_tracking_tx_def Let_def split: if_splits sum.splits prod.splits)
  from on uniq have Q: "?Q row" by (auto simp: list_ex_iff)
  note upd = tracking_upd [of d row ?Q ?f d1, OF inv row(1) Q uniq]
  have "repositories_inv d1" by (rule upd(1)) (auto simp: d1)
  moreover have "tracking d1 = (tracking d)(r_github_repo_id row \<mapsto>
      (r_id row, r_organization_id (?f row), r_tracking_enabled (?f row) \<and> r_deleted_at (?f row) = None))"
    by (rule upd(2)) (auto simp: d1)
  ultimately show ?thesis
    using audit_keeps_tracking [OF audit] tracking_row [OF inv row(1)] row Q guard \<open>status = 204\<close> by auto
qed

text \<open>
  C28. After tracking was switched off, GitHub keeps sending events and the receiver ignores them.
  As long as the table of repositories stays as the request left it, any delivery about that
  GitHub repository which a processor claims is marked ignored, and nothing else of the
  database, the caches or the background tasks changes.
\<close>

theorem disabled_repository_is_ignored:
  assumes "repositories_inv d" and "tracking d g = Some (repo, org, True)"
    and "disable_tracking p context org repo d = (Inr status, d')"
    and "repositories (app_db a) = repositories d'" and "pe_faults env = no_faults"
    and "claim_delivery (pe_locked env) (app_db a) = (Some dl, d1)" and "dl_github_repo_id dl = Some g"
    and "dl_event_type dl \<notin> {''installation'', ''installation_repositories''}"
  shows "process_one E env a = (Ok_one True,
    a\<lparr>app_db := mark_delivery (pe_now env) (dl_id dl) Ignored (Some ''repository is not tracked'') d1\<rparr>)"
proof -
  from disable_tracking_map [OF assms(1,3)] obtain g' where inv: "repositories_inv d'"
    and g': "tracking d g' = Some (repo, org, True)" "tracking d' = (tracking d)(g' \<mapsto> (repo, org, False))" by blast
  have "g' = g"
  proof -
    from assms(2) g'(1) obtain r r' where "r \<in> set (repositories d)" "r' \<in> set (repositories d)" "r_id r = repo" "r_id r' = repo"
      "r_github_repo_id r = g" "r_github_repo_id r' = g'" by (auto simp: tracking_def dest!: find_SomeD)
    with assms(1) distinct_key_unique [of r_id "repositories d" r r'] show ?thesis
      by (simp add: repositories_inv_def table_ok_def)
  qed
  with g'(2) context_tracking [OF inv, of g] have none: "fetch_repo_context g d' = None" by simp
  have "repositories d1 = repositories d'"
    using assms(4,6) by (auto simp: claim_delivery_def split: list.splits)
  with none have "fetch_repo_context g d1 = None" by (simp add: fetch_repo_context_def)
  with assms(5-8) show ?thesis
    by (simp add: process_one_def no_faults_def apply_delivery_def Let_def guarded_def on_db_def)
qed

lemma tracked_map_iff:
  assumes "repositories_inv d"
  shows "tracked_map org d g = Some \<lparr>tk_repository_id = i, tk_organization_id = owner, tk_tracking_enabled = enabled\<rparr> \<longleftrightarrow>
    owner = org \<and> (\<exists>row\<in>set (repositories d). r_github_repo_id row = g \<and> r_id row = i \<and> r_organization_id row = org \<and>
      r_tracking_enabled row = enabled \<and> r_deleted_at row = None)"
proof -
  let ?rows = "filter (\<lambda>x. r_organization_id x = org \<and> r_deleted_at x = None) (repositories d)"
  let ?t = "\<lambda>x. (r_github_repo_id x, \<lparr>tk_repository_id = r_id x, tk_organization_id = r_organization_id x,
          tk_tracking_enabled = r_tracking_enabled x\<rparr>)"
  have "distinct (map r_github_repo_id ?rows)"
    using assms by (simp add: repositories_inv_def table_ok_def distinct_map_filter)
  then have "distinct (map fst (rev (map ?t ?rows)))" by (simp add: rev_map [symmetric] comp_def)
  then have "tracked_map org d g = Some v \<longleftrightarrow> (g, v) \<in> set (map ?t ?rows)" for v
    by (simp add: tracked_map_def map_of_eq_Some_iff)
  then show ?thesis by auto
qed

lemma link_keeps_repositories:
  "transact (link_to_personal_organization u i) (upsert_installation now inst d) = (res, d1) \<Longrightarrow>
     repositories d1 = repositories d \<and>
     (\<forall>pair\<in>links (organizations d1) - links (organizations d). personal_organization u d = Some (fst pair) \<and> snd pair = i)"
proof -
  assume run: "transact (link_to_personal_organization u i) (upsert_installation now inst d) = (res, d1)"
  have d: "repositories (upsert_installation now inst d) = repositories d"
    "organizations (upsert_installation now inst d) = organizations d"
    "personal_organization u (upsert_installation now inst d) = personal_organization u d"
    by (simp_all add: upsert_installation_def personal_organization_def)
  show ?thesis
  proof (cases "link_to_personal_organization u i (upsert_installation now inst d)")
    case (Inr x)
    then obtain org where link: "link_to_personal_organization u i (upsert_installation now inst d) = Inr (org, d1)"
      using run by (cases x) (simp add: transact_def)
    from link have "repositories d1 = repositories d"
      using d(1) by (auto simp: link_to_personal_organization_def Let_def split: option.splits if_splits)
    with link_new_pairs [OF link] d show ?thesis by auto
  qed (use run d in \<open>auto simp: transact_def\<close>)
qed

lemma caller_single_ids:
  assumes "caller_single_installation E site u d n = Some (Inr (Some i), n1)"
  shows "user_installation_ids E n = Some (Inr [i], n1)"
proof -
  from assms obtain t where t: "user_access_token (st_cipher site) u d = Inr t"
    by (auto simp: caller_single_installation_def split: sum.splits)
  with assms obtain a n2 where run: "user_installation_ids E n = Some (a, n2)"
    by (cases "user_installation_ids E n") (auto simp: caller_single_installation_def)
  with assms t show ?thesis by (cases a) (auto simp: caller_single_installation_def split: list.splits)
qed

lemma reconcile_frame:
  assumes "reconcile_installation E site now u org d r n = Some (res, d', r', n')"
  shows "repositories d' = repositories d \<and> (res = Inr None \<longrightarrow> organization_installation_id org d = None \<longrightarrow>
       organization_installation_id org d' = None) \<and>
    (\<forall>pair\<in>links (organizations d') - links (organizations d). personal_organization u d = Some (fst pair) \<and>
       (\<exists>n1. user_installation_ids E n = Some (Inr [snd pair], n1)))"
proof (cases "caller_single_installation E site u d n")
  case (Some c)
  obtain cres n1 where c: "c = (cres, n1)" by (cases c)
  show ?thesis
  proof (cases "\<exists>i. cres = Inr (Some i)")
    case False
    with assms Some c have "d' = d" by (auto simp: reconcile_installation_def split: sum.splits option.splits)
    then show ?thesis by simp
  next
    case True
    then obtain i where i: "cres = Inr (Some i)" by blast
    with Some c have ids: "user_installation_ids E n = Some (Inr [i], n1)" by (auto dest: caller_single_ids)
    show ?thesis
    proof (cases "d' = d")
      case False
      with assms Some c i obtain inst n2 lres d1 where
        link: "transact (link_to_personal_organization u i) (upsert_installation now inst d) = (lres, d1)"
        and rest: "(case lres of Inl e \<Rightarrow> Some (Inl e, d1, r, n2)
                | Inr _ \<Rightarrow> map_option (\<lambda>(res, r', n3). (res, d1, r', n3))
                      (workspace_token E now (site_jwt site now) (st_api_base site) org d1 r n2)) = Some (res, d', r', n')"
        by (auto simp: reconcile_installation_def split: option.splits sum.splits prod.splits)
      from rest have "d1 = d'" by (auto split: sum.splits)
      moreover have "res = Inr None \<longrightarrow> organization_installation_id org d' = None"
        using rest \<open>d1 = d'\<close> by (auto simp: workspace_token_def map_sum_Inr split: sum.splits option.splits)
      ultimately show ?thesis using link_keeps_repositories [OF link] ids by auto
    qed (simp)
  qed
qed (use assms in \<open>simp add: reconcile_installation_def\<close>)

lemma list_discovered_run:
  assumes "list_discovered E site now org d r n = Some (Inr ds, d', r', n')"
  shows "d' = d \<and> r' = r \<and> ds_installed ds \<and> (\<exists>repos. installation_repositories E now (st_api_base site) n = Some (Inr repos, n') \<and>
    map dr_github (ds_repositories ds) = repos \<and>
    (\<forall>x\<in>set (ds_repositories ds). dr_tracking x = tracked_map org d (gr_id (dr_github x))))"
  using assms by (auto simp: list_discovered_def map_sum_Inr comp_def)

text \<open>
  Discovery shows a member exactly what the workspace's installation can see. A successful
  answer goes to a browser session of a member only; the repositories are GitHub's own list, in
  its order, each with the tracking state of this workspace's row for it and no other's; the
  install prompt appears only when no installation is linked. Repairing a missed link on the way
  never links anything but the one installation GitHub attributes to the caller, and only to the
  caller's personal workspace.
\<close>

theorem discovery_is_exact:
  assumes inv: "repositories_inv d" and run: "discover E site now p org d r n = Some (Inr ds, d', r', n')"
  shows "require_session p = Inr () \<and> (\<exists>role. require_organization_role p org Viewer d = Inr role) \<and>
    (if ds_installed ds
     then \<exists>n1. installation_repositories E now (st_api_base site) n1 = Some (Inr (map dr_github (ds_repositories ds)), n')
     else ds_repositories ds = [] \<and> organization_installation_id org d' = None) \<and>
    (\<forall>x\<in>set (ds_repositories ds). \<forall>i owner enabled.
       dr_tracking x = Some \<lparr>tk_repository_id = i, tk_organization_id = owner, tk_tracking_enabled = enabled\<rparr> \<longleftrightarrow>
       owner = org \<and> (\<exists>row\<in>set (repositories d). r_github_repo_id row = gr_id (dr_github x) \<and> r_id row = i \<and>
         r_organization_id row = org \<and> r_tracking_enabled row = enabled \<and> r_deleted_at row = None)) \<and>
    repositories d' = repositories d \<and>
    (\<forall>pair\<in>links (organizations d') - links (organizations d). personal_organization (p_user_id p) d = Some (fst pair) \<and>
       (\<exists>n1. user_installation_ids E n = Some (Inr [snd pair], n1)))"
proof -
  from run obtain u role where guard: "require_session p = Inr u" "require_organization_role p org Viewer d = Inr role"
    by (auto simp: discover_def split: sum.splits)
  with run obtain tok r1 n1 where tok: "workspace_token_fresh E now (site_jwt site now) (st_api_base site) org d r n = Some (Inr tok, r1, n1)"
    by (auto simp: discover_def split: option.splits sum.splits prod.splits)
  show ?thesis
  proof (cases tok)
    case (Some token)
    with run guard tok have "list_discovered E site now org d r1 n1 = Some (Inr ds, d', r', n')"
      by (simp add: discover_def)
    from list_discovered_run [OF this] guard tracked_map_iff [OF inv, of org] show ?thesis by auto
  next
    case None
    then have n1: "n1 = n" "organization_installation_id org d = None"
      using tok by (auto simp: workspace_token_fresh_def map_sum_Inr split: option.splits)
    with run guard tok None obtain tok2 d2 r2 n2 where rec: "reconcile_installation E site now (p_user_id p) org d r1 n = Some (Inr tok2, d2, r2, n2)"
      by (auto simp: discover_def split: option.splits sum.splits prod.splits)
    note frame = reconcile_frame [OF rec]
    have inv2: "tracked_map org d2 = tracked_map org d" using frame by (simp add: tracked_map_def)
    show ?thesis
    proof (cases tok2)
      case None2: None
      with run guard tok None n1 rec have "ds = \<lparr>ds_installed = False, ds_install_url = install_url site, ds_repositories = []\<rparr>"
        and "d' = d2" by (auto simp: discover_def)
      with frame guard None2 n1 show ?thesis by auto
    next
      case (Some token)
      with run guard tok None n1 rec have "list_discovered E site now org d2 r2 n2 = Some (Inr ds, d', r', n')"
        by (simp add: discover_def)
      from list_discovered_run [OF this] frame guard tracked_map_iff [OF inv, of org] inv2 show ?thesis by auto
    qed
  qed
qed

section \<open>Examples\<close>

definition demo_listed :: json where
  "demo_listed = JObj [(''id'', JInt 77), (''name'', JStr ''n''), (''full_name'', JStr ''o/n''),
     (''owner'', JObj [(''id'', JInt 8), (''login'', JStr ''o'')]), (''default_branch'', JStr ''main''), (''private'', JBool False),
     (''archived'', JBool False), (''fork'', JBool False), (''html_url'', JStr ''h'')]"

definition tracking_ext :: ext where
  "tracking_ext = oauth_ext\<lparr>json_from_slice := (\<lambda>bs.
     if bs = [5] then Some (JObj [(''token'', JStr ''ghs_x''), (''expires_at'', JStr ''t'')])
     else if bs = [6] then Some demo_listed
     else if bs = [7] then Some (JObj [(''repositories'', JArr [demo_listed])])
     else json_from_slice oauth_ext bs)\<rparr>"

text \<open>A team with a linked installation, one repository it stopped tracking, one it tracks.\<close>

definition linked_db :: db where
  "linked_db = demo_team_db\<lparr>
     organizations := [demo_team\<lparr>o_github_installation_id := Some 55\<rparr>],
     repositories := [demo_repository\<lparr>r_tracking_enabled := False\<rparr>, demo_repository\<lparr>r_id := 4, r_github_repo_id := 78\<rparr>]\<rparr>"

lemma linked_inv: "repositories_inv linked_db"
  by (simp add: repositories_inv_def table_ok_def linked_db_def demo_team_db_def demo_repository_def)

lemma linked_admin: "minimum \<le> Admin \<Longrightarrow> require_organization_role (session_principal 5) 2 minimum linked_db = Inr Admin"
  by (cases minimum) (simp_all add: require_organization_role_def linked_db_def live_organization_def session_principal_def team_eval
      less_eq_OrganizationRole_def)

lemma linked_token:
  "\<exists>r' n'. workspace_token_fresh tracking_ext 6 (site_jwt demo_site 6) ''b'' 2 linked_db r \<lparr>replies = reply 5 # later, sent = []\<rparr> =
     Some (Inr (Some ''ghs_x''), r', n') \<and> replies n' = later"
proof -
  have "r_get 6 (cache_key 55) (invalidate_installation_token 55 r) = None"
    by (simp add: invalidate_installation_token_def redis_store.get_del)
  moreover have "organization_installation_id 2 linked_db = Some 55"
    by (simp add: organization_installation_id_def linked_db_def demo_team_def)
  moreover have "\<exists>n'. mint_installation_token tracking_ext (site_jwt demo_site 6) ''b'' 55 \<lparr>replies = reply 5 # later, sent = []\<rparr> =
      Some (Inr \<lparr>it_token = ''ghs_x'', it_expires_at = 1\<rparr>, n') \<and> replies n' = later"
    by (simp add: mint_installation_token_def as_app_def app_jwt_def app_endpoint_def call_eval session_ext_def demo_ext_def
        demo_site_def tracking_ext_def de_InstallationToken_def)
  ultimately show ?thesis
    by (auto simp: workspace_token_fresh_def cached_token_def installation_token_def Let_def)
qed

lemma tracking_ext_simps [simp]:
  "json_from_slice tracking_ext [6] = Some demo_listed"
  "json_from_slice tracking_ext [7] = Some (JObj [(''repositories'', JArr [demo_listed])])"
  "url_push tracking_ext base segments = Some (base @ concat segments)"
  by (simp_all add: tracking_ext_def oauth_ext_def session_ext_def demo_ext_def)

definition demo_github :: GitHubRepository where
  "demo_github = \<lparr>gr_id = 77, gr_name = ''n'', gr_full_name = ''o/n'', gr_owner = \<lparr>us_id = 8, us_login = ''o''\<rparr>,
     gr_description = None, gr_default_branch = ''main'', gr_is_private = False, gr_archived = False, gr_fork = False,
     gr_language = None, gr_html_url = ''h'', gr_created_at = None, gr_pushed_at = None, gr_permissions = None\<rparr>"

lemma demo_parsed [simp]: "de_GitHubRepository E demo_listed = Some demo_github"
  by (simp add: de_GitHubRepository_def demo_listed_def de_required_def de_optional_def de_GitHubUserSummary_def is_i64_def
      demo_github_def)

lemma linked_repository:
  "replies n = [reply 6] \<Longrightarrow> \<exists>n'. repository_opt tracking_ext 6 ''b'' 77 n = Some (Inr (Some demo_github), n')"
  by (simp add: repository_opt_def at_endpoint_def endpoint_def send_def reply_def is_success_def read_json_def)

lemma linked_listing:
  "replies n = [reply 7] \<Longrightarrow> \<exists>n'. installation_repositories tracking_ext 6 ''b'' n = Some (Inr [demo_github], n')"
  by (simp add: installation_repositories_def at_endpoint_def endpoint_def collect_pages.simps page_envelope_def send_def
      reply_def envelope_of_def is_success_def read_json_def de_required_def header_text_def)

lemma demo_enable:
  "\<exists>tr d' r' n'. enable_tracking tracking_ext demo_site 6 (session_principal 5) demo_context 2 77 linked_db Map.empty
     \<lparr>replies = [reply 5, reply 6], sent = []\<rparr> = Some (Inr (202, tr), d', r', n') \<and> rr_id (tg_repository tr) = 1"
proof -
  obtain r1 n1 where tok: "workspace_token_fresh tracking_ext 6 (site_jwt demo_site 6) ''b'' 2 linked_db Map.empty
      \<lparr>replies = [reply 5, reply 6], sent = []\<rparr> = Some (Inr (Some ''ghs_x''), r1, n1)" "replies n1 = [reply 6]"
    using linked_token by blast
  obtain n2 where x: "repository_opt tracking_ext 6 ''b'' 77 n1 = Some (Inr (Some demo_github), n2)"
    using linked_repository [OF tok(2)] by blast
  have ex: "existing_organization 77 linked_db = Some 2"
    by (simp add: existing_organization_def linked_db_def demo_repository_def)
  have "\<exists>row d1. put_repository 6 2 demo_github linked_db = Inr (Some row, d1) \<and> r_id row = 1 \<and>
      organizations d1 = organizations linked_db \<and> users d1 = users linked_db"
    by (simp add: put_repository_def Let_def linked_db_def demo_team_def demo_github_def demo_repository_def merge_repository_def)
  then obtain row d1 where put: "put_repository 6 2 demo_github linked_db = Inr (Some row, d1)" "r_id row = 1"
    "organizations d1 = organizations linked_db" "users d1 = users linked_db" by blast
  have "\<exists>d2. write_audit (session_principal 5) demo_context (Some 2) a t i m d1 = Inr ((), d2)" for a t i m
    using put(3,4) by (intro write_audit_ok) (auto simp: linked_db_def demo_team_db_def demo_team_def demo_user_def)
  then obtain W where "\<And>a t i m. write_audit (session_principal 5) demo_context (Some 2) a t i m d1 = Inr ((), W a t i m)"
    by metis
  then obtain tr d' where "enable_tracking_tx 6 (session_principal 5) demo_context 2 demo_github linked_db = Inr ((202, tr), d')"
    "rr_id (tg_repository tr) = 1"
    using put(1,2) by (simp add: enable_tracking_tx_def repository_from_row_def)
  then show ?thesis
    using tok x ex linked_admin [of Admin]
    by (simp add: enable_tracking_def demo_site_def demo_github_def transact_def)
qed

theorem enable_tracking_updates_map_witness:
  "\<exists>tr d' r' n'. enable_tracking tracking_ext demo_site 6 (session_principal 5) demo_context 2 77 linked_db Map.empty
     \<lparr>replies = [reply 5, reply 6], sent = []\<rparr> = Some (Inr (202, tr), d', r', n') \<and>
     repositories_inv d' \<and> tracking linked_db 77 = Some (1, 2, False) \<and> tracking d' 77 = Some (1, 2, True)"
proof -
  obtain tr d' r' n' where run: "enable_tracking tracking_ext demo_site 6 (session_principal 5) demo_context 2 77 linked_db Map.empty
     \<lparr>replies = [reply 5, reply 6], sent = []\<rparr> = Some (Inr (202, tr), d', r', n')" "rr_id (tg_repository tr) = 1"
    using demo_enable by blast
  have before: "tracking linked_db 77 = Some (1, 2, False)" "tracking linked_db 78 = Some (4, 2, True)"
    by (simp_all add: tracking_def linked_db_def demo_repository_def)
  from enable_tracking_updates_map [OF linked_inv run(1)] have inv: "repositories_inv d'" by blast
  from enable_tracking_updates_map [OF linked_inv run(1), THEN conjunct2, THEN conjunct2, rule_format, OF refl]
  obtain x :: GitHubRepository where
    upd: "tracking d' = (tracking linked_db)(gr_id x \<mapsto> (rr_id (tg_repository tr), 2, True))"
    and own: "case tracking linked_db (gr_id x) of None \<Rightarrow> rr_id (tg_repository tr) = next_id linked_db
      | Some (i, owner, _) \<Rightarrow> i = rr_id (tg_repository tr) \<and> owner = 2"
    by blast
  have "next_id linked_db = 20" by (simp add: linked_db_def demo_team_db_def)
  with own run(2) have "gr_id x = 77"
    by (auto simp: tracking_def linked_db_def demo_repository_def split: option.splits if_splits)
  with run inv before upd show ?thesis by auto
qed

definition demo_delivery :: webhook_delivery where
  "demo_delivery = (hd (webhook_deliveries (app_db demo_tracked_app)))\<lparr>wd_github_repo_id := Some 78\<rparr>"

definition disabled_db :: db where
  "disabled_db = snd (disable_tracking (session_principal 5) demo_context 2 4 linked_db)"

definition disabled_app :: app where
  "disabled_app = \<lparr>app_db = disabled_db\<lparr>webhook_deliveries := [demo_delivery]\<rparr>, app_redis = Map.empty, app_spawned = []\<rparr>"

lemma demo_disable: "disable_tracking (session_principal 5) demo_context 2 4 linked_db = (Inr 204, disabled_db)"
proof -
  have "\<exists>d2. write_audit (session_principal 5) demo_context (Some 2) a t i m (linked_db\<lparr>repositories := rs\<rparr>) = Inr ((), d2)"
    for a t i m rs
    by (intro write_audit_ok) (auto simp: linked_db_def demo_team_db_def demo_team_def demo_user_def)
  then obtain W where "\<And>a t i m rs. write_audit (session_principal 5) demo_context (Some 2) a t i m
      (linked_db\<lparr>repositories := rs\<rparr>) = Inr ((), W a t i m rs)" by metis
  moreover have "find (\<lambda>y. r_id y = 4 \<and> r_organization_id y = 2 \<and> r_deleted_at y = None) (repositories linked_db) =
      Some (demo_repository\<lparr>r_id := 4, r_github_repo_id := 78\<rparr>)"
    by (simp add: linked_db_def demo_repository_def)
  moreover have "list_ex (\<lambda>y. r_id y = 4 \<and> r_organization_id y = 2 \<and> r_tracking_enabled y) (repositories linked_db)"
    by (simp add: linked_db_def demo_repository_def)
  ultimately have "\<exists>d'. disable_tracking (session_principal 5) demo_context 2 4 linked_db = (Inr 204, d')"
    using linked_admin [of Admin] by (simp add: disable_tracking_def disable_tracking_tx_def transact_def)
  then show ?thesis by (auto simp: disabled_db_def)
qed

theorem disabled_repository_is_ignored_witness:
  "\<exists>d1. process_one demo_ext (demo_env no_faults) disabled_app = (Ok_one True,
     disabled_app\<lparr>app_db := mark_delivery 7 10 Ignored (Some ''repository is not tracked'') d1\<rparr>)"
proof -
  have "demo_delivery = (hd (webhook_deliveries (app_db (demo_app demo_signature))))\<lparr>wd_github_repo_id := Some 78\<rparr>"
    by (simp add: demo_delivery_def demo_tracked_app_def demo_app_deliveries)
  then have dl: "demo_delivery = \<lparr>wd_id = 10, wd_github_delivery_id = 4, wd_event_type = ''push'', wd_action = None,
      wd_github_repo_id = Some 78, wd_repository_id = find_repository_id None demo_repo_db, wd_signature_valid = True,
      wd_status = Received, wd_attempts = 0, wd_payload = JObj [], wd_error = None, wd_received_at = 0, wd_processed_at = None\<rparr>"
    by (simp add: demo_app_deliveries delivery_row_def demo_signature_valid)
  have "\<exists>d1. claim_delivery {} (app_db disabled_app) =
      (Some \<lparr>dl_id = 10, dl_event_type = ''push'', dl_github_repo_id = Some 78, dl_payload = JObj []\<rparr>, d1)"
    by (simp add: disabled_app_def claim_delivery_def dl delivery_claimable_def MAX_ATTEMPTS_def)
  then obtain d1 where claim: "claim_delivery {} (app_db disabled_app) =
      (Some \<lparr>dl_id = 10, dl_event_type = ''push'', dl_github_repo_id = Some 78, dl_payload = JObj []\<rparr>, d1)" by blast
  have "tracking linked_db 78 = Some (4, 2, True)" by (simp add: tracking_def linked_db_def demo_repository_def)
  from disabled_repository_is_ignored [OF linked_inv this demo_disable, of disabled_app "demo_env no_faults"] claim show ?thesis
    by (auto simp: disabled_app_def demo_env_def)
qed

theorem discovery_is_exact_witness:
  "\<exists>ds d' r' n'. discover tracking_ext demo_site 6 (session_principal 5) 2 linked_db Map.empty
     \<lparr>replies = [reply 5, reply 7], sent = []\<rparr> = Some (Inr ds, d', r', n') \<and> length (ds_repositories ds) = 1 \<and>
     repositories d' = repositories linked_db"
proof -
  obtain r1 n1 where tok: "workspace_token_fresh tracking_ext 6 (site_jwt demo_site 6) ''b'' 2 linked_db Map.empty
      \<lparr>replies = [reply 5, reply 7], sent = []\<rparr> = Some (Inr (Some ''ghs_x''), r1, n1)" "replies n1 = [reply 7]"
    using linked_token by blast
  obtain n2 where x: "installation_repositories tracking_ext 6 ''b'' n1 = Some (Inr [demo_github], n2)"
    using linked_listing [OF tok(2)] by blast
  obtain ds d' r' n' where run: "discover tracking_ext demo_site 6 (session_principal 5) 2 linked_db Map.empty
     \<lparr>replies = [reply 5, reply 7], sent = []\<rparr> = Some (Inr ds, d', r', n')" "length (ds_repositories ds) = 1"
    using tok x linked_admin [of Viewer]
    by (simp add: discover_def list_discovered_def demo_site_def less_eq_OrganizationRole_def)
  from discovery_is_exact [OF linked_inv run(1)] have "repositories d' = repositories linked_db" by (elim conjE)
  with run show ?thesis by blast
qed

end
