(* ===== verification/Float64.thy ===== *)
theory Float64
  imports Rust_Text Complex_Main "HOL-Library.Log_Nat"
begin

text \<open>
  Rust's \<open>f64\<close> as far as the gateway computes with it: the text grammar of
  \<open>str::parse::<f64>\<close> with correct rounding (to nearest, ties to even, subnormals and
  overflow to infinity included), multiplication, \<open>round\<close> (ties away from zero) and the
  saturating cast \<open>as i64\<close>. A finite value is its exact rational; the two zeros are one.
\<close>

section \<open>Values and rounding\<close>

datatype f64 = NaN | Infinite bool | Finite rat

definition log2_floor :: "rat \<Rightarrow> int" where
  "log2_floor q =
     (case quotient_of q of (n, d) \<Rightarrow>
        let e = bitlen n - bitlen d in if 2 powi e \<le> q then e else e - 1)"

text \<open>The exponent of the last place: 53 significant bits, not below that of the subnormals.\<close>

definition ulp_exp :: "rat \<Rightarrow> int" where
  "ulp_exp q = max (- 1074) (log2_floor q - 52)"

definition round_even :: "rat \<Rightarrow> int" where
  "round_even x =
     (let f = \<lfloor>x\<rfloor>; r = x - of_int f
      in if r < 1 / 2 then f else if r > 1 / 2 then f + 1 else if even f then f else f + 1)"

definition to_f64 :: "rat \<Rightarrow> f64" where
  "to_f64 q =
     (if q = 0 then Finite 0
      else let e = ulp_exp \<bar>q\<bar>; v = of_int (round_even (\<bar>q\<bar> / 2 powi e)) * 2 powi e
           in if v \<ge> 2 ^ 1024 then Infinite (q < 0) else Finite (if q < 0 then - v else v))"

section \<open>Operations\<close>

fun f64_mul :: "f64 \<Rightarrow> f64 \<Rightarrow> f64" where
  "f64_mul (Finite a) (Finite b) = to_f64 (a * b)"
| "f64_mul (Infinite s) (Infinite t) = Infinite (s \<noteq> t)"
| "f64_mul (Infinite s) (Finite b) = (if b = 0 then NaN else Infinite (s \<noteq> (b < 0)))"
| "f64_mul (Finite a) (Infinite t) = (if a = 0 then NaN else Infinite (t \<noteq> (a < 0)))"
| "f64_mul _ _ = NaN"

fun f64_round :: "f64 \<Rightarrow> f64" where
  "f64_round (Finite q) = Finite (of_int (if q < 0 then - \<lfloor>- q + 1 / 2\<rfloor> else \<lfloor>q + 1 / 2\<rfloor>))"
| "f64_round x = x"

definition i64_clamp :: "int \<Rightarrow> int" where
  "i64_clamp n = max (- (2 ^ 63)) (min (2 ^ 63 - 1) n)"

fun as_i64_sat :: "f64 \<Rightarrow> int" where
  "as_i64_sat (Finite q) = i64_clamp (if q < 0 then - \<lfloor>- q\<rfloor> else \<lfloor>q\<rfloor>)"
| "as_i64_sat (Infinite negative) = (if negative then - (2 ^ 63) else 2 ^ 63 - 1)"
| "as_i64_sat NaN = 0"

section \<open>Parsing\<close>

definition digit_value :: "char \<Rightarrow> int" where
  "digit_value c = int (of_char c) - 48"

definition digits_value :: "string \<Rightarrow> int" where
  "digits_value s = foldl (\<lambda>acc c. acc * 10 + digit_value c) 0 s"

fun strip_sign :: "string \<Rightarrow> bool \<times> string" where
  "strip_sign (c # s) = (if c = CHR ''-'' then (True, s) else if c = CHR ''+'' then (False, s) else (False, c # s))"
| "strip_sign [] = (False, [])"

fun parse_exponent :: "string \<Rightarrow> int option" where
  "parse_exponent [] = Some 0"
| "parse_exponent (c # s) =
     (case strip_sign s of (negative, ds) \<Rightarrow>
        if to_ascii_lowercase c = CHR ''e'' \<and> ds \<noteq> [] \<and> list_all is_ascii_digit ds
        then Some (if negative then - digits_value ds else digits_value ds) else None)"

text \<open>An unsigned decimal: digits with an optional point, at least one digit, an exponent.\<close>

definition parse_decimal :: "string \<Rightarrow> rat option" where
  "parse_decimal s =
     (let whole = takeWhile is_ascii_digit s; rest = dropWhile is_ascii_digit s;
          fraction = (case rest of c # t \<Rightarrow> if c = CHR ''.'' then takeWhile is_ascii_digit t else [] | [] \<Rightarrow> []);
          tail = (case rest of c # t \<Rightarrow> if c = CHR ''.'' then dropWhile is_ascii_digit t else rest | [] \<Rightarrow> [])
      in if whole = [] \<and> fraction = [] then None
         else map_option (\<lambda>e. of_int (digits_value (whole @ fraction)) * 10 powi (e - int (length fraction)))
                (parse_exponent tail))"

definition parse_f64 :: "string \<Rightarrow> f64 option" where
  "parse_f64 s =
     (case strip_sign s of (negative, t) \<Rightarrow>
        let lower = map to_ascii_lowercase t
        in if lower = ''inf'' \<or> lower = ''infinity'' then Some (Infinite negative)
           else if lower = ''nan'' then Some NaN
           else map_option (\<lambda>q. to_f64 (if negative then - q else q)) (parse_decimal t))"

section \<open>The rounding error\<close>

lemma round_even_error: "\<bar>of_int (round_even x) - x\<bar> \<le> 1 / 2"
  unfolding round_even_def Let_def by (auto simp: abs_if field_simps split: if_splits) (linarith+)?

lemma log2_floor_le:
  assumes "0 < q" shows "2 powi log2_floor q \<le> q"
proof -
  obtain n d where nd: "quotient_of q = (n, d)" by (cases "quotient_of q")
  have q: "q = of_int n / of_int d" using quotient_of_div [OF nd] .
  have d: "0 < d" using quotient_of_denom_pos [OF nd] .
  have n: "0 < n" using assms q d by (simp add: zero_less_divide_iff)
  have low: "(2::rat) powi (bitlen n - 1) \<le> of_int n"
  proof -
    have "bitlen n \<ge> 1" using n by (metis bitlen_eq_zero_iff bitlen_nonneg less_eq_int_code(1) linorder_not_le order_le_less zle_add1_eq_le add_0)
    then have "(2::rat) powi (bitlen n - 1) = of_int (2 ^ nat (bitlen n - 1))" by (simp add: power_int_def)
    then show ?thesis using bitlen_bounds [OF n] by (simp only: of_int_le_iff)
  qed
  have high: "of_int d \<le> (2::rat) powi bitlen d"
  proof -
    have "(2::rat) powi bitlen d = of_int (2 ^ nat (bitlen d))" using bitlen_nonneg [of d] by (simp add: power_int_def)
    moreover have "d \<le> 2 ^ nat (bitlen d)" using bitlen_bounds [OF d] by simp
    ultimately show ?thesis by (simp only: of_int_le_iff)
  qed
  have "(2::rat) powi (bitlen n - bitlen d - 1) = 2 powi (bitlen n - 1) / 2 powi bitlen d"
    by (simp add: power_int_diff [symmetric] algebra_simps)
  also have "\<dots> \<le> q"
    unfolding q using low high n d by (intro frac_le) auto
  finally show ?thesis by (simp add: log2_floor_def nd Let_def)
qed

lemma ulp_bound:
  assumes "0 < q"
  shows "2 powi ulp_exp q \<le> q / 2 ^ 52 + 1 / 2 ^ 60"
proof (cases "log2_floor q - 52 \<le> - 1074")
  case True
  have "(2::rat) powi (- 1074) \<le> 2 powi (- 60)" by (rule power_int_increasing) simp_all
  then have "(2::rat) powi ulp_exp q \<le> 1 / 2 ^ 60"
    using True by (simp add: ulp_exp_def power_int_minus field_simps)
  moreover have "0 \<le> q / 2 ^ 52" using assms by simp
  ultimately show ?thesis by linarith
next
  case False
  then have "(2::rat) powi ulp_exp q = 2 powi log2_floor q / 2 powi 52" by (simp add: ulp_exp_def power_int_diff)
  also have "\<dots> \<le> q / 2 ^ 52" using log2_floor_le [OF assms] by (simp add: field_simps)
  finally show ?thesis by (simp add: add_increasing2)
qed

text \<open>A value of moderate size is represented with a relative error of one part in \<open>2\<^sup>5\<^sup>3\<close>.\<close>

lemma to_f64_near:
  assumes "0 \<le> q" and "q < 2 ^ 60"
  shows "\<exists>v. to_f64 q = Finite v \<and> \<bar>v - q\<bar> \<le> q / 2 ^ 53 + 1 / 2 ^ 61 \<and> 0 \<le> v"
proof (cases "q = 0")
  case False
  with assms have q: "0 < q" by simp
  let ?u = "(2::rat) powi ulp_exp q"
  let ?v = "of_int (round_even (q / ?u)) * ?u"
  have u: "0 < ?u" by simp
  have "?v - q = (of_int (round_even (q / ?u)) - q / ?u) * ?u" by (simp add: left_diff_distrib)
  then have "\<bar>?v - q\<bar> = \<bar>of_int (round_even (q / ?u)) - q / ?u\<bar> * ?u" using u by (simp only: abs_mult abs_of_pos)
  also have "\<dots> \<le> 1 / 2 * ?u" using round_even_error u by (intro mult_right_mono) auto
  finally have err: "\<bar>?v - q\<bar> \<le> q / 2 ^ 53 + 1 / 2 ^ 61" using ulp_bound [OF q] by simp
  then have "?v \<le> q + q / 2 ^ 53 + 1 / 2 ^ 61" by linarith
  also have "\<dots> < 2 ^ 62" using assms(2) by (simp add: field_simps)
  also have "\<dots> < (2::rat) ^ 1024" by (rule power_strict_increasing) simp_all
  finally have "?v < 2 ^ 1024" .
  moreover have "0 \<le> q / ?u" using q u by simp
  then have "0 \<le> round_even (q / ?u)" unfolding round_even_def Let_def by (auto simp: zero_le_floor split: if_splits)
  then have "0 \<le> ?v" using u by simp
  ultimately show ?thesis using q err by (auto simp: to_f64_def Let_def not_le)
qed (simp add: to_f64_def)

text \<open>
  Milliseconds survive the detour through binary seconds: the nearest double to \<open>k / 1000\<close>,
  multiplied by 1000 in double precision and rounded, is \<open>k\<close> again.
\<close>

lemma millis_exact:
  assumes "0 \<le> k" and "k < 2 ^ 50"
  shows "\<exists>v. to_f64 (of_int k / 1000) = Finite v \<and> 0 \<le> v \<and>
    as_i64_sat (f64_round (f64_mul (Finite v) (Finite 1000))) = k"
proof -
  have k: "(of_int k :: rat) < 2 ^ 50" "(0::rat) \<le> of_int k"
    using assms of_int_less_iff [of k "2 ^ 50", where 'a = rat] by auto
  then obtain v where v: "to_f64 (of_int k / 1000) = Finite v" "\<bar>v - of_int k / 1000\<bar> \<le> of_int k / 1000 / 2 ^ 53 + 1 / 2 ^ 61" "0 \<le> v"
    using to_f64_near [of "of_int k / 1000"] by (auto simp: field_simps)
  have s: "\<bar>v * 1000 - of_int k\<bar> \<le> 1 / 7" using v(2) k by (simp add: abs_if field_simps split: if_splits)
  then have "v * 1000 < 2 ^ 60" using k by (simp add: abs_if split: if_splits)
  then obtain w where w: "to_f64 (v * 1000) = Finite w" "\<bar>w - v * 1000\<bar> \<le> v * 1000 / 2 ^ 53 + 1 / 2 ^ 61" "0 \<le> w"
    using to_f64_near [of "v * 1000"] v(3) by auto
  have "\<bar>w - v * 1000\<bar> \<le> 1 / 7" using w(2) s k by (simp add: abs_if field_simps split: if_splits)
  with s have "\<bar>w - of_int k\<bar> < 1 / 2" by (simp add: abs_if split: if_splits)
  then have "\<lfloor>w + 1 / 2\<rfloor> = k" by (intro floor_unique) (auto simp: abs_if split: if_splits)
  with v w assms show ?thesis by (simp add: i64_clamp_def)
qed

end
