(* ===== verification/JUnit.thy ===== *)
theory JUnit
  imports GitHub_OAuth Workflow_Ingest Float64 "HOL-Library.AList" "HOL-Library.Multiset"
begin

text \<open>
  \<^verbatim>\<open>gateway/src/junit.rs\<close>: finding the test results in the artifacts of a finished run. The
  zip crate and quick-xml are parameters: an archive opens to a list of entries (an entry that
  cannot be read is an error text), a document parses as a list of suites or as one suite. The
  order in which a \<open>HashMap\<close> hands out its values is a parameter too.
\<close>

section \<open>Documents\<close>

record Failure =
  fa_kind :: "string option"
  fa_message :: "string option"
  fa_text :: "string option"

record TestCase =
  tc_name :: "string option"
  tc_classname :: "string option"
  tc_time :: "string option"
  tc_failure :: "Failure option"
  tc_error :: "Failure option"
  tc_skipped :: "unit option"

datatype TestSuite =
  TestSuite (suite_name: "string option") (suite_cases: "TestCase list") (suite_suites: "TestSuite list")

record TestResult =
  tt_test_key :: string
  tt_suite :: "string option"
  tt_classname :: "string option"
  tt_name :: string
  tt_status :: string
  tt_duration_ms :: "int option"
  tt_failure_type :: "string option"
  tt_failure_message :: "string option"

text \<open>
  A zip entry: its declared uncompressed size, the bytes decompression yields and the error it
  ends with, if any.
\<close>

record zip_entry =
  ze_is_dir :: bool
  ze_name :: string
  ze_enclosed :: bool
  ze_size :: nat
  ze_data :: "u8 list"
  ze_failure :: "string option"

record formats =
  open_zip :: "u8 list \<Rightarrow> string + (string + zip_entry) list"
  xml_suites :: "string \<Rightarrow> TestSuite list option"
  xml_suite :: "string \<Rightarrow> TestSuite option"

section \<open>Reading a document\<close>

definition seconds_to_millis :: "string \<Rightarrow> int option" where
  "seconds_to_millis value =
     Option.bind (parse_f64 value)
       (\<lambda>seconds. case seconds of
            Finite q \<Rightarrow> if 0 \<le> q then Some (as_i64_sat (f64_round (f64_mul seconds (Finite 1000)))) else None
          | _ \<Rightarrow> None)"

definition identity_text :: "string option \<Rightarrow> string option \<Rightarrow> string \<Rightarrow> string" where
  "identity_text suite classname name =
     (case suite of None \<Rightarrow> [] | Some s \<Rightarrow> s) @ [CHR 0x00] @
     (case classname of None \<Rightarrow> [] | Some c \<Rightarrow> c) @ [CHR 0x00] @ name"

definition case_outcome :: "TestCase \<Rightarrow> string \<times> Failure option" where
  "case_outcome c =
     (case tc_failure c of
        Some failure \<Rightarrow> (''failed'', Some failure)
      | None \<Rightarrow>
          (case tc_error c of
             Some error \<Rightarrow> (''error'', Some error)
           | None \<Rightarrow> if tc_skipped c \<noteq> None then (''skipped'', None) else (''passed'', None)))"

definition case_result :: "ext \<Rightarrow> string option \<Rightarrow> TestCase \<Rightarrow> TestResult option" where
  "case_result E suite c =
     (case tc_name c of
        None \<Rightarrow> None
      | Some name \<Rightarrow>
          if name = [] then None
          else case case_outcome c of (status, failure) \<Rightarrow>
            Some \<lparr>tt_test_key = sha256_hex E (identity_text suite (tc_classname c) name),
                  tt_suite = suite, tt_classname = tc_classname c, tt_name = name, tt_status = status,
                  tt_duration_ms = Option.bind (tc_time c) seconds_to_millis,
                  tt_failure_type = Option.bind failure fa_kind,
                  tt_failure_message = Option.bind failure (\<lambda>f. coalesce (fa_message f) (fa_text f))\<rparr>)"

fun collect_suite :: "ext \<Rightarrow> TestSuite \<Rightarrow> string option \<Rightarrow> TestResult list \<Rightarrow> TestResult list" where
  "collect_suite E (TestSuite name cases suites) parent results =
     (let suite_name = coalesce name parent
      in fold (\<lambda>child acc. collect_suite E child suite_name acc) suites
           (fold (\<lambda>c acc. case case_result E suite_name c of None \<Rightarrow> acc | Some r \<Rightarrow> acc @ [r]) cases results))"

definition parse_document :: "ext \<Rightarrow> formats \<Rightarrow> string \<Rightarrow> TestResult list" where
  "parse_document E F xml =
     (case xml_suites F xml of
        Some (s # ss) \<Rightarrow> fold (\<lambda>suite acc. collect_suite E suite None acc) (s # ss) []
      | _ \<Rightarrow> (case xml_suite F xml of None \<Rightarrow> [] | Some suite \<Rightarrow> collect_suite E suite None []))"

section \<open>Reading an archive\<close>

definition MAX_ARTIFACTS_PER_RUN :: nat where "MAX_ARTIFACTS_PER_RUN = 50"
definition MAX_ARTIFACT_BYTES :: int where "MAX_ARTIFACT_BYTES = 50 * 1024 * 1024"
definition MAX_XML_FILES_PER_ARCHIVE :: nat where "MAX_XML_FILES_PER_ARCHIVE = 500"
definition MAX_XML_BYTES_PER_FILE :: nat where "MAX_XML_BYTES_PER_FILE = 10 * 1024 * 1024"
definition MAX_XML_BYTES_PER_ARCHIVE :: nat where "MAX_XML_BYTES_PER_ARCHIVE = 50 * 1024 * 1024"

text \<open>\<open>take(limit).read_to_end\<close>: an error beyond the limit is never reached.\<close>

definition read_limited :: "nat \<Rightarrow> zip_entry \<Rightarrow> string + u8 list" where
  "read_limited limit entry =
     (if limit \<le> length (ze_data entry) then Inr (take limit (ze_data entry))
      else case ze_failure entry of None \<Rightarrow> Inr (ze_data entry) | Some e \<Rightarrow> Inl e)"

fun read_entries ::
  "ext \<Rightarrow> formats \<Rightarrow> (string + zip_entry) list \<Rightarrow> nat \<Rightarrow> nat \<Rightarrow> TestResult list \<Rightarrow> string + TestResult list" where
  "read_entries E F [] xml_files total_xml results = Inr results"
| "read_entries E F (Inl e # rest) xml_files total_xml results = Inl e"
| "read_entries E F (Inr entry # rest) xml_files total_xml results =
     (if ze_is_dir entry \<or> \<not> ends_with (map to_ascii_lowercase (ze_name entry)) ''.xml''
      then read_entries E F rest xml_files total_xml results
      else if \<not> ze_enclosed entry then read_entries E F rest xml_files total_xml results
      else if Suc xml_files > MAX_XML_FILES_PER_ARCHIVE then Inl ''artifact contains too many XML files''
      else if ze_size entry > MAX_XML_BYTES_PER_FILE then read_entries E F rest (Suc xml_files) total_xml results
      else if total_xml + ze_size entry > MAX_XML_BYTES_PER_ARCHIVE
      then Inl ''artifact contains too much uncompressed XML''
      else case read_limited (MAX_XML_BYTES_PER_FILE + 1) entry of
        Inl e \<Rightarrow> Inl e
      | Inr xml \<Rightarrow>
          if length xml > MAX_XML_BYTES_PER_FILE
          then read_entries E F rest (Suc xml_files) (total_xml + ze_size entry) results
          else (case from_utf8 xml of
                  None \<Rightarrow> read_entries E F rest (Suc xml_files) (total_xml + ze_size entry) results
                | Some text \<Rightarrow>
                    read_entries E F rest (Suc xml_files) (total_xml + ze_size entry)
                      (results @ parse_document E F text)))"

definition parse_archive :: "ext \<Rightarrow> formats \<Rightarrow> u8 list \<Rightarrow> string + TestResult list" where
  "parse_archive E F bytes =
     (case open_zip F bytes of Inl e \<Rightarrow> Inl e | Inr entries \<Rightarrow> read_entries E F entries 0 0 [])"

section \<open>Capturing the tests of a run\<close>

record JunitCapture =
  jc_repository_id :: uuid
  jc_workflow_run_id :: uuid
  jc_owner :: string
  jc_name :: string
  jc_github_run_id :: int
  jc_executed_at :: timestamp

definition insert_results :: "TestResult list \<Rightarrow> (string \<times> TestResult) list \<Rightarrow> (string \<times> TestResult) list" where
  "insert_results parsed results = fold (\<lambda>r. AList.update (tt_test_key r) r) parsed results"

fun capture_artifacts ::
  "ext \<Rightarrow> formats \<Rightarrow> timestamp \<Rightarrow> string \<Rightarrow> (u8 list \<Rightarrow> u8 list list) \<Rightarrow> JunitCapture \<Rightarrow> GitHubArtifact list
     \<Rightarrow> (string \<times> TestResult) list \<Rightarrow> (string \<times> TestResult) list api" where
  "capture_artifacts E F now base chunks capture [] results n = Some (Inr results, n)"
| "capture_artifacts E F now base chunks capture (artifact # rest) results n =
     (case artifact_zip E now base chunks (jc_owner capture) (jc_name capture) (af_id artifact) n of
        None \<Rightarrow> None
      | Some (Inl e, n') \<Rightarrow> Some (Inl e, n')
      | Some (Inr None, n') \<Rightarrow> capture_artifacts E F now base chunks capture rest results n'
      | Some (Inr (Some bytes), n') \<Rightarrow>
          capture_artifacts E F now base chunks capture rest
            (case parse_archive E F bytes of Inl _ \<Rightarrow> results | Inr parsed \<Rightarrow> insert_results parsed results) n')"

definition test_key_of :: "test_result \<Rightarrow> uuid \<times> uuid option \<times> string" where
  "test_key_of r = (ts_workflow_run_id r, ts_workflow_job_id r, ts_test_key r)"

definition test_row :: "uuid \<Rightarrow> JunitCapture \<Rightarrow> TestResult \<Rightarrow> test_result" where
  "test_row i capture result =
     \<lparr>ts_id = i, ts_repository_id = jc_repository_id capture, ts_workflow_run_id = jc_workflow_run_id capture,
      ts_workflow_job_id = None, ts_test_key = tt_test_key result, ts_suite = tt_suite result,
      ts_classname = tt_classname result, ts_name = tt_name result, ts_status = tt_status result,
      ts_duration_ms = tt_duration_ms result, ts_failure_type = tt_failure_type result,
      ts_failure_message = tt_failure_message result, ts_executed_at = jc_executed_at capture\<rparr>"

definition merge_test :: "test_result \<Rightarrow> test_result \<Rightarrow> test_result" where
  "merge_test new old =
     old\<lparr>ts_suite := ts_suite new, ts_classname := ts_classname new, ts_name := ts_name new,
         ts_status := ts_status new, ts_duration_ms := ts_duration_ms new, ts_failure_type := ts_failure_type new,
         ts_failure_message := ts_failure_message new, ts_executed_at := ts_executed_at new\<rparr>"

definition put_test :: "JunitCapture \<Rightarrow> TestResult \<Rightarrow> unit tx" where
  "put_test capture result d =
     (if \<not> repository_known (jc_repository_id capture) d then Inl (Internal ''test_results_repository_id_fkey'')
      else if \<not> (\<exists>r\<in>set (workflow_runs d). wr_id r = jc_workflow_run_id capture)
      then Inl (Internal ''test_results_workflow_run_id_fkey'')
      else Inr ((), d\<lparr>next_id := Suc (next_id d),
             test_results := upsert test_key_of merge_test (test_row (next_id d) capture result) (test_results d)\<rparr>))"

fun store_tests :: "JunitCapture \<Rightarrow> TestResult list \<Rightarrow> unit tx" where
  "store_tests capture [] d = Inr ((), d)"
| "store_tests capture (r # rs) d =
     (case put_test capture r d of Inl e \<Rightarrow> Inl e | Inr (_, d') \<Rightarrow> store_tests capture rs d')"

text \<open>\<open>repository_token\<close> with the minting call it may make.\<close>

definition capture_token ::
  "ext \<Rightarrow> timestamp \<Rightarrow> string result \<Rightarrow> string \<Rightarrow> uuid \<Rightarrow> db \<Rightarrow> redis \<Rightarrow> net
     \<Rightarrow> (string option result \<times> redis \<times> net) option" where
  "capture_token E now jwt base repository_id d r n =
     (case repository_installation repository_id d of
        None \<Rightarrow> Some (Inr None, r, n)
      | Some i \<Rightarrow> map_option (map_prod (map_sum id Some) id) (cached_token E now jwt base i r n))"

definition wanted_artifacts :: "GitHubArtifact list \<Rightarrow> GitHubArtifact list" where
  "wanted_artifacts artifacts =
     take MAX_ARTIFACTS_PER_RUN
       (filter (\<lambda>a. \<not> af_expired a \<and> af_size_in_bytes a \<le> MAX_ARTIFACT_BYTES) artifacts)"

definition capture_run_tests ::
  "ext \<Rightarrow> formats \<Rightarrow> ((string \<times> TestResult) list \<Rightarrow> TestResult list) \<Rightarrow> timestamp \<Rightarrow> string result \<Rightarrow> string
     \<Rightarrow> (u8 list \<Rightarrow> u8 list list) \<Rightarrow> JunitCapture \<Rightarrow> db \<Rightarrow> redis \<Rightarrow> net \<Rightarrow> (unit result \<times> db \<times> redis \<times> net) option" where
  "capture_run_tests E F hash_values now jwt base chunks capture d r n =
     (case capture_token E now jwt base (jc_repository_id capture) d r n of
        None \<Rightarrow> None
      | Some (Inl e, r1, n1) \<Rightarrow> Some (Inl e, d, r1, n1)
      | Some (Inr None, r1, n1) \<Rightarrow> Some (Inr (), d, r1, n1)
      | Some (Inr (Some token), r1, n1) \<Rightarrow>
          (case run_artifacts E now base (jc_owner capture) (jc_name capture) (jc_github_run_id capture)
                  MAX_ARTIFACTS_PER_RUN n1 of
             None \<Rightarrow> None
           | Some (Inl e, n2) \<Rightarrow> Some (Inl e, d, r1, n2)
           | Some (Inr artifacts, n2) \<Rightarrow>
               (case capture_artifacts E F now base chunks capture (wanted_artifacts artifacts) [] n2 of
                  None \<Rightarrow> None
                | Some (Inl e, n3) \<Rightarrow> Some (Inl e, d, r1, n3)
                | Some (Inr results, n3) \<Rightarrow>
                    if results = [] then Some (Inr (), d, r1, n3)
                    else (case transact (store_tests capture (hash_values results)) d of
                            (res, d') \<Rightarrow> Some (res, d', r1, n3)))))"

section \<open>What a document contains\<close>

text \<open>The reference: every test case at every depth, with the name of its nearest named suite.\<close>

fun suite_tests :: "string option \<Rightarrow> TestSuite \<Rightarrow> (string option \<times> TestCase) list" where
  "suite_tests parent (TestSuite name cases suites) =
     (let s = coalesce name parent in map (Pair s) cases @ concat (map (suite_tests s) suites))"

definition results_of :: "ext \<Rightarrow> (string option \<times> TestCase) list \<Rightarrow> TestResult list" where
  "results_of E tests = List.map_filter (\<lambda>(s, c). case_result E s c) tests"

lemma results_of_append [simp]: "results_of E (xs @ ys) = results_of E xs @ results_of E ys"
  by (simp add: results_of_def map_filter_def)

lemma results_of_Nil [simp]: "results_of E [] = []"
  by (simp add: results_of_def map_filter_def)

lemma cases_fold:
  "fold (\<lambda>c acc. case case_result E s c of None \<Rightarrow> acc | Some r \<Rightarrow> acc @ [r]) cases results =
     results @ results_of E (map (Pair s) cases)"
  by (induction cases arbitrary: results) (auto simp: results_of_def map_filter_simps split: option.splits)

lemma fold_append: "(\<And>x acc. x \<in> set xs \<Longrightarrow> f x acc = acc @ g x) \<Longrightarrow> fold f xs acc = acc @ concat (map g xs)"
  by (induction xs arbitrary: acc) auto

lemma results_of_concat: "concat (map (\<lambda>x. results_of E (f x)) xs) = results_of E (concat (map f xs))"
  by (induction xs) auto

lemma collect_suite_reference: "collect_suite E suite parent results = results @ results_of E (suite_tests parent suite)"
proof (induction E suite parent results rule: collect_suite.induct)
  case (1 E name cases suites parent results)
  have "fold (\<lambda>child acc. collect_suite E child (coalesce name parent) acc) suites acc =
      acc @ concat (map (\<lambda>child. results_of E (suite_tests (coalesce name parent) child)) suites)" for acc
    by (rule fold_append) (use 1 in simp)
  then show ?case by (simp add: cases_fold results_of_concat Let_def)
qed

text \<open>The identity hashed into a test key separates its parts.\<close>

lemma split_at_nul: "CHR 0x00 \<notin> set a \<Longrightarrow> CHR 0x00 \<notin> set b \<Longrightarrow> a @ CHR 0x00 # s = b @ CHR 0x00 # t \<Longrightarrow> a = b \<and> s = t"
  by (induction a arbitrary: b; case_tac b) auto

section \<open>What an archive may cost\<close>

lemma from_utf8_length: "from_utf8 bs = Some s \<Longrightarrow> length s = length bs"
  by (auto simp: from_utf8_def split: if_splits)

lemma read_limited_length: "read_limited limit entry = Inr xml \<Longrightarrow> length xml \<le> length (ze_data entry)"
  by (auto simp: read_limited_def split: if_splits option.splits)

definition within_limits ::
  "ext \<Rightarrow> formats \<Rightarrow> nat \<Rightarrow> nat \<Rightarrow> (string + zip_entry) list \<Rightarrow> TestResult list \<Rightarrow> TestResult list \<Rightarrow> bool" where
  "within_limits E F xml_files total_xml entries results results' \<longleftrightarrow>
     (\<exists>files. results' = results @ concat (map (parse_document E F) files) \<and>
        xml_files + length files \<le> MAX_XML_FILES_PER_ARCHIVE \<and>
        (\<forall>text\<in>set files. length text \<le> MAX_XML_BYTES_PER_FILE) \<and>
        ((\<forall>entry. Inr entry \<in> set entries \<longrightarrow> length (ze_data entry) \<le> ze_size entry) \<longrightarrow>
           total_xml + sum_list (map length files) \<le> MAX_XML_BYTES_PER_ARCHIVE))"

lemma within_weaken:
  "within_limits E F xml_files' total' rest results results' \<Longrightarrow> xml_files \<le> xml_files' \<Longrightarrow> total_xml \<le> total' \<Longrightarrow>
     within_limits E F xml_files total_xml (entry # rest) results results'"
  unfolding within_limits_def by fastforce

lemma within_file:
  assumes "within_limits E F (Suc xml_files) (total_xml + ze_size entry) rest (results @ parse_document E F text) results'"
    and "from_utf8 xml = Some text" and "read_limited limit entry = Inr xml" and "length xml \<le> MAX_XML_BYTES_PER_FILE"
  shows "within_limits E F xml_files total_xml (Inr entry # rest) results results'"
proof -
  have "length text \<le> length (ze_data entry)" "length text \<le> MAX_XML_BYTES_PER_FILE"
    using from_utf8_length [OF assms(2)] read_limited_length [OF assms(3)] assms(4) by simp_all
  moreover obtain files where "results' = results @ concat (map (parse_document E F) (text # files))"
    "xml_files + length (text # files) \<le> MAX_XML_FILES_PER_ARCHIVE" "\<forall>text\<in>set files. length text \<le> MAX_XML_BYTES_PER_FILE"
    "(\<forall>entry. Inr entry \<in> set rest \<longrightarrow> length (ze_data entry) \<le> ze_size entry) \<longrightarrow>
       total_xml + ze_size entry + sum_list (map length files) \<le> MAX_XML_BYTES_PER_ARCHIVE"
    using assms(1) unfolding within_limits_def by auto
  ultimately show ?thesis unfolding within_limits_def by (intro exI [of _ "text # files"]) fastforce
qed

lemma read_entries_bounded:
  "read_entries E F entries xml_files total_xml results = Inr results' \<Longrightarrow> xml_files \<le> MAX_XML_FILES_PER_ARCHIVE \<Longrightarrow>
     total_xml \<le> MAX_XML_BYTES_PER_ARCHIVE \<Longrightarrow> within_limits E F xml_files total_xml entries results results'"
proof (induction entries arbitrary: xml_files total_xml results)
  case Nil
  then show ?case by (auto simp: within_limits_def intro!: exI [of _ "[]"])
next
  case (Cons item rest)
  show ?case
  proof (cases item)
    case (Inr entry)
    from Cons.prems show ?thesis unfolding Inr
      by (simp only: read_entries.simps split: if_splits sum.splits option.splits)
        (auto simp: not_less intro: within_weaken [OF Cons.IH] within_file [OF Cons.IH])
  qed (use Cons.prems in simp)
qed

section \<open>What a capture stores\<close>

interpretation test_table: keyed_table test_key_of ts_id "\<lambda>i r. r\<lparr>ts_id := i\<rparr>" merge_test "\<lambda>_. True"
  by unfold_locales (simp_all add: test_key_of_def merge_test_def)

definition tests_inv :: "db \<Rightarrow> bool" where
  "tests_inv d \<longleftrightarrow> table_ok test_key_of ts_id (next_id d) (test_results d)"

definition stored_test :: "uuid \<times> uuid option \<times> string \<Rightarrow> db \<Rightarrow> test_result option" where
  "stored_test key d = find (\<lambda>x. test_key_of x = key) (test_results d)"

text \<open>The stored row says what the result says; only its id and repository may be older.\<close>

definition row_says :: "JunitCapture \<Rightarrow> TestResult \<Rightarrow> test_result \<Rightarrow> bool" where
  "row_says capture result row \<longleftrightarrow>
     row = (test_row (ts_id row) capture result)\<lparr>ts_repository_id := ts_repository_id row\<rparr>"

definition result_key :: "JunitCapture \<Rightarrow> string \<Rightarrow> uuid \<times> uuid option \<times> string" where
  "result_key capture key = (jc_workflow_run_id capture, None, key)"

lemma test_key_row [simp]: "test_key_of (test_row i capture r) = result_key capture (tt_test_key r)"
  by (simp add: test_key_of_def test_row_def result_key_def)

definition test_frame :: "db \<Rightarrow> db \<Rightarrow> bool" where
  "test_frame d d' \<longleftrightarrow> d' = d\<lparr>next_id := next_id d', test_results := test_results d'\<rparr> \<and> next_id d \<le> next_id d'"

lemma test_frame_refl: "test_frame d d"
  by (simp add: test_frame_def)

lemma test_frame_trans: "test_frame a b \<Longrightarrow> test_frame b c \<Longrightarrow> test_frame a c"
  by (cases a; cases b; cases c) (auto simp: test_frame_def)

lemma put_test_run:
  assumes "put_test capture r d = Inr (u, d')"
  shows "d' = d\<lparr>next_id := Suc (next_id d),
      test_results := upsert test_key_of merge_test (test_row (next_id d) capture r) (test_results d)\<rparr>"
  using assms by (auto simp: put_test_def split: if_splits)

lemma put_test_frame: "put_test capture r d = Inr (u, d') \<Longrightarrow> test_frame d d'"
  by (drule put_test_run) (simp add: test_frame_def)

lemma put_test_inv: "tests_inv d \<Longrightarrow> put_test capture r d = Inr (u, d') \<Longrightarrow> tests_inv d'"
  by (drule put_test_run) (simp add: tests_inv_def test_table.upsert_ok test_row_def)

lemma put_test_other:
  "put_test capture r d = Inr (u, d') \<Longrightarrow> key \<noteq> result_key capture (tt_test_key r) \<Longrightarrow> stored_test key d' = stored_test key d"
  by (drule put_test_run) (simp add: stored_test_def test_table.upsert_lookup_other)

lemma merge_says: "test_key_of old = result_key capture (tt_test_key r) \<Longrightarrow> row_says capture r (merge_test (test_row i capture r) old)"
  by (cases old) (simp add: row_says_def merge_test_def test_row_def test_key_of_def result_key_def)

lemma put_test_same:
  assumes "put_test capture r d = Inr (u, d')"
  shows "\<exists>row. stored_test (result_key capture (tt_test_key r)) d' = Some row \<and> row_says capture r row"
proof -
  have "row_says capture r (test_row i capture r)" for i by (simp add: row_says_def test_row_def)
  then show ?thesis
    using test_table.upsert_lookup [of "test_row (next_id d) capture r" "test_results d"] put_test_run [OF assms]
    by (auto simp: stored_test_def intro: merge_says split: option.splits dest!: find_SomeD)
qed

lemma store_tests_run:
  assumes "store_tests capture rs d = Inr (u, d')" and "tests_inv d" and "distinct (map tt_test_key rs)"
  shows "tests_inv d' \<and> test_frame d d' \<and>
    (\<forall>r\<in>set rs. \<exists>row. stored_test (result_key capture (tt_test_key r)) d' = Some row \<and> row_says capture r row) \<and>
    (\<forall>key. key \<notin> result_key capture ` tt_test_key ` set rs \<longrightarrow> stored_test key d' = stored_test key d)"
  using assms
proof (induction rs arbitrary: d)
  case Nil
  then show ?case by (simp add: test_frame_refl)
next
  case (Cons r rs)
  from Cons.prems(1) obtain v d1 where put: "put_test capture r d = Inr (v, d1)" and rest: "store_tests capture rs d1 = Inr (u, d')"
    by (auto split: sum.splits)
  from Cons.IH [OF rest put_test_inv [OF Cons.prems(2) put]] Cons.prems(3)
  have ih: "tests_inv d'" "test_frame d1 d'"
    "\<forall>r\<in>set rs. \<exists>row. stored_test (result_key capture (tt_test_key r)) d' = Some row \<and> row_says capture r row"
    "\<And>key. key \<notin> result_key capture ` tt_test_key ` set rs \<Longrightarrow> stored_test key d' = stored_test key d1" by auto
  have "result_key capture (tt_test_key r) \<notin> result_key capture ` tt_test_key ` set rs"
    using Cons.prems(3) by (auto simp: result_key_def)
  with ih(4) put_test_same [OF put]
  have "\<exists>row. stored_test (result_key capture (tt_test_key r)) d' = Some row \<and> row_says capture r row" by auto
  with ih test_frame_trans [OF put_test_frame [OF put] ih(2)] put_test_other [OF put] show ?case by auto
qed

text \<open>Storing what is stored changes no row, in whatever order the results come.\<close>

definition settled :: "JunitCapture \<Rightarrow> TestResult \<Rightarrow> db \<Rightarrow> bool" where
  "settled capture r d \<longleftrightarrow> (\<exists>row. stored_test (result_key capture (tt_test_key r)) d = Some row \<and> row_says capture r row)"

lemma put_test_settled:
  assumes "settled capture r d" and "tests_inv d" and "put_test capture r d = Inr (u, d')"
  shows "test_results d' = test_results d"
proof -
  from assms(1) obtain row where row: "row \<in> set (test_results d)" "test_key_of row = result_key capture (tt_test_key r)"
    "row_says capture r row" by (auto simp: settled_def stored_test_def dest!: find_SomeD)
  have uniq: "x = row" if "x \<in> set (test_results d)" "test_key_of x = result_key capture (tt_test_key r)" for x
    using that row assms(2) distinct_key_unique [of test_key_of "test_results d" x row] by (simp add: tests_inv_def table_ok_def)
  have "merge_test (test_row i capture r) row = row" for i
    by (subst (2) row(3) [unfolded row_says_def], subst row(3) [unfolded row_says_def]) (simp add: merge_test_def test_row_def)
  with uniq have "upd_where (\<lambda>x. test_key_of x = result_key capture (tt_test_key r)) (merge_test (test_row i capture r)) (test_results d) =
      test_results d" for i
    by (intro upd_where_id) metis
  with row(1,2) show ?thesis by (auto simp: put_test_run [OF assms(3)] upsert_def)
qed

lemma store_tests_settled:
  "store_tests capture rs d = Inr (u, d') \<Longrightarrow> tests_inv d \<Longrightarrow> (\<And>r. r \<in> set rs \<Longrightarrow> settled capture r d) \<Longrightarrow>
     test_results d' = test_results d"
proof (induction rs arbitrary: d)
  case (Cons r rs)
  from Cons.prems(1) obtain v d1 where put: "put_test capture r d = Inr (v, d1)" and rest: "store_tests capture rs d1 = Inr (u, d')"
    by (auto split: sum.splits)
  have same: "test_results d1 = test_results d" using put_test_settled [OF _ Cons.prems(2) put] Cons.prems(3) by simp
  moreover have "test_results d' = test_results d1"
    by (rule Cons.IH [OF rest put_test_inv [OF Cons.prems(2) put]])
      (use Cons.prems(3) same in \<open>simp add: settled_def stored_test_def\<close>)
  ultimately show ?case by simp
qed simp

text \<open>The reference for the download loop: everything the readable archives contain, in order.\<close>

fun gathered ::
  "ext \<Rightarrow> formats \<Rightarrow> timestamp \<Rightarrow> string \<Rightarrow> (u8 list \<Rightarrow> u8 list list) \<Rightarrow> JunitCapture \<Rightarrow> GitHubArtifact list \<Rightarrow> net \<Rightarrow> TestResult list" where
  "gathered E F now base chunks capture [] n = []"
| "gathered E F now base chunks capture (artifact # rest) n =
     (case artifact_zip E now base chunks (jc_owner capture) (jc_name capture) (af_id artifact) n of
        Some (Inr None, n') \<Rightarrow> gathered E F now base chunks capture rest n'
      | Some (Inr (Some bytes), n') \<Rightarrow>
          (case parse_archive E F bytes of Inl _ \<Rightarrow> [] | Inr parsed \<Rightarrow> parsed) @ gathered E F now base chunks capture rest n'
      | _ \<Rightarrow> [])"

lemma insert_results_append: "insert_results (xs @ ys) results = insert_results ys (insert_results xs results)"
  by (simp add: insert_results_def)

lemma capture_artifacts_gathered:
  "capture_artifacts E F now base chunks capture artifacts results n = Some (Inr results', n') \<Longrightarrow>
     results' = insert_results (gathered E F now base chunks capture artifacts n) results"
proof (induction artifacts arbitrary: results n)
  case Nil
  then show ?case by (simp add: insert_results_def)
next
  case (Cons artifact rest)
  then show ?case
    by (auto simp: insert_results_append insert_results_def [of "[]"] dest: Cons.IH split: option.splits sum.splits prod.splits)
qed

lemma insert_results_lookup:
  "map_of (insert_results parsed results) key =
     (case find (\<lambda>r. tt_test_key r = key) (rev parsed) of None \<Rightarrow> map_of results key | Some r \<Rightarrow> Some r)"
proof (induction parsed rule: rev_induct)
  case (snoc r rs)
  have "insert_results (rs @ [r]) results = AList.update (tt_test_key r) r (insert_results rs results)"
    by (simp add: insert_results_def)
  with snoc show ?case by (simp add: AList.update_conv')
qed (simp add: insert_results_def)

definition keyed :: "(string \<times> TestResult) list \<Rightarrow> bool" where
  "keyed results \<longleftrightarrow> distinct (map fst results) \<and> (\<forall>p\<in>set results. fst p = tt_test_key (snd p))"

lemma set_update_cases: "p \<in> set (AList.update k v xs) \<Longrightarrow> p = (k, v) \<or> p \<in> set xs"
  by (induction xs) (auto split: if_splits)

lemma keyed_insert: "keyed results \<Longrightarrow> keyed (insert_results parsed results)"
proof (induction parsed rule: rev_induct)
  case (snoc r rs)
  have "insert_results (rs @ [r]) results = AList.update (tt_test_key r) r (insert_results rs results)"
    by (simp add: insert_results_def)
  moreover have "keyed (AList.update (tt_test_key r) r xs)" if "keyed xs" for xs
    using that unfolding keyed_def by (auto simp: AList.distinct_update dest!: set_update_cases)
  ultimately show ?case using snoc by simp
qed (simp add: insert_results_def)

lemma keyed_values:
  assumes "keyed results" and "mset vs = mset (map snd results)"
  shows "distinct (map tt_test_key vs) \<and> (\<forall>r. r \<in> set vs \<longleftrightarrow> map_of results (tt_test_key r) = Some r)"
proof -
  have keys: "map fst results = map (\<lambda>p. tt_test_key (snd p)) results"
    using assms(1) by (simp add: keyed_def)
  have "mset (map tt_test_key vs) = mset (map fst results)"
    unfolding keys using arg_cong [OF assms(2), of "image_mset tt_test_key"] by (simp add: image_mset.compositionality comp_def)
  then have "distinct (map tt_test_key vs)" using assms(1) unfolding keyed_def by (metis mset_eq_imp_distinct_iff)
  moreover have "set vs = snd ` set results" using arg_cong [OF assms(2), of set_mset] by simp
  then have "r \<in> set vs \<longleftrightarrow> map_of results (tt_test_key r) = Some r" for r
    using assms(1) unfolding keyed_def by (force simp: map_of_eq_Some_iff)
  ultimately show ?thesis by blast
qed

text \<open>
  The rows of a run say what a list of results says, the last result of each test counting;
  every other row is as before.
\<close>

definition stores_exactly :: "JunitCapture \<Rightarrow> TestResult list \<Rightarrow> db \<Rightarrow> db \<Rightarrow> bool" where
  "stores_exactly capture parsed d d' \<longleftrightarrow>
     (\<forall>key. case find (\<lambda>x. tt_test_key x = key) (rev parsed) of
        None \<Rightarrow> stored_test (result_key capture key) d' = stored_test (result_key capture key) d
      | Some x \<Rightarrow> \<exists>row. stored_test (result_key capture key) d' = Some row \<and> row_says capture x row) \<and>
     (\<forall>key. key \<notin> range (result_key capture) \<longrightarrow> stored_test key d' = stored_test key d)"

lemma stores_nothing: "stores_exactly capture [] d d"
  by (simp add: stores_exactly_def)

lemma insert_results_Nil: "insert_results parsed [] = [] \<longleftrightarrow> parsed = []"
  by (induction parsed rule: rev_induct) (simp_all add: insert_results_def)

lemma store_results_exact:
  assumes inv: "tests_inv d" and hash: "\<And>xs. mset (hash_values xs) = mset (map snd xs)"
    and run: "store_tests capture (hash_values (insert_results parsed [])) d = Inr (u, d')"
  shows "tests_inv d' \<and> test_frame d d' \<and> stores_exactly capture parsed d d'"
proof -
  let ?vs = "hash_values (insert_results parsed [])"
  have "keyed (insert_results parsed [])" by (rule keyed_insert) (simp add: keyed_def)
  note vals = keyed_values [OF this hash]
  note store = store_tests_run [OF run inv conjunct1 [OF vals]]
  have look: "map_of (insert_results parsed []) key = find (\<lambda>x. tt_test_key x = key) (rev parsed)" for key
    unfolding insert_results_lookup by (simp split: option.splits)
  have "\<exists>row. stored_test (result_key capture key) d' = Some row \<and> row_says capture x row"
    if x: "find (\<lambda>x. tt_test_key x = key) (rev parsed) = Some x" for key x
  proof -
    from find_SomeD [OF x] have "tt_test_key x = key" by simp
    moreover from this look [of key] x vals have "x \<in> set ?vs" by simp
    ultimately show ?thesis using store by blast
  qed
  moreover have "stored_test (result_key capture key) d' = stored_test (result_key capture key) d"
    if none: "find (\<lambda>x. tt_test_key x = key) (rev parsed) = None" for key
  proof -
    have "result_key capture key \<notin> result_key capture ` tt_test_key ` set ?vs"
      using none look [of key] vals by (auto simp: result_key_def)
    with store show ?thesis by blast
  qed
  moreover have "stored_test key d' = stored_test key d" if "key \<notin> range (result_key capture)" for key
  proof -
    have "key \<notin> result_key capture ` tt_test_key ` set ?vs" using that by auto
    with store show ?thesis by blast
  qed
  ultimately have "stores_exactly capture parsed d d'" unfolding stores_exactly_def by (simp split: option.split)
  with store show ?thesis by blast
qed

section \<open>Properties\<close>

text \<open>
  C32. A capture stores exactly what the run's archives say. Whatever the order in which the hash
  map is walked, afterwards the run has one row for every test that a readable archive of a
  wanted artifact mentions, and that row carries the last result for the test (artifacts oldest
  first, a retry within the run collapses to its final outcome); every other row of the table
  and every other table is as it was, and keys stay unique.
\<close>

theorem captured_tests_exact:
  assumes inv: "tests_inv d" and hash: "\<And>xs. mset (hash_values xs) = mset (map snd xs)"
    and run: "capture_run_tests E F hash_values now jwt base chunks capture d r n = Some (Inr (), d', r', n')"
  shows "tests_inv d' \<and> test_frame d d' \<and>
    (case capture_token E now jwt base (jc_repository_id capture) d r n of
       Some (Inr None, r1, n1) \<Rightarrow> d' = d
     | Some (Inr (Some token), r1, n1) \<Rightarrow>
         (\<exists>artifacts n2. run_artifacts E now base (jc_owner capture) (jc_name capture) (jc_github_run_id capture)
              MAX_ARTIFACTS_PER_RUN n1 = Some (Inr artifacts, n2) \<and>
            stores_exactly capture (gathered E F now base chunks capture (wanted_artifacts artifacts) n2) d d')
     | _ \<Rightarrow> False)"
proof (cases "capture_token E now jwt base (jc_repository_id capture) d r n")
  case (Some t)
  obtain tok r1 n1 where t: "capture_token E now jwt base (jc_repository_id capture) d r n = Some (tok, r1, n1)"
    using Some by (cases t) auto
  show ?thesis
  proof (cases "\<exists>token. tok = Inr (Some token)")
    case False
    then have tok: "tok = Inr None" and "d' = d" using run t by (auto simp: capture_run_tests_def split: sum.splits option.splits)
    then show ?thesis using inv t by (simp add: test_frame_refl)
  next
    case True
    then obtain token artifacts n2 results where tok: "tok = Inr (Some token)"
      and arts: "run_artifacts E now base (jc_owner capture) (jc_name capture) (jc_github_run_id capture)
         MAX_ARTIFACTS_PER_RUN n1 = Some (Inr artifacts, n2)"
      and cap: "capture_artifacts E F now base chunks capture (wanted_artifacts artifacts) [] n2 = Some (Inr results, n')"
      and rest: "results = [] \<and> d' = d \<or> store_tests capture (hash_values results) d = Inr ((), d')"
      using run t by (auto simp: capture_run_tests_def transact_def split: option.splits sum.splits prod.splits if_splits)
    let ?parsed = "gathered E F now base chunks capture (wanted_artifacts artifacts) n2"
    have results: "results = insert_results ?parsed []" using capture_artifacts_gathered [OF cap] .
    have "tests_inv d' \<and> test_frame d d' \<and> stores_exactly capture ?parsed d d'"
      using rest
    proof
      assume "results = [] \<and> d' = d"
      with inv show ?thesis by (simp add: results insert_results_Nil stores_nothing test_frame_refl)
    qed (use store_results_exact [OF inv hash] results in simp)
    with arts t tok show ?thesis by auto
  qed
qed (use run in \<open>simp add: capture_run_tests_def\<close>)



lemma read_same_entries:
  assumes "ze_is_dir entry = False" "ends_with (map to_ascii_lowercase (ze_name entry)) ''.xml''" "ze_enclosed entry"
    and "ze_size entry = 0" "ze_failure entry = None" "length (ze_data entry) \<le> MAX_XML_BYTES_PER_FILE"
    and "from_utf8 (ze_data entry) = Some text"
  shows "xml_files + k \<le> MAX_XML_FILES_PER_ARCHIVE \<Longrightarrow> total_xml \<le> MAX_XML_BYTES_PER_ARCHIVE \<Longrightarrow>
    read_entries E F (replicate k (Inr entry)) xml_files total_xml results =
      Inr (results @ concat (replicate k (parse_document E F text)))"
proof (induction k arbitrary: xml_files results)
  case (Suc k)
  have "read_limited (MAX_XML_BYTES_PER_FILE + 1) entry = Inr (ze_data entry)"
    using assms by (simp add: read_limited_def)
  with Suc assms show ?case by simp
qed simp

text \<open>
  The 50 MiB limit of an archive counts the sizes its headers declare, not the bytes that are
  read: 500 files of 10 MiB that declare no size pass, a hundred times the limit.
\<close>

theorem declared_sizes_are_trusted:
  assumes "open_zip F bytes = Inr (replicate 500 (Inr \<lparr>ze_is_dir = False, ze_name = ''t.xml'', ze_enclosed = True, ze_size = 0,
      ze_data = body, ze_failure = None\<rparr>))"
    and "length body = MAX_XML_BYTES_PER_FILE" and "from_utf8 body = Some text"
  shows "parse_archive E F bytes = Inr (concat (replicate 500 (parse_document E F text))) \<and>
    500 * length text = 100 * MAX_XML_BYTES_PER_ARCHIVE"
proof -
  let ?entry = "\<lparr>ze_is_dir = False, ze_name = ''t.xml'', ze_enclosed = True, ze_size = 0, ze_data = body, ze_failure = None\<rparr>"
  have "read_entries E F (replicate 500 (Inr ?entry)) 0 0 [] = Inr ([] @ concat (replicate 500 (parse_document E F text)))"
    by (rule read_same_entries)
      (use assms(2,3) in \<open>simp_all add: ends_with_def to_ascii_lowercase_def is_ascii_uppercase_def MAX_XML_FILES_PER_ARCHIVE_def\<close>)
  moreover have "length text = MAX_XML_BYTES_PER_FILE" using from_utf8_length [OF assms(3)] assms(2) by simp
  ultimately show ?thesis
    using assms(1) by (simp add: parse_archive_def MAX_XML_BYTES_PER_FILE_def MAX_XML_BYTES_PER_ARCHIVE_def)
qed

lemma digits_value_nonneg: "list_all is_ascii_digit ds \<Longrightarrow> 0 \<le> digits_value ds"
proof -
  have "list_all is_ascii_digit ds \<Longrightarrow> 0 \<le> acc \<Longrightarrow> 0 \<le> foldl (\<lambda>acc c. acc * 10 + digit_value c) acc ds" for acc
    by (induction ds arbitrary: acc) (auto simp: digit_value_def is_ascii_digit_def)
  then show "list_all is_ascii_digit ds \<Longrightarrow> 0 \<le> digits_value ds" by (simp add: digits_value_def)
qed

lemma parse_three_decimals:
  assumes "list_all is_ascii_digit whole" "list_all is_ascii_digit fraction" "whole \<noteq> []"
  shows "parse_f64 (whole @ CHR ''.'' # fraction) =
    Some (to_f64 (of_int (digits_value (whole @ fraction)) * 10 powi (- int (length fraction))))"
proof -
  obtain c cs where w: "whole = c # cs" using assms(3) by (cases whole) auto
  have c: "is_ascii_digit c" using assms(1) w by simp
  then have first: "c \<noteq> CHR ''-''" "c \<noteq> CHR ''+''" "to_ascii_lowercase c \<noteq> CHR ''i''" "to_ascii_lowercase c \<noteq> CHR ''n''"
    by (auto simp: is_ascii_digit_def to_ascii_lowercase_def is_ascii_uppercase_def)
  have "\<not> is_ascii_digit CHR ''.''" by (simp add: is_ascii_digit_def)
  then have w1: "takeWhile is_ascii_digit (whole @ CHR ''.'' # fraction) = whole"
    and w2: "dropWhile is_ascii_digit (whole @ CHR ''.'' # fraction) = CHR ''.'' # fraction"
    using assms(1) by (simp_all add: list_all_iff takeWhile_append dropWhile_append)
  have f1: "takeWhile is_ascii_digit fraction = fraction" and f2: "dropWhile is_ascii_digit fraction = []"
    using assms(2) by (simp_all add: list_all_iff takeWhile_eq_all_conv dropWhile_eq_Nil_conv)
  have "parse_decimal (whole @ CHR ''.'' # fraction) =
      Some (of_int (digits_value (whole @ fraction)) * 10 powi (- int (length fraction)))"
    using assms(3) by (simp add: parse_decimal_def Let_def w1 w2 f1 f2)
  then show ?thesis using first by (simp add: parse_f64_def w)
qed

text \<open>
  C35. A duration written with three decimals is stored to the millisecond: although the text goes
  through binary floating point twice, once parsed and once multiplied, every such text below
  \<open>2\<^sup>5\<^sup>0\<close> milliseconds comes out as the exact number of milliseconds it spells.
\<close>

theorem durations_exact:
  assumes "list_all is_ascii_digit whole" and "whole \<noteq> []" and "list_all is_ascii_digit fraction" and "length fraction = 3"
    and "digits_value (whole @ fraction) < 2 ^ 50"
  shows "seconds_to_millis (whole @ ''.'' @ fraction) = Some (digits_value (whole @ fraction))"
proof -
  have "0 \<le> digits_value (whole @ fraction)" using assms(1,3) by (intro digits_value_nonneg) simp
  from millis_exact [OF this assms(5)] obtain v where v: "to_f64 (of_int (digits_value (whole @ fraction)) / 1000) = Finite v"
    "0 \<le> v" "as_i64_sat (f64_round (f64_mul (Finite v) (Finite 1000))) = digits_value (whole @ fraction)" by blast
  have "(10::rat) powi (- int (length fraction)) = 1 / 1000" by (simp add: assms(4) power_int_minus)
  with parse_three_decimals [OF assms(1,3,2)] v(1) have "parse_f64 (whole @ ''.'' @ fraction) = Some (Finite v)" by simp
  with v show ?thesis by (simp add: seconds_to_millis_def)
qed

section \<open>Examples\<close>

theorem durations_exact_witness: "seconds_to_millis ''0.012'' = Some 12"
  using durations_exact [of "''0''" "''012''"] by (simp add: is_ascii_digit_def digits_value_def digit_value_def)

definition demo_entry :: "u8 list \<Rightarrow> nat \<Rightarrow> zip_entry" where
  "demo_entry body declared = \<lparr>ze_is_dir = False, ze_name = ''t.xml'', ze_enclosed = True, ze_size = declared,
     ze_data = body, ze_failure = None\<rparr>"

definition demo_case :: TestCase where
  "demo_case = \<lparr>tc_name = Some ''adds'', tc_classname = None, tc_time = None, tc_failure = None, tc_error = None, tc_skipped = None\<rparr>"

definition demo_formats :: "(string + zip_entry) list \<Rightarrow> formats" where
  "demo_formats entries =
     \<lparr>open_zip = (\<lambda>_. Inr entries), xml_suites = (\<lambda>_. None), xml_suite = (\<lambda>_. Some (TestSuite (Some ''unit'') [demo_case] []))\<rparr>"

lemma demo_xml_name: "ends_with (map to_ascii_lowercase ''t.xml'') ''.xml''"
  by (simp add: ends_with_def to_ascii_lowercase_def is_ascii_uppercase_def)

lemma demo_document:
  "parse_document E (demo_formats entries) xml = [the (case_result E (Some ''unit'') demo_case)]"
  by (simp add: parse_document_def demo_formats_def case_result_def demo_case_def Let_def split: prod.splits)

lemma demo_archive:
  "parse_archive E (demo_formats [Inr (demo_entry [60] 1)]) bytes = Inr [the (case_result E (Some ''unit'') demo_case)]"
proof -
  have "from_utf8 [60] \<noteq> None" by (simp add: from_utf8_def in_range_def)
  then obtain t where t: "from_utf8 [60] = Some t" by blast
  have "read_limited (MAX_XML_BYTES_PER_FILE + 1) (demo_entry [60] 1) = Inr [60]"
    by (simp add: read_limited_def demo_entry_def MAX_XML_BYTES_PER_FILE_def)
  with t have "read_entries E F [Inr (demo_entry [60] 1)] 0 0 [] = Inr (parse_document E F t)" for F
    using demo_xml_name by (simp add: MAX_XML_FILES_PER_ARCHIVE_def MAX_XML_BYTES_PER_FILE_def MAX_XML_BYTES_PER_ARCHIVE_def)
      (simp add: demo_entry_def)
  moreover have "open_zip (demo_formats entries) bytes = Inr entries" for entries by (simp add: demo_formats_def)
  ultimately show ?thesis by (simp add: parse_archive_def demo_document)
qed


theorem declared_sizes_are_trusted_witness:
  "\<exists>F body. open_zip F [] = Inr (replicate 500 (Inr (demo_entry body 0))) \<and> length body = MAX_XML_BYTES_PER_FILE \<and>
     parse_archive demo_ext F [] = Inr (replicate 500 (the (case_result demo_ext (Some ''unit'') demo_case)))"
proof -
  define body :: "u8 list" where "body = replicate MAX_XML_BYTES_PER_FILE 60"
  define F where "F = demo_formats (replicate 500 (Inr (demo_entry body 0)))"
  have "utf8_valid (replicate k 60)" for k by (induction k) (simp_all add: in_range_def)
  then obtain t where t: "from_utf8 body = Some t" by (simp add: from_utf8_def body_def)
  have zip: "open_zip F [] = Inr (replicate 500 (Inr (demo_entry body 0)))" by (simp add: F_def demo_formats_def)
  have len: "length body = MAX_XML_BYTES_PER_FILE" by (simp add: body_def)
  from declared_sizes_are_trusted [OF zip [unfolded demo_entry_def] len t, of demo_ext]
  have "parse_archive demo_ext F [] = Inr (replicate 500 (the (case_result demo_ext (Some ''unit'') demo_case)))"
    unfolding F_def demo_document by (simp add: concat_replicate_single)
  with zip len show ?thesis by blast
qed

definition junit_db :: db where
  "junit_db = demo_repo_db\<lparr>
     organizations := [\<lparr>o_id = 2, o_slug = ''o'', o_name = ''O'', o_kind = Personal, o_github_installation_id = Some 55,
       o_created_by = None, o_created_at = 0, o_deleted_at = None\<rparr>],
     workflow_runs := [run_row 8 1 ''main'' None None None demo_run]\<rparr>"

definition junit_ext :: ext where
  "junit_ext = demo_ext\<lparr>json_from_slice := (\<lambda>bs. if bs = [1] then Some (JObj [(''artifacts'', JArr [JObj [(''id'', JInt 5),
     (''name'', JStr ''junit''), (''size_in_bytes'', JInt 10), (''created_at'', JStr ''t'')]])]) else None)\<rparr>"

definition junit_capture :: JunitCapture where
  "junit_capture = \<lparr>jc_repository_id = 1, jc_workflow_run_id = 8, jc_owner = ''o'', jc_name = ''n'', jc_github_run_id = 500,
     jc_executed_at = 3\<rparr>"

definition junit_net :: net where
  "junit_net = \<lparr>replies = [Inr \<lparr>hr_status = 200, hr_headers = Map.empty, hr_body = Some [1], hr_content_length = None\<rparr>,
     Inr \<lparr>hr_status = 200, hr_headers = Map.empty, hr_body = Some [2], hr_content_length = None\<rparr>], sent = []\<rparr>"

abbreviation junit_formats :: formats where
  "junit_formats \<equiv> demo_formats [Inr (demo_entry [60] 1)]"

lemma junit_token:
  "capture_token junit_ext 1 jwt base 1 junit_db (r_set_ex 0 60 (cache_key 55) ''ghs'' Map.empty) n =
     Some (Inr (Some ''ghs''), r_set_ex 0 60 (cache_key 55) ''ghs'' Map.empty, n)"
proof -
  have "repository_installation 1 junit_db = Some 55"
    by (simp add: repository_installation_def organization_installation_id_def junit_db_def demo_repo_db_def demo_repository_def)
  moreover have "r_get 1 (cache_key 55) (r_set_ex 0 60 (cache_key 55) ''ghs'' Map.empty) = Some ''ghs''"
    by (simp add: r_get_def live_def r_set_ex_def is_live_def seconds_def)
  ultimately show ?thesis by (simp add: capture_token_def cached_token_def)
qed

lemma junit_artifacts:
  "replies n = replies junit_net \<Longrightarrow>
     \<exists>a n'. run_artifacts junit_ext 1 ''b'' ''o'' ''n'' 500 MAX_ARTIFACTS_PER_RUN n = Some (Inr [a], n') \<and>
     wanted_artifacts [a] = [a] \<and> replies n' = tl (replies junit_net)"
  by (simp add: run_artifacts_def at_endpoint_def endpoint_def junit_ext_def demo_ext_def page_envelope_def send_def
      junit_net_def envelope_of_def is_success_def read_json_def de_GitHubArtifactsPage_def de_GitHubArtifact_def de_required_def
      de_default_def is_i64_def order_by_def wanted_artifacts_def MAX_ARTIFACTS_PER_RUN_def MAX_ARTIFACT_BYTES_def Let_def header_text_def)

lemma junit_download:
  "replies n = tl (replies junit_net) \<Longrightarrow>
     \<exists>n'. artifact_zip junit_ext 1 ''b'' (\<lambda>b. [b]) ''o'' ''n'' i n = Some (Inr (Some [2]), n')"
  by (simp add: artifact_zip_def at_endpoint_def endpoint_def junit_ext_def demo_ext_def download_def send_def junit_net_def
      is_success_def read_artifact_def MAX_ARTIFACT_DOWNLOAD_BYTES_def)

theorem captured_tests_exact_witness:
  "\<exists>d' r' n' row. capture_run_tests junit_ext junit_formats (map snd) 1 (Inr []) ''b'' (\<lambda>b. [b]) junit_capture junit_db
      (r_set_ex 0 60 (cache_key 55) ''ghs'' Map.empty) junit_net = Some (Inr (), d', r', n') \<and>
     tests_inv d' \<and> test_results d' = [row] \<and> ts_status row = ''passed''"
proof -
  let ?r = "r_set_ex 0 60 (cache_key 55) ''ghs'' Map.empty"
  let ?x = "the (case_result junit_ext (Some ''unit'') demo_case)"
  obtain a n1 where a: "run_artifacts junit_ext 1 ''b'' ''o'' ''n'' 500 MAX_ARTIFACTS_PER_RUN junit_net = Some (Inr [a], n1)"
    "wanted_artifacts [a] = [a]" "replies n1 = tl (replies junit_net)" using junit_artifacts [OF refl] by blast
  obtain n2 where n2: "artifact_zip junit_ext 1 ''b'' (\<lambda>b. [b]) ''o'' ''n'' (af_id a) n1 = Some (Inr (Some [2]), n2)"
    using junit_download [OF a(3)] by blast
  have x: "tt_status ?x = ''passed''" by (simp add: case_result_def demo_case_def case_outcome_def)
  have put: "\<exists>d'. put_test junit_capture ?x junit_db = Inr ((), d') \<and> test_results d' = [test_row 10 junit_capture ?x]"
    by (simp add: put_test_def junit_db_def demo_repo_db_def repository_known_def junit_capture_def demo_repository_def run_row_def
        upsert_def empty_db_def)
  then obtain d' where d': "put_test junit_capture ?x junit_db = Inr ((), d')" "test_results d' = [test_row 10 junit_capture ?x]" by blast
  have run: "capture_run_tests junit_ext junit_formats (map snd) 1 (Inr []) ''b'' (\<lambda>b. [b]) junit_capture junit_db ?r junit_net =
      Some (Inr (), d', ?r, n2)"
    using a n2 d'(1) junit_token [of "Inr []" "''b''" junit_net]
    by (simp add: capture_run_tests_def junit_capture_def demo_archive [simplified] insert_results_def transact_def)
  have inv: "tests_inv junit_db" by (simp add: tests_inv_def junit_db_def demo_repo_db_def empty_db_def)
  from captured_tests_exact [OF inv _ run] have "tests_inv d'" by simp
  moreover have "ts_status (test_row 10 junit_capture ?x) = ''passed''" using x by (simp add: test_row_def)
  ultimately show ?thesis using run d'(2) by blast
qed

end
