(* ===== verification/Run_Capture.thy ===== *)
theory Run_Capture
  imports Webhooks JUnit
begin

text \<open>
  What happens after a completed run was committed: the background task of
  \<^verbatim>\<open>gateway/src/webhooks.rs\<close> (\<open>apply_delivery\<close>, \<open>store_run_logs\<close>) that downloads the log
  archive, puts it into the object store of \<^verbatim>\<open>gateway/src/logs.rs\<close>, records it, and then reads
  the test results. The S3 client is a parameter: its answer to a put, and whether an object
  arrived although the answer was not a success.
\<close>

section \<open>The object store\<close>

record log_store =
  ls_bucket :: string
  ls_answer :: "string \<Rightarrow> u8 list \<Rightarrow> string \<Rightarrow> string + nat"
  ls_arrived :: "string \<Rightarrow> u8 list \<Rightarrow> bool"

type_synonym objects = "string \<rightharpoonup> u8 list"

definition log_put :: "log_store \<Rightarrow> string \<Rightarrow> u8 list \<Rightarrow> string \<Rightarrow> objects \<Rightarrow> (string + unit) \<times> objects" where
  "log_put S key bytes content_type objs =
     (let stray = (if ls_arrived S key bytes then objs(key \<mapsto> bytes) else objs)
      in case ls_answer S key bytes content_type of
           Inl e \<Rightarrow> (Inl (''s3 put '' @ key @ '': '' @ e), stray)
         | Inr status \<Rightarrow>
             if \<not> (200 \<le> status \<and> status < 300)
             then (Inl (''s3 put '' @ key @ '' returned status '' @ show_nat status), stray)
             else (Inr (), objs(key \<mapsto> bytes)))"

section \<open>Logs\<close>

definition object_key :: "ext \<Rightarrow> LogCapture \<Rightarrow> string" where
  "object_key E capture =
     ''logs/'' @ show_uuid E (lc_repository_id capture) @ ''/'' @ show_int (lc_github_run_id capture) @
     ''/attempt-'' @ show_int (lc_run_attempt capture) @ ''/run.zip''"

definition log_row :: "ext \<Rightarrow> log_store \<Rightarrow> timestamp \<Rightarrow> uuid \<Rightarrow> LogCapture \<Rightarrow> u8 list \<Rightarrow> build_log" where
  "log_row E S now i capture bytes =
     \<lparr>bl_id = i, bl_repository_id = lc_repository_id capture, bl_workflow_run_id = lc_workflow_run_id capture,
      bl_workflow_job_id = None, bl_storage_bucket = ls_bucket S, bl_object_key = object_key E capture,
      bl_size_bytes = int (length bytes), bl_content_type = ''application/zip'',
      bl_sha256 = Some (sha256_digest E bytes), bl_content_encoding = None, bl_line_count = None,
      bl_expires_at = None, bl_created_at = now\<rparr>"

definition merge_log :: "build_log \<Rightarrow> build_log \<Rightarrow> build_log" where
  "merge_log new old = old\<lparr>bl_size_bytes := bl_size_bytes new, bl_sha256 := bl_sha256 new\<rparr>"

definition put_log :: "build_log \<Rightarrow> unit tx" where
  "put_log new d =
     (if \<not> repository_known (bl_repository_id new) d then Inl (Internal ''build_logs_repository_id_fkey'')
      else if \<not> (\<exists>r\<in>set (workflow_runs d). wr_id r = bl_workflow_run_id new)
      then Inl (Internal ''build_logs_workflow_run_id_fkey'')
      else Inr ((), d\<lparr>next_id := Suc (next_id d), build_logs := upsert bl_object_key merge_log new (build_logs d)\<rparr>))"

definition store_run_logs ::
  "ext \<Rightarrow> log_store \<Rightarrow> timestamp \<Rightarrow> string result \<Rightarrow> string \<Rightarrow> LogCapture \<Rightarrow> db \<Rightarrow> redis \<Rightarrow> objects \<Rightarrow> net
     \<Rightarrow> (unit result \<times> db \<times> redis \<times> objects \<times> net) option" where
  "store_run_logs E S now jwt base capture d r objs n =
     (case capture_token E now jwt base (lc_repository_id capture) d r n of
        None \<Rightarrow> None
      | Some (Inl e, r1, n1) \<Rightarrow> Some (Inl e, d, r1, objs, n1)
      | Some (Inr None, r1, n1) \<Rightarrow> Some (Inr (), d, r1, objs, n1)
      | Some (Inr (Some token), r1, n1) \<Rightarrow>
          (case run_logs_zip E now base (lc_owner capture) (lc_name capture) (lc_github_run_id capture) n1 of
             None \<Rightarrow> None
           | Some (Inl e, n2) \<Rightarrow> Some (Inl e, d, r1, objs, n2)
           | Some (Inr None, n2) \<Rightarrow> Some (Inr (), d, r1, objs, n2)
           | Some (Inr (Some bytes), n2) \<Rightarrow>
               (case log_put S (object_key E capture) bytes ''application/zip'' objs of
                  (Inl e, objs1) \<Rightarrow> Some (Inr (), d, r1, objs1, n2)
                | (Inr _, objs1) \<Rightarrow>
                    (case transact (put_log (log_row E S now (next_id d) capture bytes)) d of
                       (res, d') \<Rightarrow> Some (res, d', r1, objs1, n2)))))"

section \<open>The background task\<close>

definition junit_capture_of :: "LogCapture \<Rightarrow> JunitCapture" where
  "junit_capture_of capture =
     \<lparr>jc_repository_id = lc_repository_id capture, jc_workflow_run_id = lc_workflow_run_id capture,
      jc_owner = lc_owner capture, jc_name = lc_name capture, jc_github_run_id = lc_github_run_id capture,
      jc_executed_at = lc_executed_at capture\<rparr>"

definition capture_task ::
  "ext \<Rightarrow> log_store \<Rightarrow> formats \<Rightarrow> ((string \<times> TestResult) list \<Rightarrow> TestResult list) \<Rightarrow> timestamp \<Rightarrow> timestamp
     \<Rightarrow> string result \<Rightarrow> string \<Rightarrow> (u8 list \<Rightarrow> u8 list list) \<Rightarrow> LogCapture \<Rightarrow> db \<Rightarrow> redis \<Rightarrow> objects \<Rightarrow> net
     \<Rightarrow> (db \<times> redis \<times> objects \<times> net) option" where
  "capture_task E S F hash_values now now' jwt base chunks capture d r objs n =
     (case store_run_logs E S now jwt base capture d r objs n of
        None \<Rightarrow> None
      | Some (_, d1, r1, objs1, n1) \<Rightarrow>
          map_option (\<lambda>(_, d2, r2, n2). (d2, r2, objs1, n2))
            (capture_run_tests E F hash_values now' jwt base chunks (junit_capture_of capture) d1 r1 n1))"

section \<open>The task stays in its tables\<close>

definition capture_frame :: "db \<Rightarrow> db \<Rightarrow> bool" where
  "capture_frame d d' \<longleftrightarrow>
     d' = d\<lparr>next_id := next_id d', build_logs := build_logs d', test_results := test_results d'\<rparr> \<and> next_id d \<le> next_id d'"

lemma capture_frame_trans: "capture_frame a b \<Longrightarrow> capture_frame b c \<Longrightarrow> capture_frame a c"
  by (cases a; cases b; cases c) (auto simp: capture_frame_def)

lemma capture_frame_tests: "test_frame d d' \<Longrightarrow> capture_frame d d'"
  by (cases d; cases d') (auto simp: capture_frame_def test_frame_def)

lemma capture_frame_refl: "capture_frame d d"
  by (simp add: capture_frame_def)

lemma capture_frame_facts:
  assumes "facts_inv d" and "capture_frame d d'"
  shows "facts_inv d'"
proof -
  from assms(2) obtain k bl tr where "d' = d\<lparr>next_id := k, build_logs := bl, test_results := tr\<rparr>" "next_id d \<le> k"
    by (auto simp: capture_frame_def)
  then show ?thesis by (intro facts_inv_cong [OF assms(1)]) simp_all
qed

lemma store_tests_frame: "store_tests capture rs d = Inr (u, d') \<Longrightarrow> tests_inv d \<Longrightarrow> tests_inv d' \<and> test_frame d d'"
proof (induction rs arbitrary: d)
  case (Cons r rs)
  then obtain v d1 where put: "put_test capture r d = Inr (v, d1)" and rest: "store_tests capture rs d1 = Inr (u, d')"
    by (auto split: sum.splits)
  from Cons.IH [OF rest put_test_inv [OF Cons.prems(2) put]] test_frame_trans [OF put_test_frame [OF put]] show ?case by blast
qed (simp add: test_frame_refl)

lemma capture_run_tests_frame:
  assumes "capture_run_tests E F hv now jwt base chunks capture d r n = Some (res, d', r', n')" and "tests_inv d"
  shows "tests_inv d' \<and> test_frame d d'"
proof -
  have "d' = d \<or> (\<exists>rs u. store_tests capture rs d = Inr (u, d'))"
    using assms(1) by (auto simp: capture_run_tests_def transact_def split: option.splits sum.splits prod.splits if_splits)
  then show ?thesis using assms(2) store_tests_frame by (auto simp: test_frame_refl)
qed

lemma store_run_logs_cases:
  assumes "store_run_logs E S now jwt base capture d r objs n = Some (res, d', r', objs', n')"
  obtains "d' = d"
  | token n1 bytes where
      "capture_token E now jwt base (lc_repository_id capture) d r n = Some (Inr (Some token), r', n1)"
      "run_logs_zip E now base (lc_owner capture) (lc_name capture) (lc_github_run_id capture) n1 = Some (Inr (Some bytes), n')"
      "objs' = objs(object_key E capture \<mapsto> bytes)"
      "d' = d\<lparr>next_id := Suc (next_id d),
         build_logs := upsert bl_object_key merge_log (log_row E S now (next_id d) capture bytes) (build_logs d)\<rparr>"
      "(\<exists>x\<in>set (workflow_runs d). wr_id x = lc_workflow_run_id capture)"
  using assms
  by (auto simp: store_run_logs_def log_put_def Let_def transact_def put_log_def log_row_def
      split: option.splits sum.splits prod.splits if_splits)

lemma store_run_logs_frame:
  assumes "store_run_logs E S now jwt base capture d r objs n = Some (res, d', r', objs', n')"
  shows "capture_frame d d' \<and> test_results d' = test_results d"
  using assms by (rule store_run_logs_cases) (auto simp: capture_frame_def)

interpretation log_table: keyed_table bl_object_key bl_id "\<lambda>i r. r\<lparr>bl_id := i\<rparr>" merge_log "\<lambda>_. True"
  by unfold_locales (simp_all add: merge_log_def)

section \<open>Properties\<close>

text \<open>
  Whatever GitHub, the archives and the object store do, the background task of a completed
  run touches nothing but the log records and the test results: the run and its facts, the
  deliveries and the outbox are as they were when it was started, and the invariants of the
  fact tables and of the test results hold afterwards.
\<close>

theorem capture_is_contained:
  assumes "capture_task E S F hash_values now now' jwt base chunks capture d r objs n = Some (d', r', objs', n')"
    and "facts_inv d" and "tests_inv d"
  shows "capture_frame d d' \<and> facts_inv d' \<and> tests_inv d'"
proof -
  from assms(1) obtain res d1 r1 n1 res2 where
    logs: "store_run_logs E S now jwt base capture d r objs n = Some (res, d1, r1, objs', n1)" and
    tests: "capture_run_tests E F hash_values now' jwt base chunks (junit_capture_of capture) d1 r1 n1 = Some (res2, d', r', n')"
    by (auto simp: capture_task_def split: option.splits prod.splits)
  note l = store_run_logs_frame [OF logs]
  then have "tests_inv d1" using assms(3) by (auto simp: tests_inv_def capture_frame_def intro: table_ok_mono)
  note t = capture_run_tests_frame [OF tests this]
  then have "capture_frame d d'" using l capture_frame_tests capture_frame_trans by blast
  with capture_frame_facts [OF assms(2)] t show ?thesis by blast
qed

text \<open>
  C36. Logs are downloaded once. When a download was recorded, the record carries the size and
  the digest of exactly the object that is in the store under its key, and if the key was new,
  no later completion webhook of that run asks for another download as long as the record is
  kept.
\<close>

theorem logs_captured_once:
  assumes "store_run_logs E S now jwt base capture d r objs n = Some (res, d', r', objs', n')" and "d' \<noteq> d"
  shows "(\<exists>bytes row. objs' (object_key E capture) = Some bytes \<and>
      find (\<lambda>x. bl_object_key x = object_key E capture) (build_logs d') = Some row \<and>
      bl_size_bytes row = int (length bytes) \<and> bl_sha256 row = Some (sha256_digest E bytes)) \<and>
    (object_key E capture \<notin> bl_object_key ` set (build_logs d) \<longrightarrow> set (build_logs d') \<subseteq> set (build_logs later) \<longrightarrow>
       apply_workflow_run E now2 utc cx payload later = Inr (outcome, later') \<longrightarrow>
       (\<forall>c. oc_log_capture outcome = Some c \<longrightarrow> lc_workflow_run_id c \<noteq> lc_workflow_run_id capture))"
  using assms(1)
proof (rule store_run_logs_cases)
  fix token n1 bytes
  let ?row = "log_row E S now (next_id d) capture bytes"
  assume objs: "objs' = objs(object_key E capture \<mapsto> bytes)"
    and d': "d' = d\<lparr>next_id := Suc (next_id d), build_logs := upsert bl_object_key merge_log ?row (build_logs d)\<rparr>"
  have "\<exists>row. find (\<lambda>x. bl_object_key x = object_key E capture) (build_logs d') = Some row \<and>
      bl_size_bytes row = int (length bytes) \<and> bl_sha256 row = Some (sha256_digest E bytes)"
    using log_table.upsert_lookup [of ?row "build_logs d"] unfolding d'
    by (simp add: log_row_def merge_log_def split: option.splits)
  moreover have "lc_workflow_run_id c \<noteq> lc_workflow_run_id capture"
    if new: "object_key E capture \<notin> bl_object_key ` set (build_logs d)" and sub: "set (build_logs d') \<subseteq> set (build_logs later)"
      and run: "apply_workflow_run E now2 utc cx payload later = Inr (outcome, later')" and c: "oc_log_capture outcome = Some c" for c
  proof
    assume same: "lc_workflow_run_id c = lc_workflow_run_id capture"
    have "?row \<in> set (build_logs d')" using new unfolding d' by (auto simp: upsert_def log_row_def image_iff)
    with sub have "logs_held (lc_workflow_run_id capture) later" by (auto simp: logs_held_def log_row_def intro!: bexI [of _ ?row])
    moreover have "\<not> logs_held (lc_workflow_run_id c) later'" and "build_logs later' = build_logs later"
      using run c by (auto simp: apply_workflow_run_def Let_def delivery_frame_def split: sum.splits if_splits
          dest: ingest_run_deliveries)
    ultimately show False using same by (simp add: logs_held_def)
  qed
  ultimately show ?thesis using objs by auto
qed (use assms(2) in simp)

section \<open>Examples\<close>

definition demo_store :: log_store where
  "demo_store = \<lparr>ls_bucket = ''logs'', ls_answer = (\<lambda>_ _ _. Inr 200), ls_arrived = (\<lambda>_ _. False)\<rparr>"

definition demo_capture :: LogCapture where
  "demo_capture = \<lparr>lc_repository_id = 1, lc_workflow_run_id = 8, lc_owner = ''o'', lc_name = ''n'', lc_github_run_id = 500,
     lc_run_attempt = 1, lc_executed_at = 3\<rparr>"

definition capture_net :: net where
  "capture_net = \<lparr>replies = Inr \<lparr>hr_status = 200, hr_headers = Map.empty, hr_body = Some [9], hr_content_length = None\<rparr> #
     replies junit_net, sent = []\<rparr>"

abbreviation token_cache :: redis where
  "token_cache \<equiv> r_set_ex 0 60 (cache_key 55) ''ghs'' Map.empty"

lemma demo_logs:
  "\<exists>d1 n1. store_run_logs junit_ext demo_store 1 (Inr []) ''b'' demo_capture junit_db token_cache Map.empty capture_net =
     Some (Inr (), d1, token_cache, Map.empty(object_key junit_ext demo_capture \<mapsto> [9]), n1) \<and> length (build_logs d1) = 1 \<and>
     replies n1 = replies junit_net"
proof -
  have zip: "\<exists>n1. run_logs_zip junit_ext 1 ''b'' ''o'' ''n'' 500 capture_net = Some (Inr (Some [9]), n1) \<and> replies n1 = replies junit_net"
    by (simp add: run_logs_zip_def at_endpoint_def endpoint_def junit_ext_def demo_ext_def download_def send_def capture_net_def
        is_success_def)
  have "\<exists>d1. put_log (log_row junit_ext demo_store 1 (next_id junit_db) demo_capture [9]) junit_db = Inr ((), d1) \<and> length (build_logs d1) = 1"
    by (simp add: put_log_def junit_db_def demo_repo_db_def repository_known_def log_row_def demo_capture_def demo_repository_def
        run_row_def upsert_def empty_db_def)
  with zip junit_token [of "Inr []" "''b''" capture_net] show ?thesis
    by (auto simp: store_run_logs_def demo_capture_def log_put_def demo_store_def transact_def)
qed

lemma junit_db_inv: "facts_inv junit_db" "tests_inv junit_db"
proof -
  have "repository_known 1 junit_db" by (simp add: repository_known_def junit_db_def demo_repo_db_def demo_repository_def)
  then have "run_fks junit_db (run_row 8 1 ''main'' None None None demo_run)" by (simp add: run_fks_def run_row_def fk_ok_def)
  then show "facts_inv junit_db"
    by (simp add: facts_inv_def ingest_inv_def vcs_inv_def table_ok_def junit_db_def demo_repo_db_def empty_db_def run_row_def)
  show "tests_inv junit_db" by (simp add: tests_inv_def junit_db_def demo_repo_db_def empty_db_def)
qed

theorem logs_captured_once_witness:
  "\<exists>d1 n1 row. store_run_logs junit_ext demo_store 1 (Inr []) ''b'' demo_capture junit_db token_cache Map.empty capture_net =
     Some (Inr (), d1, token_cache, Map.empty(object_key junit_ext demo_capture \<mapsto> [9]), n1) \<and>
     find (\<lambda>x. bl_object_key x = object_key junit_ext demo_capture) (build_logs d1) = Some row \<and> bl_size_bytes row = 1"
proof -
  obtain d1 n1 where run: "store_run_logs junit_ext demo_store 1 (Inr []) ''b'' demo_capture junit_db token_cache Map.empty capture_net =
     Some (Inr (), d1, token_cache, Map.empty(object_key junit_ext demo_capture \<mapsto> [9]), n1)" "length (build_logs d1) = 1"
    using demo_logs by blast
  have "build_logs junit_db = []" by (simp add: junit_db_def demo_repo_db_def empty_db_def)
  with run(2) have "d1 \<noteq> junit_db" by auto
  from conjunct1 [OF logs_captured_once [OF run(1) this]] run show ?thesis by auto
qed

theorem capture_is_contained_witness:
  "\<exists>d' objs' n'. capture_task junit_ext demo_store junit_formats (map snd) 1 1 (Inr []) ''b'' (\<lambda>b. [b])
     demo_capture junit_db token_cache Map.empty capture_net = Some (d', token_cache, objs', n') \<and>
     facts_inv d' \<and> tests_inv d' \<and> length (test_results d') = 1"
proof -
  let ?x = "the (case_result junit_ext (Some ''unit'') demo_case)"
  obtain d1 n1 where logs: "store_run_logs junit_ext demo_store 1 (Inr []) ''b'' demo_capture junit_db token_cache Map.empty capture_net =
     Some (Inr (), d1, token_cache, Map.empty(object_key junit_ext demo_capture \<mapsto> [9]), n1)" "replies n1 = replies junit_net"
    using demo_logs by blast
  have "d1 = junit_db\<lparr>next_id := next_id d1, build_logs := build_logs d1\<rparr>"
    using store_run_logs_frame [OF logs(1)] by (cases d1) (simp add: capture_frame_def junit_db_def)
  then obtain k bl where d1: "d1 = junit_db\<lparr>next_id := k, build_logs := bl\<rparr>" by blast
  have "capture_token junit_ext 1 (Inr []) ''b'' 1 d1 token_cache n1 = capture_token junit_ext 1 (Inr []) ''b'' 1 junit_db token_cache n1"
    by (simp add: capture_token_def repository_installation_def organization_installation_id_def d1)
  then have tok: "capture_token junit_ext 1 (Inr []) ''b'' 1 d1 token_cache n1 = Some (Inr (Some ''ghs''), token_cache, n1)"
    using junit_token by simp
  obtain a n2 where a: "run_artifacts junit_ext 1 ''b'' ''o'' ''n'' 500 MAX_ARTIFACTS_PER_RUN n1 = Some (Inr [a], n2)"
    "wanted_artifacts [a] = [a]" "replies n2 = tl (replies junit_net)" using junit_artifacts [OF logs(2)] by blast
  obtain n3 where n3: "artifact_zip junit_ext 1 ''b'' (\<lambda>b. [b]) ''o'' ''n'' (af_id a) n2 = Some (Inr (Some [2]), n3)"
    using junit_download [OF a(3)] by blast
  have "\<exists>d'. put_test junit_capture ?x d1 = Inr ((), d') \<and> length (test_results d') = 1"
    by (simp add: put_test_def d1 junit_db_def demo_repo_db_def repository_known_def junit_capture_def demo_repository_def run_row_def
        upsert_def empty_db_def)
  then obtain d' where d': "put_test junit_capture ?x d1 = Inr ((), d')" "length (test_results d') = 1" by blast
  have "junit_capture_of demo_capture = junit_capture" by (simp add: junit_capture_of_def demo_capture_def junit_capture_def)
  then have run: "capture_task junit_ext demo_store junit_formats (map snd) 1 1 (Inr []) ''b'' (\<lambda>b. [b])
     demo_capture junit_db token_cache Map.empty capture_net =
       Some (d', token_cache, Map.empty(object_key junit_ext demo_capture \<mapsto> [9]), n3)"
    using logs a n3 d'(1) tok
    by (simp add: capture_task_def capture_run_tests_def junit_capture_def demo_archive [simplified] insert_results_def transact_def)
  from capture_is_contained [OF run junit_db_inv] run d'(2) show ?thesis by blast
qed

end
