(* ===== verification/Config.thy ===== *)
theory Config
  imports Sessions Float64
begin

text \<open>
  \<^verbatim>\<open>gateway/src/config.rs\<close>: reading the configuration from the environment, and the check that
  keeps a production deployment from starting with published placeholders. The environment is a
  map; the base64, URL and PEM libraries are parameters. The numbers and socket addresses that
  the standard library parses are modelled.
\<close>

section \<open>Parsing with the standard library\<close>

text \<open>\<open>str::parse\<close> of an unsigned integer: digits are checked before overflow, left to right.\<close>

fun uint_loop :: "nat \<Rightarrow> nat \<Rightarrow> string \<Rightarrow> string + nat" where
  "uint_loop largest acc [] = Inr acc"
| "uint_loop largest acc (c # s) =
     (if \<not> is_ascii_digit c then Inl ''invalid digit found in string''
      else let x = nat (digit_value c)
           in if acc * 10 + x > largest then Inl ''number too large to fit in target type''
              else uint_loop largest (acc * 10 + x) s)"

definition parse_uint :: "nat \<Rightarrow> string \<Rightarrow> string + nat" where
  "parse_uint largest s =
     (case s of
        [] \<Rightarrow> Inl ''cannot parse integer from empty string''
      | [c] \<Rightarrow> if c = CHR ''+'' \<or> c = CHR ''-'' then Inl ''invalid digit found in string'' else uint_loop largest 0 s
      | c # t \<Rightarrow> uint_loop largest 0 (if c = CHR ''+'' then t else s))"

text \<open>
  \<open>SocketAddr\<close> parsing (\<open>core::net\<close>): a parser returns what it read and the rest of the
  input. Octets have at most three digits and no leading zero, groups at most four hexadecimal
  digits, ports any number of digits within 16 bits.
\<close>

definition hex_value :: "char \<Rightarrow> nat option" where
  "hex_value c =
     (if is_ascii_digit c then Some (nat (digit_value c))
      else let l = to_ascii_lowercase c
           in if CHR ''a'' = l then Some 10 else if CHR ''b'' = l then Some 11 else if CHR ''c'' = l then Some 12
              else if CHR ''d'' = l then Some 13 else if CHR ''e'' = l then Some 14 else if CHR ''f'' = l then Some 15
              else None)"

definition radix_value :: "nat \<Rightarrow> char \<Rightarrow> nat option" where
  "radix_value radix c = (case hex_value c of Some v \<Rightarrow> if v < radix then Some v else None | None \<Rightarrow> None)"

text \<open>\<open>None\<close> as limit: any number of digits.\<close>

definition read_number :: "nat \<Rightarrow> nat \<Rightarrow> nat option \<Rightarrow> bool \<Rightarrow> string \<Rightarrow> (nat \<times> string) option" where
  "read_number radix largest max_digits allow_zero_prefix s =
     (let ds = takeWhile (\<lambda>c. radix_value radix c \<noteq> None) s;
          rest = dropWhile (\<lambda>c. radix_value radix c \<noteq> None) s;
          v = foldl (\<lambda>acc c. acc * radix + the (radix_value radix c)) 0 ds
      in if ds = [] \<or> (case max_digits of None \<Rightarrow> False | Some m \<Rightarrow> m < length ds) \<or> largest < v \<or>
            (\<not> allow_zero_prefix \<and> hd ds = CHR ''0'' \<and> 1 < length ds)
         then None else Some (v, rest))"

definition read_char :: "char \<Rightarrow> string \<Rightarrow> string option" where
  "read_char c s = (case s of x # t \<Rightarrow> if x = c then Some t else None | [] \<Rightarrow> None)"

definition read_octet :: "string \<Rightarrow> (nat \<times> string) option" where
  "read_octet = read_number 10 255 (Some 3) False"

definition read_ipv4 :: "string \<Rightarrow> (nat list \<times> string) option" where
  "read_ipv4 s =
     Option.bind (read_octet s) (\<lambda>(a, s). Option.bind (read_char CHR ''.'' s) (\<lambda>s.
     Option.bind (read_octet s) (\<lambda>(b, s). Option.bind (read_char CHR ''.'' s) (\<lambda>s.
     Option.bind (read_octet s) (\<lambda>(c, s). Option.bind (read_char CHR ''.'' s) (\<lambda>s.
     Option.bind (read_octet s) (\<lambda>(d, s). Some ([a, b, c, d], s))))))))"

text \<open>Groups of an IPv6 address, a separator before each but the first, an IPv4 tail allowed.\<close>

fun read_groups :: "nat \<Rightarrow> nat list \<Rightarrow> string \<Rightarrow> nat list \<times> bool \<times> string" where
  "read_groups 0 groups s = (groups, False, s)"
| "read_groups (Suc left) groups s =
     (let after = (if groups = [] then Some s else read_char CHR '':'' s)
      in case (if 0 < left then Option.bind after read_ipv4 else None) of
           Some ([a, b, c, d], t) \<Rightarrow> (groups @ [a * 256 + b, c * 256 + d], True, t)
         | _ \<Rightarrow> (case Option.bind after (read_number 16 65535 (Some 4) True) of
                   Some (g, t) \<Rightarrow> read_groups left (groups @ [g]) t
                 | None \<Rightarrow> (groups, False, s)))"

definition read_ipv6 :: "string \<Rightarrow> (nat list \<times> string) option" where
  "read_ipv6 s =
     (case read_groups 8 [] s of (head, v4, t) \<Rightarrow>
        if length head = 8 then Some (head, t)
        else if v4 then None
        else Option.bind (read_char CHR '':'' t) (\<lambda>t. Option.bind (read_char CHR '':'' t) (\<lambda>t.
          case read_groups (8 - (length head + 1)) [] t of (tail, _, u) \<Rightarrow>
            Some (head @ replicate (8 - length head - length tail) 0 @ tail, u))))"

datatype SocketAddr = V4 "nat list" nat | V6 "nat list" nat nat

definition read_port :: "string \<Rightarrow> (nat \<times> string) option" where
  "read_port s = Option.bind (read_char CHR '':'' s) (read_number 10 65535 None True)"

definition read_scope :: "string \<Rightarrow> nat \<times> string" where
  "read_scope s =
     (case Option.bind (read_char CHR ''%'' s) (read_number 10 4294967295 None True) of
        Some (scope, t) \<Rightarrow> (scope, t) | None \<Rightarrow> (0, s))"

definition read_socket_v4 :: "string \<Rightarrow> (SocketAddr \<times> string) option" where
  "read_socket_v4 s =
     Option.bind (read_ipv4 s) (\<lambda>(ip, t). map_option (\<lambda>(port, u). (V4 ip port, u)) (read_port t))"

definition read_socket_v6 :: "string \<Rightarrow> (SocketAddr \<times> string) option" where
  "read_socket_v6 s =
     Option.bind (read_char CHR ''['' s) (\<lambda>s. Option.bind (read_ipv6 s) (\<lambda>(ip, t).
       case read_scope t of (scope, u) \<Rightarrow>
         Option.bind (read_char CHR '']'' u) (\<lambda>u. map_option (\<lambda>(port, w). (V6 ip port scope, w)) (read_port u))))"

definition parse_socket_addr :: "string \<Rightarrow> string + SocketAddr" where
  "parse_socket_addr s =
     (case (case read_socket_v4 s of None \<Rightarrow> read_socket_v6 s | r \<Rightarrow> r) of
        Some (addr, []) \<Rightarrow> Inr addr
      | _ \<Rightarrow> Inl ''invalid socket address syntax'')"

section \<open>The configuration\<close>

record url =
  url_text :: string
  url_scheme :: string
  url_host :: "string option"

record S3Config =
  s3_endpoint :: url
  s3_region :: string
  s3_access_key :: string
  s3_secret_key :: string
  s3_logs_bucket :: string

record Config =
  cf_environment :: Environment
  cf_bind_addr :: SocketAddr
  cf_database_url :: string
  cf_database_max_connections :: nat
  cf_database_connect_timeout :: nat
  cf_redis_url :: string
  cf_github_client_id :: string
  cf_github_client_secret :: string
  cf_github_redirect_uri :: string
  cf_github_app_id :: string
  cf_github_app_slug :: string
  cf_github_app_private_key :: string
  cf_frontend_url :: url
  cf_github_api_base_url :: url
  cf_github_webhook_secret :: string
  cf_token_encryption_key :: "u8 list"
  cf_session_ttl :: nat
  cf_rabbitmq_url :: string
  cf_s3 :: S3Config

record Weakness =
  wk_key :: string
  wk_problem :: string
  wk_remedy :: string

datatype ConfigError = Missing string | Invalid string string | Insecure "Weakness list"

text \<open>The libraries: parsed or an error text.\<close>

record libs =
  lib_url :: "string \<Rightarrow> string + url"
  lib_base64 :: "string \<Rightarrow> string + u8 list"
  lib_utf8_error :: "u8 list \<Rightarrow> string"
  lib_rsa_pem :: "u8 list \<Rightarrow> string option"

type_synonym env = "string \<rightharpoonup> string"

definition render :: "Weakness list \<Rightarrow> string" where
  "render weaknesses =
     join [CHR 0x0A] (map (\<lambda>w. ''  '' @ wk_key w @ '' '' @ wk_problem w @ [CHR 0x0A] @ ''    '' @ wk_remedy w) weaknesses)"

fun config_error_text :: "ConfigError \<Rightarrow> string" where
  "config_error_text (Missing key) = key @ '' is not set''"
| "config_error_text (Invalid key message) = key @ '' is invalid: '' @ message"
| "config_error_text (Insecure weaknesses) = ''refusing to start in production:'' @ [CHR 0x0A] @ render weaknesses"

section \<open>Reading variables\<close>

definition optional :: "env \<Rightarrow> string \<Rightarrow> string option" where
  "optional env key = (case env key of Some v \<Rightarrow> if trim v \<noteq> [] then Some v else None | None \<Rightarrow> None)"

definition required :: "env \<Rightarrow> string \<Rightarrow> ConfigError + string" where
  "required env key = (case optional env key of None \<Rightarrow> Inl (Missing key) | Some v \<Rightarrow> Inr v)"

definition parse_optional :: "(string \<Rightarrow> string + 'a) \<Rightarrow> env \<Rightarrow> string \<Rightarrow> ConfigError + 'a option" where
  "parse_optional parse env key =
     (case optional env key of
        None \<Rightarrow> Inr None
      | Some raw \<Rightarrow> map_sum (Invalid key) Some (parse raw))"

definition environment_from_str :: "string \<Rightarrow> string + Environment" where
  "environment_from_str s =
     (let lower = map to_ascii_lowercase s
      in if lower \<in> {''development'', ''dev'', ''local''} then Inr Development
         else if lower \<in> {''production'', ''prod''} then Inr Production
         else Inl (''expected '' @ [CHR 0x27] @ ''development'' @ [CHR 0x27] @ '' or '' @ [CHR 0x27] @ ''production'' @
                [CHR 0x27] @ '', got '' @ [CHR 0x27] @ lower @ [CHR 0x27]))"

fun environment_text :: "Environment \<Rightarrow> string" where
  "environment_text Development = ''development''"
| "environment_text Production = ''production''"

definition config_url :: "libs \<Rightarrow> string \<Rightarrow> string \<Rightarrow> ConfigError + url" where
  "config_url L key value =
     (case lib_url L value of
        Inl e \<Rightarrow> Inl (Invalid key e)
      | Inr url \<Rightarrow>
          if \<not> (url_scheme url = ''http'' \<or> url_scheme url = ''https'') \<or> url_host url = None
          then Inl (Invalid key ''must be an absolute http or https URL'') else Inr url)"

definition encryption_key :: "libs \<Rightarrow> env \<Rightarrow> ConfigError + u8 list" where
  "encryption_key L env =
     (case required env ''TOKEN_ENCRYPTION_KEY'' of
        Inl e \<Rightarrow> Inl e
      | Inr encoded \<Rightarrow>
          (case lib_base64 L encoded of
             Inl e \<Rightarrow> Inl (Invalid ''TOKEN_ENCRYPTION_KEY'' (''must be valid base64: '' @ e))
           | Inr decoded \<Rightarrow>
               if length decoded \<noteq> 32
               then Inl (Invalid ''TOKEN_ENCRYPTION_KEY'' (''must decode to exactly 32 bytes, got '' @ show_nat (length decoded)))
               else Inr decoded))"

definition PLACEHOLDER_PREFIX :: string where
  "PLACEHOLDER_PREFIX = ''replace_with''"

definition validate_rsa_pem :: "libs \<Rightarrow> string \<Rightarrow> ConfigError + unit" where
  "validate_rsa_pem L pem =
     (case lib_rsa_pem L (as_bytes pem) of
        None \<Rightarrow> Inr ()
      | Some e \<Rightarrow> Inl (Invalid ''GITHUB_APP_PRIVATE_KEY'' (''is not a valid RSA private key PEM: '' @ e)))"

fun contains_str :: "string \<Rightarrow> string \<Rightarrow> bool" where
  "contains_str [] p = (p = [])"
| "contains_str (c # s) p = (starts_with (c # s) p \<or> contains_str s p)"

definition app_private_key :: "libs \<Rightarrow> env \<Rightarrow> ConfigError + string" where
  "app_private_key L env =
     (case required env ''GITHUB_APP_PRIVATE_KEY'' of
        Inl e \<Rightarrow> Inl e
      | Inr raw \<Rightarrow>
          if starts_with raw PLACEHOLDER_PREFIX then Inr raw
          else case (if contains_str raw ''BEGIN'' then Inr raw
                     else case lib_base64 L (trim raw) of
                       Inl e \<Rightarrow> Inl (Invalid ''GITHUB_APP_PRIVATE_KEY'' (''is neither a PEM nor valid base64: '' @ e))
                     | Inr decoded \<Rightarrow>
                         (case from_utf8 decoded of
                            None \<Rightarrow> Inl (Invalid ''GITHUB_APP_PRIVATE_KEY''
                                      (''base64 did not decode to text: '' @ lib_utf8_error L decoded))
                          | Some pem \<Rightarrow> Inr pem)) of
                 Inl e \<Rightarrow> Inl e
               | Inr pem \<Rightarrow> map_sum id (\<lambda>_. pem) (validate_rsa_pem L pem))"

section \<open>Weak values\<close>

text \<open>\<open>split_once("://")\<close>, of which only the first half is used.\<close>

fun before_separator :: "string \<Rightarrow> string option" where
  "before_separator [] = None"
| "before_separator (c # s) = (if starts_with (c # s) ''://'' then Some [] else map_option (Cons c) (before_separator s))"

definition scheme_of :: "string \<Rightarrow> string" where
  "scheme_of raw = (case before_separator raw of Some scheme \<Rightarrow> scheme | None \<Rightarrow> [])"

definition placeholders :: "Config \<Rightarrow> (string \<times> string) list" where
  "placeholders c =
     [(''GITHUB_CLIENT_ID'', cf_github_client_id c), (''GITHUB_CLIENT_SECRET'', cf_github_client_secret c),
      (''GITHUB_WEBHOOK_SECRET'', cf_github_webhook_secret c), (''GITHUB_APP_ID'', cf_github_app_id c),
      (''GITHUB_APP_SLUG'', cf_github_app_slug c), (''GITHUB_APP_PRIVATE_KEY'', cf_github_app_private_key c)]"

definition weaknesses :: "Config \<Rightarrow> Weakness list" where
  "weaknesses c =
     map (\<lambda>(key, value). \<lparr>wk_key = key, wk_problem = ''is still the .env.example placeholder'',
            wk_remedy = ''Set the real value; GitHub sign-in cannot work until you do.''\<rparr>)
       (filter (\<lambda>(key, value). starts_with value PLACEHOLDER_PREFIX) (placeholders c)) @
     (if cf_token_encryption_key c = replicate 32 0
      then [\<lparr>wk_key = ''TOKEN_ENCRYPTION_KEY'', wk_problem = ''is the all-zero default from .env.example'',
             wk_remedy = ''Generate one: openssl rand -base64 32 - and keep it, because changing it makes already stored GitHub tokens unreadable.''\<rparr>]
      else []) @
     (if cf_environment c = Production
      then map (\<lambda>(key, scheme). \<lparr>wk_key = key, wk_problem = ''is not https'',
               wk_remedy = ''Production sets Secure on the session cookie, so sign-in silently fails over plain http.''\<rparr>)
             (filter (\<lambda>(key, scheme). scheme \<noteq> ''https'')
                [(''FRONTEND_URL'', url_scheme (cf_frontend_url c)),
                 (''GITHUB_REDIRECT_URI'', scheme_of (cf_github_redirect_uri c))])
      else [])"

section \<open>Reading the environment\<close>

text \<open>The question mark operator.\<close>

definition try_let :: "'e + 'a \<Rightarrow> ('a \<Rightarrow> 'e + 'b) \<Rightarrow> 'e + 'b" where
  "try_let x f = (case x of Inl e \<Rightarrow> Inl e | Inr a \<Rightarrow> f a)"

text \<open>A positive number with a default; zero is refused.\<close>

definition positive :: "nat \<Rightarrow> nat \<Rightarrow> env \<Rightarrow> string \<Rightarrow> ConfigError + nat" where
  "positive largest fallback env key =
     try_let (parse_optional (parse_uint largest) env key) (\<lambda>value.
       let v = (case value of None \<Rightarrow> fallback | Some v \<Rightarrow> v)
       in if v = 0 then Inl (Invalid key ''must be greater than zero'') else Inr v)"

definition bind_address :: "env \<Rightarrow> ConfigError + SocketAddr" where
  "bind_address env =
     (let host = (case optional env ''GATEWAY_HOST'' of None \<Rightarrow> ''0.0.0.0'' | Some h \<Rightarrow> h)
      in try_let (parse_optional (parse_uint 65535) env ''GATEWAY_PORT'') (\<lambda>value.
           let text' = host @ '':'' @ show_nat (case value of None \<Rightarrow> 8080 | Some port \<Rightarrow> port)
           in map_sum (\<lambda>e. Invalid ''GATEWAY_HOST'' (text' @ '' is not a socket address: '' @ e)) id (parse_socket_addr text')))"

definition api_base_url :: "libs \<Rightarrow> env \<Rightarrow> ConfigError + url" where
  "api_base_url L env =
     (let base = (case optional env ''GITHUB_API_BASE_URL'' of None \<Rightarrow> ''https://api.github.com/'' | Some u \<Rightarrow> u)
      in config_url L ''GITHUB_API_BASE_URL'' (if ends_with base ''/'' then base else base @ ''/''))"

definition webhook_secret :: "env \<Rightarrow> ConfigError + string" where
  "webhook_secret env =
     try_let (required env ''GITHUB_WEBHOOK_SECRET'') (\<lambda>secret.
       if length secret < 32 then Inl (Invalid ''GITHUB_WEBHOOK_SECRET'' ''must be at least 32 characters'') else Inr secret)"

definition s3_config :: "libs \<Rightarrow> env \<Rightarrow> ConfigError + S3Config" where
  "s3_config L env =
     try_let (try_let (required env ''S3_ENDPOINT'') (config_url L ''S3_ENDPOINT'')) (\<lambda>endpoint.
     try_let (required env ''S3_ACCESS_KEY'') (\<lambda>access_key.
     try_let (required env ''S3_SECRET_KEY'') (\<lambda>secret_key.
     try_let (required env ''S3_LOGS_BUCKET'') (\<lambda>logs_bucket.
     Inr \<lparr>s3_endpoint = endpoint,
          s3_region = (case optional env ''S3_REGION'' of None \<Rightarrow> ''us-east-1'' | Some r \<Rightarrow> r),
          s3_access_key = access_key, s3_secret_key = secret_key, s3_logs_bucket = logs_bucket\<rparr>))))"

definition read_config :: "libs \<Rightarrow> env \<Rightarrow> ConfigError + Config" where
  "read_config L env =
     try_let (bind_address env) (\<lambda>bind_addr.
     try_let (positive (2 ^ 32 - 1) 10 env ''DATABASE_MAX_CONNECTIONS'') (\<lambda>max_connections.
     try_let (positive (2 ^ 64 - 1) 5 env ''DATABASE_CONNECT_TIMEOUT_SECONDS'') (\<lambda>connect_timeout.
     try_let (positive (2 ^ 64 - 1) 604800 env ''SESSION_TTL_SECONDS'') (\<lambda>session_ttl.
     try_let (required env ''GITHUB_REDIRECT_URI'') (\<lambda>redirect_uri.
     try_let (map_sum (Invalid ''GITHUB_REDIRECT_URI'') id (lib_url L redirect_uri)) (\<lambda>_.
     try_let (config_url L ''FRONTEND_URL''
                (case optional env ''FRONTEND_URL'' of None \<Rightarrow> ''http://localhost:3000'' | Some u \<Rightarrow> u)) (\<lambda>frontend_url.
     try_let (api_base_url L env) (\<lambda>api_url.
     try_let (webhook_secret env) (\<lambda>secret.
     try_let (s3_config L env) (\<lambda>s3.
     try_let (parse_optional environment_from_str env ''ENVIRONMENT'') (\<lambda>environment.
     try_let (required env ''DATABASE_URL'') (\<lambda>database_url.
     try_let (required env ''REDIS_URL'') (\<lambda>redis_url.
     try_let (required env ''GITHUB_CLIENT_ID'') (\<lambda>client_id.
     try_let (required env ''GITHUB_CLIENT_SECRET'') (\<lambda>client_secret.
     try_let (required env ''GITHUB_APP_ID'') (\<lambda>app_id.
     try_let (required env ''GITHUB_APP_SLUG'') (\<lambda>app_slug.
     try_let (app_private_key L env) (\<lambda>private_key.
     try_let (encryption_key L env) (\<lambda>key.
     try_let (required env ''RABBITMQ_URL'') (\<lambda>rabbitmq_url.
     Inr \<lparr>cf_environment = (case environment of None \<Rightarrow> Development | Some e \<Rightarrow> e), cf_bind_addr = bind_addr,
          cf_database_url = database_url, cf_database_max_connections = max_connections,
          cf_database_connect_timeout = connect_timeout, cf_redis_url = redis_url,
          cf_github_client_id = client_id, cf_github_client_secret = client_secret,
          cf_github_redirect_uri = redirect_uri, cf_github_app_id = app_id, cf_github_app_slug = app_slug,
          cf_github_app_private_key = private_key, cf_frontend_url = frontend_url, cf_github_api_base_url = api_url,
          cf_github_webhook_secret = secret, cf_token_encryption_key = key, cf_session_ttl = session_ttl,
          cf_rabbitmq_url = rabbitmq_url, cf_s3 = s3\<rparr>))))))))))))))))))))"

definition from_env :: "libs \<Rightarrow> env \<Rightarrow> ConfigError + Config" where
  "from_env L env =
     try_let (read_config L env) (\<lambda>config.
       if cf_environment config = Production \<and> weaknesses config \<noteq> [] then Inl (Insecure (weaknesses config))
       else Inr config)"

section \<open>What a configuration guarantees\<close>

lemma try_let_Inr: "try_let x f = Inr y \<longleftrightarrow> (\<exists>a. x = Inr a \<and> f a = Inr y)"
  by (auto simp: try_let_def split: sum.splits)

lemma weaknesses_Nil:
  "weaknesses c = [] \<longleftrightarrow>
     (\<forall>(key, value)\<in>set (placeholders c). \<not> starts_with value PLACEHOLDER_PREFIX) \<and>
     cf_token_encryption_key c \<noteq> replicate 32 0 \<and>
     (cf_environment c = Production \<longrightarrow> url_scheme (cf_frontend_url c) = ''https'' \<and> scheme_of (cf_github_redirect_uri c) = ''https'')"
  by (auto simp: weaknesses_def filter_empty_conv)

lemma before_separator_Some: "before_separator raw = Some p \<Longrightarrow> starts_with raw (p @ ''://'')"
  by (induction raw arbitrary: p) (auto simp: starts_with_def split: if_splits)

lemma scheme_https: "scheme_of raw = ''https'' \<Longrightarrow> starts_with raw ''https://''"
  using before_separator_Some [of raw "''https''"] by (auto simp: scheme_of_def split: option.splits)

lemma positive_value: "positive largest fallback env key = Inr v \<Longrightarrow> 0 < v"
  by (auto simp: positive_def try_let_Inr Let_def split: if_splits)

definition web_url :: "url \<Rightarrow> bool" where
  "web_url u \<longleftrightarrow> url_scheme u \<in> {''http'', ''https''} \<and> url_host u \<noteq> None"

lemma config_url_web: "config_url L key value = Inr u \<Longrightarrow> web_url u"
  by (auto simp: config_url_def web_url_def split: sum.splits if_splits)

lemma config_urls:
  "api_base_url L env = Inr u \<Longrightarrow> web_url u"
  "s3_config L env = Inr s \<Longrightarrow> web_url (s3_endpoint s)"
  by (auto simp: api_base_url_def Let_def s3_config_def try_let_Inr dest: config_url_web)

lemma config_secrets:
  "encryption_key L env = Inr k \<Longrightarrow> length k = 32"
  "webhook_secret env = Inr s \<Longrightarrow> 32 \<le> length s"
  by (auto simp: encryption_key_def webhook_secret_def try_let_Inr split: sum.splits if_splits)

lemma optional_idem: "optional (optional env) key = optional env key"
  by (auto simp: optional_def split: option.splits)

section \<open>Properties\<close>

text \<open>
  C37. A gateway that starts is configured safely: the pool size and the two durations are
  positive, the webhook secret has at least 32 bytes, the encryption key exactly 32, the
  front-end and GitHub addresses are absolute http or https addresses; and in production none
  of the six GitHub credentials is a published placeholder, the encryption key is not the
  published all-zero one, and both browser-facing addresses are https.
\<close>

theorem started_config_is_safe:
  assumes "from_env L env = Inr c"
  shows "0 < cf_database_max_connections c \<and> 0 < cf_database_connect_timeout c \<and> 0 < cf_session_ttl c \<and>
    32 \<le> length (cf_github_webhook_secret c) \<and> length (cf_token_encryption_key c) = 32 \<and>
    (\<forall>url\<in>{cf_frontend_url c, cf_github_api_base_url c, s3_endpoint (cf_s3 c)}.
       url_scheme url \<in> {''http'', ''https''} \<and> url_host url \<noteq> None) \<and>
    (cf_environment c = Production \<longrightarrow>
       (\<forall>value\<in>{cf_github_client_id c, cf_github_client_secret c, cf_github_webhook_secret c, cf_github_app_id c,
          cf_github_app_slug c, cf_github_app_private_key c}. \<not> starts_with value ''replace_with'') \<and>
       cf_token_encryption_key c \<noteq> replicate 32 0 \<and> url_scheme (cf_frontend_url c) = ''https'' \<and>
       starts_with (cf_github_redirect_uri c) ''https://'')"
proof -
  from assms have c: "read_config L env = Inr c" and w: "cf_environment c = Production \<longrightarrow> weaknesses c = []"
    by (auto simp: from_env_def try_let_Inr split: if_splits)
  have "0 < cf_database_max_connections c \<and> 0 < cf_database_connect_timeout c \<and> 0 < cf_session_ttl c \<and>
    32 \<le> length (cf_github_webhook_secret c) \<and> length (cf_token_encryption_key c) = 32 \<and>
    web_url (cf_frontend_url c) \<and> web_url (cf_github_api_base_url c) \<and> web_url (s3_endpoint (cf_s3 c))"
    using c unfolding read_config_def try_let_Inr
    by (elim exE conjE) (drule Inr_inject, hypsubst, simp add: positive_value config_url_web config_urls config_secrets)
  with w show ?thesis by (auto simp: web_url_def weaknesses_Nil placeholders_def PLACEHOLDER_PREFIX_def intro: scheme_https)
qed

text \<open>
  A blank variable is an unset one: replacing every empty or white-space value of the
  environment by an absent one changes neither the configuration nor the error.
\<close>

theorem blank_is_unset: "from_env L env = from_env L (\<lambda>key. case env key of Some v \<Rightarrow> if trim v = [] then None else Some v | None \<Rightarrow> None)"
proof -
  have "(\<lambda>key. case env key of Some v \<Rightarrow> if trim v = [] then None else Some v | None \<Rightarrow> None) = optional env"
    by (auto simp: fun_eq_iff optional_def split: option.splits)
  moreover have "read_config L (optional env) = read_config L env"
    by (simp add: read_config_def bind_address_def positive_def required_def parse_optional_def api_base_url_def webhook_secret_def
        s3_config_def app_private_key_def encryption_key_def optional_idem)
  ultimately show ?thesis by (simp add: from_env_def)
qed

text \<open>
  The two https checks disagree about case: a redirect address spelled \<open>HTTPS://\<close> is a valid
  https address, but production refuses it, because its scheme is cut from the raw text and
  not taken from the parsed address as for the front end.
\<close>

theorem uppercase_redirect_is_refused:
  assumes "read_config L env = Inr c" and "cf_environment c = Production"
    and "cf_github_redirect_uri c = ''HTTPS://'' @ rest"
  shows "\<exists>ws. from_env L env = Inl (Insecure ws) \<and> ''GITHUB_REDIRECT_URI'' \<in> wk_key ` set ws"
proof -
  have "scheme_of (cf_github_redirect_uri c) = ''HTTPS''" using assms(3) by (simp add: scheme_of_def starts_with_def)
  then have "''GITHUB_REDIRECT_URI'' \<in> wk_key ` set (weaknesses c)" using assms(2) by (auto simp: weaknesses_def image_Un)
  then show ?thesis using assms(1,2) by (auto simp: from_env_def try_let_def)
qed

section \<open>Examples\<close>

text \<open>Library stand-ins: every address is https, every base64 text decodes to the same key.\<close>

definition demo_libs :: libs where
  "demo_libs = \<lparr>lib_url = (\<lambda>s. Inr \<lparr>url_text = s, url_scheme = ''https'', url_host = Some ''h''\<rparr>),
     lib_base64 = (\<lambda>_. Inr (replicate 32 7)), lib_utf8_error = (\<lambda>_. []), lib_rsa_pem = (\<lambda>_. None)\<rparr>"

definition demo_variables :: "string \<Rightarrow> env" where
  "demo_variables redirect key =
     (if key = ''ENVIRONMENT'' then Some ''prod'' else if key = ''GITHUB_REDIRECT_URI'' then Some redirect
      else if key \<in> {''GATEWAY_HOST'', ''GATEWAY_PORT'', ''DATABASE_MAX_CONNECTIONS'', ''DATABASE_CONNECT_TIMEOUT_SECONDS'',
                ''SESSION_TTL_SECONDS''} then None
      else Some (replicate 32 CHR ''x''))"

lemma demo_optional:
  assumes "redirect \<in> {''https://x'', ''HTTPS://x''}"
  shows "optional (demo_variables redirect) key = demo_variables redirect key"
proof -
  have "trim (replicate 32 CHR ''x'') = replicate 32 CHR ''x''" "trim ''prod'' = ''prod''" "trim redirect = redirect"
    by (rule trim_ascii_id; use assms in \<open>auto simp: is_ascii_def white_space_def\<close>)+
  then show ?thesis using assms by (auto simp: optional_def demo_variables_def)
qed

lemma demo_digits: "show_nat 8080 = ''8080''"
  by (simp add: show_nat.simps char_of_eq_iff)

lemma demo_radix:
  "radix_value 10 CHR ''0'' = Some 0" "radix_value 10 CHR ''8'' = Some 8" "radix_value 10 CHR ''.'' = None" "radix_value 10 CHR '':'' = None"
  by (simp_all add: radix_value_def hex_value_def is_ascii_digit_def digit_value_def Let_def to_ascii_lowercase_def is_ascii_uppercase_def)

lemma demo_socket: "parse_socket_addr (''0.0.0.0:'' @ show_nat 8080) = Inr (V4 [0, 0, 0, 0] 8080)"
proof -
  have octet: "read_octet (CHR ''0'' # c # s) = Some (0, c # s)" if "radix_value 10 c = None" for c s
    using that by (simp add: read_octet_def read_number_def demo_radix)
  have port: "read_number 10 65535 None True ''8080'' = Some (8080, [])"
    by (simp add: read_number_def demo_radix)
  show ?thesis unfolding demo_digits
    by (simp add: parse_socket_addr_def read_socket_v4_def read_ipv4_def read_port_def read_char_def octet demo_radix port)
qed

lemma demo_config:
  assumes "redirect \<in> {''https://x'', ''HTTPS://x''}"
  shows "\<exists>c. read_config demo_libs (demo_variables redirect) = Inr c \<and> cf_environment c = Production \<and>
    cf_github_redirect_uri c = redirect \<and> url_scheme (cf_frontend_url c) = ''https'' \<and>
    cf_token_encryption_key c = replicate 32 7 \<and>
    (\<forall>(key, value)\<in>set (placeholders c). \<not> starts_with value PLACEHOLDER_PREFIX)"
proof -
  let ?v = "demo_variables redirect" and ?x = "replicate 32 CHR ''x''"
  note opt = demo_optional [OF assms]
  have bind: "bind_address ?v = Inr (V4 [0, 0, 0, 0] 8080)"
    using demo_socket by (simp add: bind_address_def opt parse_optional_def demo_variables_def try_let_def)
  have pos: "positive m k ?v key = Inr k" if "?v key = None" "0 < k" for m k key
    using that by (simp add: positive_def parse_optional_def opt try_let_def)
  have req: "required ?v key = Inr ?x" if "?v key = Some ?x" for key using that by (simp add: required_def opt)
  have red: "required ?v ''GITHUB_REDIRECT_URI'' = Inr redirect" by (simp add: required_def opt demo_variables_def)
  have lib: "lib_url demo_libs s = Inr \<lparr>url_text = s, url_scheme = ''https'', url_host = Some ''h''\<rparr>" for s
    by (simp add: demo_libs_def)
  have url: "config_url demo_libs key s = Inr \<lparr>url_text = s, url_scheme = ''https'', url_host = Some ''h''\<rparr>" for key s
    by (simp add: config_url_def lib)
  have "environment_from_str ''prod'' = Inr Production"
    by (simp add: environment_from_str_def to_ascii_lowercase_def is_ascii_uppercase_def)
  then have environment: "parse_optional environment_from_str ?v ''ENVIRONMENT'' = Inr (Some Production)"
    by (simp add: parse_optional_def opt demo_variables_def)
  have secret: "webhook_secret ?v = Inr ?x" by (simp add: webhook_secret_def req demo_variables_def try_let_def)
  have "\<exists>u. api_base_url demo_libs ?v = Inr u" by (simp add: api_base_url_def url Let_def)
  then obtain u where api: "api_base_url demo_libs ?v = Inr u" by blast
  have "\<exists>s3. s3_config demo_libs ?v = Inr s3" by (simp add: s3_config_def req demo_variables_def try_let_def url)
  then obtain s3 where s3: "s3_config demo_libs ?v = Inr s3" by blast
  have key: "encryption_key demo_libs ?v = Inr (replicate 32 7)"
    by (simp add: encryption_key_def req demo_variables_def) (simp add: demo_libs_def)
  have no_prefix: "\<not> starts_with (replicate k ch) PLACEHOLDER_PREFIX" if "ch \<noteq> CHR ''r''" for k ch
    using that by (cases k) (simp_all add: PLACEHOLDER_PREFIX_def starts_with_def)
  have "contains_str (replicate k CHR ''x'') ''BEGIN'' = False" for k
    by (induction k) (simp_all add: starts_with_def)
  then have no_pem: "\<not> contains_str ?x ''BEGIN''" by blast
  have bell: "char_of (7 :: nat) \<noteq> CHR ''r''" by (simp add: char_of_eq_iff)
  have "utf8_valid (replicate k 7)" for k by (induction k) (simp_all add: in_range_def)
  then have utf8: "from_utf8 (replicate 32 7) = Some (replicate 32 (char_of (7 :: nat)))"
    by (simp add: from_utf8_def)
  have "app_private_key demo_libs ?v = Inr (replicate 32 (char_of (7 :: nat)))"
    unfolding app_private_key_def
    by (simp add: req demo_variables_def no_prefix no_pem) (simp add: demo_libs_def validate_rsa_pem_def utf8)
  then have "\<exists>pem. app_private_key demo_libs ?v = Inr pem \<and> \<not> starts_with pem PLACEHOLDER_PREFIX"
    using no_prefix [OF bell] by blast
  then obtain pem where pem: "app_private_key demo_libs ?v = Inr pem" "\<not> starts_with pem PLACEHOLDER_PREFIX" by blast
  have "\<not> starts_with ?x PLACEHOLDER_PREFIX" by (simp add: no_prefix)
  then show ?thesis
    unfolding read_config_def
    by (simp add: try_let_def bind pos req red lib url environment secret api s3 key pem placeholders_def demo_variables_def)
qed

theorem started_config_is_safe_witness:
  "\<exists>c. from_env demo_libs (demo_variables ''https://x'') = Inr c \<and> cf_environment c = Production \<and>
     0 < cf_session_ttl c \<and> cf_token_encryption_key c \<noteq> replicate 32 0"
proof -
  obtain c where c: "read_config demo_libs (demo_variables ''https://x'') = Inr c" "cf_environment c = Production"
    "cf_github_redirect_uri c = ''https://x''" "url_scheme (cf_frontend_url c) = ''https''"
    "cf_token_encryption_key c = replicate 32 7" "\<forall>(key, value)\<in>set (placeholders c). \<not> starts_with value PLACEHOLDER_PREFIX"
    using demo_config [of "''https://x''"] by blast
  have "scheme_of ''https://x'' = ''https''" by (simp add: scheme_of_def starts_with_def)
  moreover have "replicate 32 7 \<noteq> (replicate 32 0 :: u8 list)" by (simp add: replicate_eq_replicate)
  ultimately have "weaknesses c = []" unfolding weaknesses_Nil using c by simp
  with c have run: "from_env demo_libs (demo_variables ''https://x'') = Inr c" by (simp add: from_env_def try_let_def)
  with started_config_is_safe [OF run] c show ?thesis by blast
qed

theorem uppercase_redirect_is_refused_witness:
  "\<exists>ws. from_env demo_libs (demo_variables ''HTTPS://x'') = Inl (Insecure ws) \<and> ''GITHUB_REDIRECT_URI'' \<in> wk_key ` set ws"
proof -
  obtain c where c: "read_config demo_libs (demo_variables ''HTTPS://x'') = Inr c" "cf_environment c = Production"
    "cf_github_redirect_uri c = ''HTTPS://x''" using demo_config [of "''HTTPS://x''"] by blast
  from uppercase_redirect_is_refused [OF c(1,2), of "''x''"] c(3) show ?thesis by simp
qed

end
