(* ===== verification/Queries.thy ===== *)
theory Queries
  imports Tables "HOL-Library.Multiset"
begin

text \<open>
  \<open>SELECT\<close> statements with an order, a limit and joins. A comparison is built from columns
  (\<open>asc\<close>, \<open>desc\<close>, the nullable variants with \<open>NULLS LAST\<close>) and \<open>then_by\<close>; rows that it does
  not separate keep the order of the table. The locale \<open>sort_order\<close> is what a query may rely
  on: a total preorder. The rows \<open>fetch\<close> returns are then the first of all rows.
\<close>

section \<open>Comparisons\<close>

definition asc :: "('r \<Rightarrow> 'k :: linorder) \<Rightarrow> 'r \<Rightarrow> 'r \<Rightarrow> bool" where
  "asc key a b \<longleftrightarrow> key a \<le> key b"

definition desc :: "('r \<Rightarrow> 'k :: linorder) \<Rightarrow> 'r \<Rightarrow> 'r \<Rightarrow> bool" where
  "desc key a b \<longleftrightarrow> key b \<le> key a"

definition nulls_last :: "('k \<Rightarrow> 'k \<Rightarrow> bool) \<Rightarrow> ('r \<Rightarrow> 'k option) \<Rightarrow> 'r \<Rightarrow> 'r \<Rightarrow> bool" where
  "nulls_last le key a b \<longleftrightarrow>
     (case key b of None \<Rightarrow> True | Some y \<Rightarrow> (case key a of None \<Rightarrow> False | Some x \<Rightarrow> le x y))"

definition then_by :: "('r \<Rightarrow> 'r \<Rightarrow> bool) \<Rightarrow> ('r \<Rightarrow> 'r \<Rightarrow> bool) \<Rightarrow> 'r \<Rightarrow> 'r \<Rightarrow> bool" where
  "then_by le le' a b \<longleftrightarrow> (if le a b \<and> le b a then le' a b else le a b)"

text \<open>\<open>ORDER BY \<dots> LIMIT n\<close> with \<open>fetch_all\<close>, and \<open>LIMIT 1\<close> with \<open>fetch_optional\<close>.\<close>

definition fetch :: "('r \<Rightarrow> 'r \<Rightarrow> bool) \<Rightarrow> nat \<Rightarrow> 'r list \<Rightarrow> 'r list" where
  "fetch le n rows = take n (order_by le rows)"

definition fetch_first :: "('r \<Rightarrow> 'r \<Rightarrow> bool) \<Rightarrow> 'r list \<Rightarrow> 'r option" where
  "fetch_first le rows = (case order_by le rows of [] \<Rightarrow> None | r # _ \<Rightarrow> Some r)"

section \<open>Joins\<close>

text \<open>\<open>LEFT JOIN\<close>: the matching rows, or one absent row.\<close>

definition left_join :: "('r \<Rightarrow> bool) \<Rightarrow> 'r list \<Rightarrow> 'r option list" where
  "left_join match rows = (case filter match rows of [] \<Rightarrow> [None] | rs \<Rightarrow> map Some rs)"

definition inner_join :: "('a \<Rightarrow> 'b \<Rightarrow> bool) \<Rightarrow> 'a list \<Rightarrow> 'b list \<Rightarrow> ('a \<times> 'b) list" where
  "inner_join match rows others = concat (map (\<lambda>a. map (Pair a) (filter (match a) others)) rows)"

lemma set_inner_join: "set (inner_join match rows others) = {(a, b). a \<in> set rows \<and> b \<in> set others \<and> match a b}"
  by (auto simp: inner_join_def)

lemma filter_inner_join: "filter (\<lambda>(a, b). P b) (inner_join match rows others) = inner_join match rows (filter P others)"
  by (induction rows) (auto simp: inner_join_def filter_map o_def conj_commute)

lemma inner_join_restrict:
  assumes "\<And>a b. a \<in> set rows \<Longrightarrow> b \<in> set others \<Longrightarrow> match a b \<Longrightarrow> P a"
  shows "inner_join match (filter P rows) others = inner_join match rows others"
  using assms
proof (induction rows)
  case (Cons a rows)
  then have "inner_join match (filter P rows) others = inner_join match rows others" by simp
  moreover have "\<not> P a \<Longrightarrow> filter (match a) others = []" using Cons.prems by (auto simp: filter_empty_conv)
  ultimately show ?case by (auto simp: inner_join_def)
qed simp

lemma left_join_restrict: "(\<And>r. r \<in> set rows \<Longrightarrow> match r \<Longrightarrow> P r) \<Longrightarrow> left_join match (filter P rows) = left_join match rows"
  by (simp add: left_join_def conj_commute cong: filter_cong)
    (metis (mono_tags, lifting) filter_cong)

section \<open>What an order promises\<close>

lemma mset_order_by [simp]: "mset (order_by le rows) = mset rows"
proof -
  have "mset (insert_by le x ys) = add_mset x (mset ys)" for x ys by (induction ys) auto
  then show ?thesis by (induction rows) (simp_all add: order_by_def)
qed

lemma fetch_subset: "set (fetch le n rows) \<subseteq> set rows"
  using set_take_subset [of n "order_by le rows"] by (simp add: fetch_def)

lemma length_fetch: "length (fetch le n rows) = min n (length rows)"
  by (simp add: fetch_def min.commute)

lemma fetch_mset: "\<exists>rest. mset rows = mset (fetch le n rows) + rest"
  by (metis append_take_drop_id fetch_def mset_append mset_order_by)

lemma fetch_all: "length rows \<le> n \<Longrightarrow> mset (fetch le n rows) = mset rows"
  by (simp add: fetch_def)

lemma fetch_first_None: "fetch_first le rows = None \<longleftrightarrow> rows = []"
proof -
  have "order_by le rows = [] \<longleftrightarrow> rows = []" by (metis length_0_conv length_order_by)
  then show ?thesis by (auto simp: fetch_first_def split: list.splits)
qed

lemma fetch_first_in: "fetch_first le rows = Some r \<Longrightarrow> r \<in> set rows"
  by (metis fetch_first_def list.case_eq_if list.set_sel(1) option.distinct(1) option.inject set_order_by)

locale sort_order =
  fixes le :: "'r \<Rightarrow> 'r \<Rightarrow> bool"
  assumes total_le: "le a b \<or> le b a"
    and trans_le: "le a b \<Longrightarrow> le b c \<Longrightarrow> le a c"
begin

lemma sorted_rows: "sorted_wrt le (order_by le rows)"
  by (rule sorted_order_by) (use total_le trans_le in blast)+

lemma sorted_fetch: "sorted_wrt le (fetch le n rows)"
  by (simp add: fetch_def sorted_rows sorted_wrt_take)

text \<open>What the limit leaves out is not before what it lets through.\<close>

lemma fetch_is_first:
  assumes "mset rows = mset (fetch le n rows) + rest" and "x \<in># rest" and "y \<in> set (fetch le n rows)"
  shows "le y x"
proof -
  let ?s = "order_by le rows"
  have "mset ?s = mset (take n ?s) + mset (drop n ?s)" by (metis append_take_drop_id mset_append)
  then have "rest = mset (drop n ?s)" using assms(1) by (simp add: fetch_def)
  then have "x \<in> set (drop n ?s)" using assms(2) by simp
  moreover have "sorted_wrt le (take n ?s @ drop n ?s)" using sorted_rows by simp
  ultimately show ?thesis using assms(3) unfolding sorted_wrt_append by (simp add: fetch_def)
qed

lemma fetch_first_le: "fetch_first le rows = Some r \<Longrightarrow> x \<in> set rows \<Longrightarrow> le r x"
proof -
  assume "fetch_first le rows = Some r" "x \<in> set rows"
  then obtain rest where "order_by le rows = r # rest" "x \<in> set (r # rest)"
    by (metis (no_types, lifting) fetch_first_def list.case_eq_if list.collapse option.distinct(1) option.inject set_order_by)
  with sorted_rows [of rows] total_le [of r r] show "le r x" by auto
qed

end

text \<open>Every comparison that is built from columns is such an order.\<close>

lemma sort_order_asc: "sort_order (asc key)" and sort_order_desc: "sort_order (desc key)"
  by unfold_locales (auto simp: asc_def desc_def)

lemma sort_order_nulls_last: "sort_order le \<Longrightarrow> sort_order (nulls_last le key)"
  unfolding sort_order_def nulls_last_def by (fastforce split: option.splits)

lemma sort_order_then_by:
  assumes "sort_order le" and "sort_order le'"
  shows "sort_order (then_by le le')"
proof
  show "then_by le le' a b \<or> then_by le le' b a" for a b
    using assms sort_order.total_le by (fastforce simp: then_by_def)
  show "then_by le le' a b \<Longrightarrow> then_by le le' b c \<Longrightarrow> then_by le le' a c" for a b c
    using sort_order.trans_le [OF assms(1), of a b c] sort_order.trans_le [OF assms(1), of b c a]
      sort_order.trans_le [OF assms(1), of c a b] sort_order.trans_le [OF assms(2), of a b c]
    by (auto simp: then_by_def split: if_splits)
qed

lemma sort_order_on: "sort_order le \<Longrightarrow> sort_order (\<lambda>a b. le (f a) (f b))"
  unfolding sort_order_def by blast

lemma sort_order_le: "sort_order ((\<le>) :: 'k :: linorder \<Rightarrow> _)" and sort_order_ge: "sort_order ((\<ge>) :: 'k :: linorder \<Rightarrow> _)"
  by unfold_locales auto

lemmas sort_orders = sort_order_le sort_order_ge sort_order_asc sort_order_desc sort_order_nulls_last sort_order_then_by

end
