(* ===== verification/Dashboard.thy ===== *)
theory Dashboard
  imports Organizations Queries Float64
begin

text \<open>
  \<^verbatim>\<open>gateway/src/routes/dashboard.rs\<close>: the read-only pages. They show the facts the gateway
  stores together with what the analytics service and the AI worker compute into tables of
  their own; those tables are part of a \<open>snapshot\<close>. The queries of a request run one after
  another or concurrently outside a transaction, so each may see the database at another
  moment: a request is served from \<open>S :: query \<Rightarrow> snapshot\<close>.
\<close>

section \<open>The tables of the analytics service and the AI worker\<close>

text \<open>A \<open>numeric\<close> column is a rational, a date a number of days.\<close>

record dora_row =
  dm_id :: uuid
  dm_organization_id :: uuid
  dm_repository_id :: "uuid option"
  dm_granularity :: string
  dm_period_start :: int
  dm_period_end :: int
  dm_deployment_count :: int
  dm_deployment_frequency :: "rat option"
  dm_lead_time_p50_seconds :: "int option"
  dm_lead_time_p90_seconds :: "int option"
  dm_change_failure_rate :: "rat option"
  dm_failed_deployment_count :: int
  dm_mttr_p50_seconds :: "int option"
  dm_mttr_p90_seconds :: "int option"
  dm_performance_band :: "string option"
  dm_sample_size :: int
  dm_computed_at :: timestamp

record score_row =
  rs_repository_id :: uuid
  rs_overall_score :: rat
  rs_reliability_score :: "rat option"
  rs_velocity_score :: "rat option"
  rs_quality_score :: "rat option"
  rs_efficiency_score :: "rat option"
  rs_grade :: "string option"
  rs_computed_at :: timestamp

record build_score_row =
  bs_workflow_run_id :: uuid
  bs_repository_id :: uuid
  bs_score :: rat
  bs_duration_score :: "rat option"
  bs_reliability_score :: "rat option"
  bs_flakiness_score :: "rat option"
  bs_breakdown :: json

record flaky_row =
  ft_id :: uuid
  ft_repository_id :: uuid
  ft_test_key :: string
  ft_suite :: "string option"
  ft_classname :: "string option"
  ft_name :: string
  ft_window_days :: int
  ft_total_runs :: int
  ft_passed_runs :: int
  ft_failed_runs :: int
  ft_flip_count :: int
  ft_flake_rate :: rat
  ft_is_flaky :: bool
  ft_is_quarantined :: bool
  ft_last_seen_at :: "timestamp option"
  ft_last_failed_at :: "timestamp option"
  ft_computed_at :: timestamp

record report_row =
  ar_id :: uuid
  ar_organization_id :: uuid
  ar_repository_id :: "uuid option"
  ar_workflow_run_id :: "uuid option"
  ar_kind :: string
  ar_status :: string
  ar_title :: "string option"
  ar_summary :: "string option"
  ar_content_md :: "string option"
  ar_content :: json
  ar_model :: "string option"
  ar_prompt_version :: "string option"
  ar_input_tokens :: "int option"
  ar_output_tokens :: "int option"
  ar_cost_usd :: "rat option"
  ar_latency_ms :: "int option"
  ar_error :: "string option"
  ar_requested_at :: timestamp
  ar_completed_at :: "timestamp option"

record recommendation_row =
  rc_id :: uuid
  rc_ai_report_id :: uuid
  rc_repository_id :: uuid
  rc_category :: string
  rc_severity :: string
  rc_title :: string
  rc_body_md :: string
  rc_evidence :: json
  rc_status :: string
  rc_created_at :: timestamp

text \<open>
  What one query sees: the time, the gateway's tables, the tables above, and the \<open>created_at\<close>
  column of the runs, which the database fills and only this page reads.
\<close>

record snapshot =
  sn_now :: timestamp
  sn_db :: db
  dora_metrics :: "dora_row list"
  repository_scores :: "score_row list"
  build_scores :: "build_score_row list"
  flaky_tests :: "flaky_row list"
  ai_reports :: "report_row list"
  ai_recommendations :: "recommendation_row list"
  run_created_at :: "uuid \<Rightarrow> timestamp"

datatype query =
  Q_role | Q_organization | Q_dora | Q_repositories | Q_scores | Q_runs | Q_flaky | Q_recommendations | Q_reports |
  Q_run | Q_jobs | Q_steps | Q_tests | Q_report | Q_log

section \<open>Generated columns\<close>

text \<open>\<open>owner_login || '/' || name\<close>.\<close>

definition full_name :: "repository \<Rightarrow> string" where
  "full_name r = r_owner_login r @ ''/'' @ r_name r"

text \<open>
  \<open>(extract(epoch FROM (b - a)) * 1000)::bigint\<close>: microseconds to milliseconds, the cast from
  \<open>numeric\<close> rounds half away from zero; null when a bound is.
\<close>

definition interval_ms :: "timestamp option \<Rightarrow> timestamp option \<Rightarrow> int option" where
  "interval_ms a b =
     (case (a, b) of
        (Some s, Some e) \<Rightarrow> Some (if s \<le> e then (e - s + 500) div 1000 else - ((s - e + 500) div 1000))
      | _ \<Rightarrow> None)"

definition queued_duration_ms :: "workflow_run \<Rightarrow> int option" where
  "queued_duration_ms w = interval_ms (wr_created_at_github w) (wr_run_started_at w)"

definition run_duration_ms :: "workflow_run \<Rightarrow> int option" where
  "run_duration_ms w = interval_ms (wr_run_started_at w) (wr_completed_at w)"

section \<open>Answers\<close>

record OrganizationHeader =
  oh_id :: uuid
  oh_slug :: string
  oh_name :: string
  oh_kind :: string
  oh_role :: string

record DoraMetric =
  do_id :: uuid
  do_repository_id :: "uuid option"
  do_granularity :: string
  do_period_start :: int
  do_period_end :: int
  do_deployment_count :: int
  do_deployment_frequency :: "f64 option"
  do_lead_time_p50_seconds :: "int option"
  do_lead_time_p90_seconds :: "int option"
  do_change_failure_rate :: "f64 option"
  do_failed_deployment_count :: int
  do_mttr_p50_seconds :: "int option"
  do_mttr_p90_seconds :: "int option"
  do_performance_band :: "string option"
  do_sample_size :: int
  do_computed_at :: timestamp

record RepositorySummary =
  su_id :: uuid
  su_full_name :: string
  su_description :: "string option"
  su_default_branch :: string
  su_primary_language :: "string option"
  su_tracking_enabled :: bool
  su_is_private :: bool
  su_html_url :: "string option"
  su_overall_score :: "f64 option"
  su_reliability_score :: "f64 option"
  su_velocity_score :: "f64 option"
  su_quality_score :: "f64 option"
  su_efficiency_score :: "f64 option"
  su_grade :: "string option"
  su_score_computed_at :: "timestamp option"
  su_run_count :: nat
  su_failure_count :: nat
  su_last_run_at :: "timestamp option"
  su_flaky_count :: nat
  su_open_recommendations :: nat

record RunSummary =
  rn_id :: uuid
  rn_repository_id :: uuid
  rn_repository :: string
  rn_run_number :: int
  rn_run_attempt :: int
  rn_name :: "string option"
  rn_event :: string
  rn_status :: string
  rn_conclusion :: "string option"
  rn_head_sha :: string
  rn_head_branch :: "string option"
  rn_actor_login :: "string option"
  rn_created_at :: "timestamp option"
  rn_started_at :: "timestamp option"
  rn_completed_at :: "timestamp option"
  rn_queued_duration_ms :: "int option"
  rn_duration_ms :: "int option"
  rn_score :: "f64 option"

record ScorePoint =
  sp_overall_score :: f64
  sp_reliability_score :: "f64 option"
  sp_velocity_score :: "f64 option"
  sp_quality_score :: "f64 option"
  sp_efficiency_score :: "f64 option"
  sp_grade :: "string option"
  sp_computed_at :: timestamp

record FlakyTest =
  fl_id :: uuid
  fl_repository_id :: uuid
  fl_repository :: string
  fl_test_key :: string
  fl_suite :: "string option"
  fl_classname :: "string option"
  fl_name :: string
  fl_window_days :: int
  fl_total_runs :: int
  fl_passed_runs :: int
  fl_failed_runs :: int
  fl_flip_count :: int
  fl_flake_rate :: f64
  fl_is_flaky :: bool
  fl_is_quarantined :: bool
  fl_last_seen_at :: "timestamp option"
  fl_last_failed_at :: "timestamp option"
  fl_computed_at :: timestamp

record Recommendation =
  re_id :: uuid
  re_report_id :: uuid
  re_repository_id :: uuid
  re_repository :: string
  re_category :: string
  re_severity :: string
  re_title :: string
  re_body_md :: string
  re_evidence :: json
  re_status :: string
  re_created_at :: timestamp

record AiReport =
  ai_id :: uuid
  ai_repository_id :: "uuid option"
  ai_repository :: "string option"
  ai_workflow_run_id :: "uuid option"
  ai_kind :: string
  ai_status :: string
  ai_title :: "string option"
  ai_summary :: "string option"
  ai_content_md :: "string option"
  ai_content :: json
  ai_model :: "string option"
  ai_prompt_version :: "string option"
  ai_input_tokens :: "int option"
  ai_output_tokens :: "int option"
  ai_cost_usd :: "f64 option"
  ai_latency_ms :: "int option"
  ai_error :: "string option"
  ai_requested_at :: timestamp
  ai_completed_at :: "timestamp option"

record RunHeader =
  rh_id :: uuid
  rh_repository_id :: uuid
  rh_repository :: string
  rh_github_run_id :: int
  rh_run_attempt :: int
  rh_run_number :: int
  rh_name :: "string option"
  rh_event :: string
  rh_status :: string
  rh_conclusion :: "string option"
  rh_head_sha :: string
  rh_head_branch :: "string option"
  rh_actor_login :: "string option"
  rh_triggering_actor_login :: "string option"
  rh_is_default_branch :: bool
  rh_created_at :: "timestamp option"
  rh_started_at :: "timestamp option"
  rh_completed_at :: "timestamp option"
  rh_queued_duration_ms :: "int option"
  rh_duration_ms :: "int option"
  rh_score :: "f64 option"
  rh_duration_score :: "f64 option"
  rh_reliability_score :: "f64 option"
  rh_flakiness_score :: "f64 option"
  rh_score_breakdown :: "json option"

record StepDetail =
  sd_id :: uuid
  sd_number :: int
  sd_name :: string
  sd_status :: string
  sd_conclusion :: "string option"
  sd_started_at :: "timestamp option"
  sd_completed_at :: "timestamp option"
  sd_duration_ms :: "int option"

record JobDetail =
  jd_id :: uuid
  jd_name :: string
  jd_status :: string
  jd_conclusion :: "string option"
  jd_runner_name :: "string option"
  jd_runner_group_name :: "string option"
  jd_labels :: "string list"
  jd_started_at :: "timestamp option"
  jd_completed_at :: "timestamp option"
  jd_duration_ms :: "int option"
  jd_steps :: "StepDetail list"

record TestResult =
  te_id :: uuid
  te_workflow_job_id :: "uuid option"
  te_test_key :: string
  te_suite :: "string option"
  te_classname :: "string option"
  te_name :: string
  te_status :: string
  te_duration_ms :: "int option"
  te_failure_type :: "string option"
  te_failure_message :: "string option"
  te_executed_at :: timestamp

record BuildLog =
  lg_id :: uuid
  lg_size_bytes :: int
  lg_content_type :: string
  lg_content_encoding :: "string option"
  lg_line_count :: "int option"
  lg_expires_at :: "timestamp option"
  lg_created_at :: timestamp

record DashboardResponse =
  da_organization :: OrganizationHeader
  da_dora :: "DoraMetric list"
  da_repositories :: "RepositorySummary list"
  da_recent_runs :: "RunSummary list"
  da_flaky_tests :: "FlakyTest list"
  da_recommendations :: "Recommendation list"
  da_reports :: "AiReport list"

record RepositoryInsightsResponse =
  ri_repository :: RepositorySummary
  ri_dora :: "DoraMetric list"
  ri_scores :: "ScorePoint list"
  ri_recent_runs :: "RunSummary list"
  ri_flaky_tests :: "FlakyTest list"
  ri_recommendations :: "Recommendation list"
  ri_reports :: "AiReport list"

record RunDetailResponse =
  ru_run :: RunHeader
  ru_jobs :: "JobDetail list"
  ru_tests :: "TestResult list"
  ru_report :: "AiReport option"
  ru_recommendations :: "Recommendation list"
  ru_log :: "BuildLog option"

section \<open>Queries\<close>

definition RECENT_RUN_LIMIT :: nat where "RECENT_RUN_LIMIT = 50"
definition LIST_LIMIT :: nat where "LIST_LIMIT = 50"

text \<open>\<open>$2::uuid IS NULL OR column = $2\<close>.\<close>

definition selected :: "uuid option \<Rightarrow> uuid option \<Rightarrow> bool" where
  "selected parameter column \<longleftrightarrow> parameter = None \<or> column \<noteq> None \<and> column = parameter"

definition organization_header :: "snapshot \<Rightarrow> uuid \<Rightarrow> OrganizationRole \<Rightarrow> OrganizationHeader result" where
  "organization_header s organization_id role =
     (case find (\<lambda>x. o_id x = organization_id \<and> o_deleted_at x = None) (organizations (sn_db s)) of
        None \<Rightarrow> Inl NotFound
      | Some x \<Rightarrow> Inr \<lparr>oh_id = o_id x, oh_slug = o_slug x, oh_name = o_name x, oh_kind = kind_text (o_kind x),
                      oh_role = role_as_str role\<rparr>)"

definition dora_metric :: "dora_row \<Rightarrow> DoraMetric" where
  "dora_metric x =
     \<lparr>do_id = dm_id x, do_repository_id = dm_repository_id x, do_granularity = dm_granularity x,
      do_period_start = dm_period_start x, do_period_end = dm_period_end x, do_deployment_count = dm_deployment_count x,
      do_deployment_frequency = map_option to_f64 (dm_deployment_frequency x),
      do_lead_time_p50_seconds = dm_lead_time_p50_seconds x, do_lead_time_p90_seconds = dm_lead_time_p90_seconds x,
      do_change_failure_rate = map_option to_f64 (dm_change_failure_rate x),
      do_failed_deployment_count = dm_failed_deployment_count x, do_mttr_p50_seconds = dm_mttr_p50_seconds x,
      do_mttr_p90_seconds = dm_mttr_p90_seconds x, do_performance_band = dm_performance_band x,
      do_sample_size = dm_sample_size x, do_computed_at = dm_computed_at x\<rparr>"

definition dora_series :: "snapshot \<Rightarrow> uuid \<Rightarrow> uuid option \<Rightarrow> DoraMetric list" where
  "dora_series s organization_id repository_id =
     map dora_metric (fetch (desc dm_period_start) 16
       (filter (\<lambda>x. dm_organization_id x = organization_id \<and>
            (repository_id = None \<and> dm_repository_id x = None \<or> dm_repository_id x \<noteq> None \<and> dm_repository_id x = repository_id) \<and>
            dm_granularity x = ''weekly'') (dora_metrics s)))"

text \<open>The lateral subqueries of a repository: latest score, runs of the last thirty days, open work.\<close>

definition latest_score :: "snapshot \<Rightarrow> uuid \<Rightarrow> score_row option" where
  "latest_score s repository_id =
     fetch_first (desc rs_computed_at) (filter (\<lambda>x. rs_repository_id x = repository_id) (repository_scores s))"

definition monthly_runs :: "snapshot \<Rightarrow> uuid \<Rightarrow> workflow_run list" where
  "monthly_runs s repository_id =
     filter (\<lambda>w. wr_repository_id w = repository_id \<and>
         (case wr_created_at_github w of None \<Rightarrow> False | Some t \<Rightarrow> t \<ge> sn_now s - seconds (30 * 86400)))
       (workflow_runs (sn_db s))"

definition failed_conclusion :: "workflow_run \<Rightarrow> bool" where
  "failed_conclusion w \<longleftrightarrow>
     (case wr_conclusion w of None \<Rightarrow> False
      | Some c \<Rightarrow> c \<in> {''failure'', ''timed_out'', ''startup_failure'', ''action_required''})"

definition last_run_at :: "workflow_run list \<Rightarrow> timestamp option" where
  "last_run_at runs = (case map (the \<circ> wr_created_at_github) runs of [] \<Rightarrow> None | t # ts \<Rightarrow> Some (fold max ts t))"

definition repository_summary_from_row :: "snapshot \<Rightarrow> repository \<Rightarrow> RepositorySummary" where
  "repository_summary_from_row s r =
     (let latest = latest_score s (r_id r); runs = monthly_runs s (r_id r)
      in \<lparr>su_id = r_id r, su_full_name = full_name r, su_description = r_description r,
          su_default_branch = r_default_branch r, su_primary_language = r_primary_language r,
          su_tracking_enabled = r_tracking_enabled r, su_is_private = r_is_private r, su_html_url = r_html_url r,
          su_overall_score = map_option (to_f64 \<circ> rs_overall_score) latest,
          su_reliability_score = map_option to_f64 (Option.bind latest rs_reliability_score),
          su_velocity_score = map_option to_f64 (Option.bind latest rs_velocity_score),
          su_quality_score = map_option to_f64 (Option.bind latest rs_quality_score),
          su_efficiency_score = map_option to_f64 (Option.bind latest rs_efficiency_score),
          su_grade = Option.bind latest rs_grade, su_score_computed_at = map_option rs_computed_at latest,
          su_run_count = length runs, su_failure_count = length (filter failed_conclusion runs),
          su_last_run_at = last_run_at runs,
          su_flaky_count = length (filter (\<lambda>x. ft_repository_id x = r_id r \<and> ft_is_flaky x \<and> \<not> ft_is_quarantined x)
             (flaky_tests s)),
          su_open_recommendations = length (filter (\<lambda>x. rc_repository_id x = r_id r \<and> rc_status x = ''open'')
             (ai_recommendations s))\<rparr>)"

definition summary_le :: "ext \<Rightarrow> snapshot \<Rightarrow> repository \<Rightarrow> repository \<Rightarrow> bool" where
  "summary_le E s =
     then_by (nulls_last (\<ge>) (\<lambda>r. map_option rs_overall_score (latest_score s (r_id r))))
       (\<lambda>a b. text_le E (full_name a) (full_name b))"

definition repository_summary_rows :: "ext \<Rightarrow> snapshot \<Rightarrow> uuid \<Rightarrow> uuid option \<Rightarrow> repository list" where
  "repository_summary_rows E s organization_id repository_id =
     order_by (summary_le E s)
       (filter (\<lambda>r. r_organization_id r = organization_id \<and> r_deleted_at r = None \<and> selected repository_id (Some (r_id r)))
          (repositories (sn_db s)))"

definition repository_summaries :: "ext \<Rightarrow> snapshot \<Rightarrow> uuid \<Rightarrow> RepositorySummary list" where
  "repository_summaries E s organization_id =
     map (repository_summary_from_row s) (repository_summary_rows E s organization_id None)"

definition repository_summary :: "ext \<Rightarrow> snapshot \<Rightarrow> uuid \<Rightarrow> uuid \<Rightarrow> RepositorySummary option" where
  "repository_summary E s organization_id repository_id =
     (case repository_summary_rows E s organization_id (Some repository_id) of
        [] \<Rightarrow> None | r # _ \<Rightarrow> Some (repository_summary_from_row s r))"

text \<open>A run with its repository and its score.\<close>

type_synonym run_join = "(workflow_run \<times> repository) \<times> build_score_row option"

definition run_joins :: "snapshot \<Rightarrow> (workflow_run \<times> repository \<Rightarrow> bool) \<Rightarrow> run_join list" where
  "run_joins s condition =
     concat (map (\<lambda>x. map (Pair x) (left_join (\<lambda>b. bs_workflow_run_id b = wr_id (fst x)) (build_scores s)))
       (filter condition (inner_join (\<lambda>w r. r_id r = wr_repository_id w) (workflow_runs (sn_db s)) (repositories (sn_db s)))))"

fun run_summary_from_row :: "run_join \<Rightarrow> RunSummary" where
  "run_summary_from_row ((w, r), bs) =
     \<lparr>rn_id = wr_id w, rn_repository_id = wr_repository_id w, rn_repository = full_name r,
      rn_run_number = wr_run_number w, rn_run_attempt = wr_run_attempt w, rn_name = wr_name w, rn_event = wr_event w,
      rn_status = wr_status w, rn_conclusion = wr_conclusion w, rn_head_sha = wr_head_sha w,
      rn_head_branch = wr_head_branch w, rn_actor_login = wr_actor_login w, rn_created_at = wr_created_at_github w,
      rn_started_at = wr_run_started_at w, rn_completed_at = wr_completed_at w,
      rn_queued_duration_ms = queued_duration_ms w, rn_duration_ms = run_duration_ms w,
      rn_score = map_option (to_f64 \<circ> bs_score) bs\<rparr>"

definition run_le :: "snapshot \<Rightarrow> run_join \<Rightarrow> run_join \<Rightarrow> bool" where
  "run_le s =
     then_by (nulls_last (\<ge>) (\<lambda>x. wr_created_at_github (fst (fst x)))) (desc (\<lambda>x. run_created_at s (wr_id (fst (fst x)))))"

definition recent_runs :: "snapshot \<Rightarrow> uuid \<Rightarrow> uuid option \<Rightarrow> nat \<Rightarrow> RunSummary list" where
  "recent_runs s organization_id repository_id limit =
     map run_summary_from_row (fetch (run_le s) limit (run_joins s (\<lambda>(w, r).
       r_organization_id r = organization_id \<and> r_deleted_at r = None \<and> selected repository_id (Some (wr_repository_id w)))))"

definition score_point :: "score_row \<Rightarrow> ScorePoint" where
  "score_point x =
     \<lparr>sp_overall_score = to_f64 (rs_overall_score x), sp_reliability_score = map_option to_f64 (rs_reliability_score x),
      sp_velocity_score = map_option to_f64 (rs_velocity_score x), sp_quality_score = map_option to_f64 (rs_quality_score x),
      sp_efficiency_score = map_option to_f64 (rs_efficiency_score x), sp_grade = rs_grade x,
      sp_computed_at = rs_computed_at x\<rparr>"

definition score_series :: "snapshot \<Rightarrow> uuid \<Rightarrow> ScorePoint list" where
  "score_series s repository_id =
     map score_point (fetch (desc rs_computed_at) 30 (filter (\<lambda>x. rs_repository_id x = repository_id) (repository_scores s)))"

fun flaky_test_from_row :: "flaky_row \<times> repository \<Rightarrow> FlakyTest" where
  "flaky_test_from_row (x, r) =
     \<lparr>fl_id = ft_id x, fl_repository_id = ft_repository_id x, fl_repository = full_name r, fl_test_key = ft_test_key x,
      fl_suite = ft_suite x, fl_classname = ft_classname x, fl_name = ft_name x, fl_window_days = ft_window_days x,
      fl_total_runs = ft_total_runs x, fl_passed_runs = ft_passed_runs x, fl_failed_runs = ft_failed_runs x,
      fl_flip_count = ft_flip_count x, fl_flake_rate = to_f64 (ft_flake_rate x), fl_is_flaky = ft_is_flaky x,
      fl_is_quarantined = ft_is_quarantined x, fl_last_seen_at = ft_last_seen_at x,
      fl_last_failed_at = ft_last_failed_at x, fl_computed_at = ft_computed_at x\<rparr>"

definition flaky_le :: "flaky_row \<times> repository \<Rightarrow> flaky_row \<times> repository \<Rightarrow> bool" where
  "flaky_le =
     then_by (asc (\<lambda>x. ft_is_quarantined (fst x)))
       (then_by (desc (\<lambda>x. ft_flake_rate (fst x))) (desc (\<lambda>x. ft_flip_count (fst x))))"

definition flaky_test_rows :: "snapshot \<Rightarrow> uuid \<Rightarrow> uuid option \<Rightarrow> nat \<Rightarrow> FlakyTest list" where
  "flaky_test_rows s organization_id repository_id limit =
     map flaky_test_from_row (fetch flaky_le limit
       (filter (\<lambda>(x, r). r_organization_id r = organization_id \<and> ft_is_flaky x \<and> selected repository_id (Some (ft_repository_id x)))
          (inner_join (\<lambda>x r. r_id r = ft_repository_id x) (flaky_tests s) (repositories (sn_db s)))))"

fun recommendation_from_row :: "recommendation_row \<times> repository \<Rightarrow> Recommendation" where
  "recommendation_from_row (x, r) =
     \<lparr>re_id = rc_id x, re_report_id = rc_ai_report_id x, re_repository_id = rc_repository_id x,
      re_repository = full_name r, re_category = rc_category x, re_severity = rc_severity x, re_title = rc_title x,
      re_body_md = rc_body_md x, re_evidence = rc_evidence x, re_status = rc_status x, re_created_at = rc_created_at x\<rparr>"

definition severity_rank :: "string \<Rightarrow> nat" where
  "severity_rank severity =
     (if severity = ''critical'' then 0 else if severity = ''high'' then 1 else if severity = ''medium'' then 2
      else if severity = ''low'' then 3 else 4)"

definition recommendation_le :: "recommendation_row \<times> repository \<Rightarrow> recommendation_row \<times> repository \<Rightarrow> bool" where
  "recommendation_le =
     then_by (asc (\<lambda>x. severity_rank (rc_severity (fst x)))) (desc (\<lambda>x. rc_created_at (fst x)))"

definition recommendation_joins :: "snapshot \<Rightarrow> (recommendation_row \<times> repository) list" where
  "recommendation_joins s =
     inner_join (\<lambda>x r. r_id r = rc_repository_id x) (ai_recommendations s) (repositories (sn_db s))"

definition recommendation_rows :: "snapshot \<Rightarrow> uuid \<Rightarrow> uuid option \<Rightarrow> nat \<Rightarrow> Recommendation list" where
  "recommendation_rows s organization_id repository_id limit =
     map recommendation_from_row (fetch recommendation_le limit
       (filter (\<lambda>(x, r). r_organization_id r = organization_id \<and> rc_status x = ''open'' \<and>
            selected repository_id (Some (rc_repository_id x))) (recommendation_joins s)))"

fun report_from_row :: "report_row \<times> repository option \<Rightarrow> AiReport" where
  "report_from_row (x, r) =
     \<lparr>ai_id = ar_id x, ai_repository_id = ar_repository_id x, ai_repository = map_option full_name r,
      ai_workflow_run_id = ar_workflow_run_id x, ai_kind = ar_kind x, ai_status = ar_status x, ai_title = ar_title x,
      ai_summary = ar_summary x, ai_content_md = ar_content_md x, ai_content = ar_content x, ai_model = ar_model x,
      ai_prompt_version = ar_prompt_version x, ai_input_tokens = ar_input_tokens x, ai_output_tokens = ar_output_tokens x,
      ai_cost_usd = map_option to_f64 (ar_cost_usd x), ai_latency_ms = ar_latency_ms x, ai_error = ar_error x,
      ai_requested_at = ar_requested_at x, ai_completed_at = ar_completed_at x\<rparr>"

definition report_joins :: "snapshot \<Rightarrow> (report_row \<Rightarrow> bool) \<Rightarrow> (report_row \<times> repository option) list" where
  "report_joins s condition =
     concat (map (\<lambda>x. map (Pair x) (left_join (\<lambda>r. Some (r_id r) = ar_repository_id x) (repositories (sn_db s))))
       (filter condition (ai_reports s)))"

definition report_rows :: "snapshot \<Rightarrow> uuid \<Rightarrow> uuid option \<Rightarrow> nat \<Rightarrow> AiReport list" where
  "report_rows s organization_id repository_id limit =
     map report_from_row (fetch (desc (\<lambda>x. ar_requested_at (fst x))) limit
       (report_joins s (\<lambda>x. ar_organization_id x = organization_id \<and> selected repository_id (ar_repository_id x))))"

fun run_header_from_row :: "run_join \<Rightarrow> RunHeader" where
  "run_header_from_row ((w, r), bs) =
     \<lparr>rh_id = wr_id w, rh_repository_id = wr_repository_id w, rh_repository = full_name r,
      rh_github_run_id = wr_github_run_id w, rh_run_attempt = wr_run_attempt w, rh_run_number = wr_run_number w,
      rh_name = wr_name w, rh_event = wr_event w, rh_status = wr_status w, rh_conclusion = wr_conclusion w,
      rh_head_sha = wr_head_sha w, rh_head_branch = wr_head_branch w, rh_actor_login = wr_actor_login w,
      rh_triggering_actor_login = wr_triggering_actor_login w, rh_is_default_branch = wr_is_default_branch w,
      rh_created_at = wr_created_at_github w, rh_started_at = wr_run_started_at w, rh_completed_at = wr_completed_at w,
      rh_queued_duration_ms = queued_duration_ms w, rh_duration_ms = run_duration_ms w,
      rh_score = map_option (to_f64 \<circ> bs_score) bs,
      rh_duration_score = map_option to_f64 (Option.bind bs bs_duration_score),
      rh_reliability_score = map_option to_f64 (Option.bind bs bs_reliability_score),
      rh_flakiness_score = map_option to_f64 (Option.bind bs bs_flakiness_score),
      rh_score_breakdown = map_option bs_breakdown bs\<rparr>"

definition run_header :: "snapshot \<Rightarrow> uuid \<Rightarrow> uuid \<Rightarrow> RunHeader option" where
  "run_header s organization_id run_id =
     (case run_joins s (\<lambda>(w, r). wr_id w = run_id \<and> r_organization_id r = organization_id \<and> r_deleted_at r = None) of
        [] \<Rightarrow> None | x # _ \<Rightarrow> Some (run_header_from_row x))"

section \<open>Jobs and their steps\<close>

definition job_detail :: "workflow_job \<Rightarrow> JobDetail" where
  "job_detail j =
     \<lparr>jd_id = wj_id j, jd_name = wj_name j, jd_status = wj_status j, jd_conclusion = wj_conclusion j,
      jd_runner_name = wj_runner_name j, jd_runner_group_name = wj_runner_group_name j, jd_labels = wj_labels j,
      jd_started_at = wj_started_at j, jd_completed_at = wj_completed_at j,
      jd_duration_ms = interval_ms (wj_started_at j) (wj_completed_at j), jd_steps = []\<rparr>"

definition step_detail :: "workflow_step \<Rightarrow> StepDetail" where
  "step_detail t =
     \<lparr>sd_id = ws_id t, sd_number = ws_number t, sd_name = ws_name t, sd_status = ws_status t,
      sd_conclusion = ws_conclusion t, sd_started_at = ws_started_at t, sd_completed_at = ws_completed_at t,
      sd_duration_ms = interval_ms (ws_started_at t) (ws_completed_at t)\<rparr>"

text \<open>The jobs in the order of the query, and the position of each in the vector.\<close>

fun index_jobs :: "workflow_job list \<Rightarrow> JobDetail list \<Rightarrow> (uuid \<rightharpoonup> nat) \<Rightarrow> JobDetail list \<times> (uuid \<rightharpoonup> nat)" where
  "index_jobs [] jobs positions = (jobs, positions)"
| "index_jobs (j # rows) jobs positions =
     index_jobs rows (jobs @ [job_detail j]) (positions(wj_id j \<mapsto> length jobs))"

text \<open>\<open>jobs[*position]\<close> panics beyond the end: \<open>None\<close>.\<close>

fun attach_steps :: "workflow_step list \<Rightarrow> (uuid \<rightharpoonup> nat) \<Rightarrow> JobDetail list \<Rightarrow> JobDetail list option" where
  "attach_steps [] positions jobs = Some jobs"
| "attach_steps (t # rows) positions jobs =
     (case positions (ws_workflow_job_id t) of
        None \<Rightarrow> attach_steps rows positions jobs
      | Some p \<Rightarrow>
          if p < length jobs
          then attach_steps rows positions (jobs[p := (jobs ! p)\<lparr>jd_steps := jd_steps (jobs ! p) @ [step_detail t]\<rparr>])
          else None)"

definition job_query :: "snapshot \<Rightarrow> uuid \<Rightarrow> workflow_job list" where
  "job_query s run_id =
     order_by (then_by (nulls_last (\<le>) wj_started_at) (asc wj_id))
       (filter (\<lambda>j. wj_workflow_run_id j = run_id) (workflow_jobs (sn_db s)))"

definition step_query :: "snapshot \<Rightarrow> uuid \<Rightarrow> workflow_step list" where
  "step_query s run_id =
     map fst (order_by (then_by (asc (\<lambda>x. wj_id (snd x))) (asc (\<lambda>x. ws_number (fst x))))
       (filter (\<lambda>(t, j). wj_workflow_run_id j = run_id)
          (inner_join (\<lambda>t j. wj_id j = ws_workflow_job_id t) (workflow_steps (sn_db s)) (workflow_jobs (sn_db s)))))"

definition job_rows :: "snapshot \<Rightarrow> snapshot \<Rightarrow> uuid \<Rightarrow> JobDetail list option" where
  "job_rows s s' run_id =
     (case index_jobs (job_query s run_id) [] Map.empty of (jobs, positions) \<Rightarrow>
        attach_steps (step_query s' run_id) positions jobs)"

section \<open>Tests, report and log of a run\<close>

definition test_rank :: "string \<Rightarrow> nat" where
  "test_rank status = (if status = ''error'' then 0 else if status = ''failed'' then 1 else 2)"

definition test_le :: "ext \<Rightarrow> test_result \<Rightarrow> test_result \<Rightarrow> bool" where
  "test_le E = then_by (asc (\<lambda>x. test_rank (ts_status x))) (\<lambda>a b. text_le E (ts_test_key a) (ts_test_key b))"

definition test_from_row :: "test_result \<Rightarrow> TestResult" where
  "test_from_row x =
     \<lparr>te_id = ts_id x, te_workflow_job_id = ts_workflow_job_id x, te_test_key = ts_test_key x, te_suite = ts_suite x,
      te_classname = ts_classname x, te_name = ts_name x, te_status = ts_status x, te_duration_ms = ts_duration_ms x,
      te_failure_type = ts_failure_type x, te_failure_message = ts_failure_message x, te_executed_at = ts_executed_at x\<rparr>"

definition test_rows :: "ext \<Rightarrow> snapshot \<Rightarrow> uuid \<Rightarrow> TestResult list" where
  "test_rows E s run_id =
     map test_from_row (fetch (test_le E) 500 (filter (\<lambda>x. ts_workflow_run_id x = run_id) (test_results (sn_db s))))"

definition run_report :: "snapshot \<Rightarrow> uuid \<Rightarrow> AiReport option" where
  "run_report s run_id =
     map_option report_from_row (fetch_first (desc (\<lambda>x. ar_requested_at (fst x)))
       (report_joins s (\<lambda>x. ar_workflow_run_id x = Some run_id)))"

definition recommendations_for_report :: "snapshot \<Rightarrow> uuid \<Rightarrow> Recommendation list" where
  "recommendations_for_report s report_id =
     map recommendation_from_row (order_by (asc (\<lambda>x. rc_created_at (fst x)))
       (filter (\<lambda>(x, r). rc_ai_report_id x = report_id) (recommendation_joins s)))"

definition build_log_of :: "snapshot \<Rightarrow> uuid \<Rightarrow> BuildLog option" where
  "build_log_of s run_id =
     map_option (\<lambda>x. \<lparr>lg_id = bl_id x, lg_size_bytes = bl_size_bytes x, lg_content_type = bl_content_type x,
          lg_content_encoding = bl_content_encoding x, lg_line_count = bl_line_count x,
          lg_expires_at = bl_expires_at x, lg_created_at = bl_created_at x\<rparr>)
       (fetch_first (desc bl_created_at)
          (filter (\<lambda>x. bl_workflow_run_id x = run_id \<and> bl_workflow_job_id x = None) (build_logs (sn_db s))))"

section \<open>Handlers\<close>

definition overview :: "ext \<Rightarrow> (query \<Rightarrow> snapshot) \<Rightarrow> Principal \<Rightarrow> uuid \<Rightarrow> DashboardResponse result" where
  "overview E S p organization_id =
     (case require_organization_role p organization_id Viewer (sn_db (S Q_role)) of
        Inl e \<Rightarrow> Inl e
      | Inr role \<Rightarrow>
          (case organization_header (S Q_organization) organization_id role of
             Inl e \<Rightarrow> Inl e
           | Inr header \<Rightarrow>
               Inr \<lparr>da_organization = header, da_dora = dora_series (S Q_dora) organization_id None,
                    da_repositories = repository_summaries E (S Q_repositories) organization_id,
                    da_recent_runs = recent_runs (S Q_runs) organization_id None RECENT_RUN_LIMIT,
                    da_flaky_tests = flaky_test_rows (S Q_flaky) organization_id None LIST_LIMIT,
                    da_recommendations = recommendation_rows (S Q_recommendations) organization_id None LIST_LIMIT,
                    da_reports = report_rows (S Q_reports) organization_id None LIST_LIMIT\<rparr>))"

definition repository_insights ::
  "ext \<Rightarrow> (query \<Rightarrow> snapshot) \<Rightarrow> Principal \<Rightarrow> uuid \<Rightarrow> uuid \<Rightarrow> RepositoryInsightsResponse result" where
  "repository_insights E S p organization_id repository_id =
     (case require_organization_role p organization_id Viewer (sn_db (S Q_role)) of
        Inl e \<Rightarrow> Inl e
      | Inr role \<Rightarrow>
          (case repository_summary E (S Q_repositories) organization_id repository_id of
             None \<Rightarrow> Inl NotFound
           | Some summary \<Rightarrow>
               Inr \<lparr>ri_repository = summary, ri_dora = dora_series (S Q_dora) organization_id (Some repository_id),
                    ri_scores = score_series (S Q_scores) repository_id,
                    ri_recent_runs = recent_runs (S Q_runs) organization_id (Some repository_id) RECENT_RUN_LIMIT,
                    ri_flaky_tests = flaky_test_rows (S Q_flaky) organization_id (Some repository_id) LIST_LIMIT,
                    ri_recommendations = recommendation_rows (S Q_recommendations) organization_id (Some repository_id) LIST_LIMIT,
                    ri_reports = report_rows (S Q_reports) organization_id (Some repository_id) LIST_LIMIT\<rparr>))"

text \<open>\<open>None\<close> is a panic while the steps are attached.\<close>

definition run_detail :: "ext \<Rightarrow> (query \<Rightarrow> snapshot) \<Rightarrow> Principal \<Rightarrow> uuid \<Rightarrow> uuid \<Rightarrow> RunDetailResponse result option" where
  "run_detail E S p organization_id run_id =
     (case require_organization_role p organization_id Viewer (sn_db (S Q_role)) of
        Inl e \<Rightarrow> Some (Inl e)
      | Inr role \<Rightarrow>
          (case run_header (S Q_run) organization_id run_id of
             None \<Rightarrow> Some (Inl NotFound)
           | Some run \<Rightarrow>
               map_option (\<lambda>jobs.
                 let report = run_report (S Q_report) run_id
                 in Inr \<lparr>ru_run = run, ru_jobs = jobs, ru_tests = test_rows E (S Q_tests) run_id, ru_report = report,
                      ru_recommendations = (case report of None \<Rightarrow> []
                        | Some x \<Rightarrow> recommendations_for_report (S Q_recommendations) (ai_id x)),
                      ru_log = build_log_of (S Q_log) run_id\<rparr>)
               (job_rows (S Q_jobs) (S Q_steps) run_id)))"

section \<open>Grouping steps by position\<close>

definition with_steps :: "workflow_step list \<Rightarrow> JobDetail \<Rightarrow> JobDetail" where
  "with_steps rows j = j\<lparr>jd_steps := jd_steps j @ map step_detail (filter (\<lambda>t. ws_workflow_job_id t = jd_id j) rows)\<rparr>"

text \<open>A position map is right when it finds exactly the jobs of the vector.\<close>

definition indexes :: "(uuid \<rightharpoonup> nat) \<Rightarrow> uuid list \<Rightarrow> bool" where
  "indexes positions ids \<longleftrightarrow> (\<forall>i p. positions i = Some p \<longleftrightarrow> p < length ids \<and> ids ! p = i)"

lemma index_jobs_indexes:
  assumes "indexes positions (map jd_id jobs)" and "distinct (map jd_id jobs @ map wj_id rows)"
  shows "case index_jobs rows jobs positions of (jobs', positions') \<Rightarrow>
    jobs' = jobs @ map job_detail rows \<and> indexes positions' (map jd_id jobs')"
  using assms
proof (induction rows arbitrary: jobs positions)
  case (Cons j rows)
  have id: "jd_id (job_detail j) = wj_id j" by (simp add: job_detail_def)
  have "indexes (positions(wj_id j \<mapsto> length jobs)) (map jd_id (jobs @ [job_detail j]))"
    unfolding indexes_def
  proof (intro allI)
    fix i p
    show "(positions(wj_id j \<mapsto> length jobs)) i = Some p \<longleftrightarrow>
        p < length (map jd_id (jobs @ [job_detail j])) \<and> map jd_id (jobs @ [job_detail j]) ! p = i"
    proof (cases "i = wj_id j")
      case True
      then have "i \<notin> set (map jd_id jobs)" using Cons.prems(2) by auto
      then have "\<not> (p < length jobs \<and> map jd_id jobs ! p = i)" by (metis length_map nth_mem)
      then show ?thesis using True id by (auto simp: nth_append less_Suc_eq)
    next
      case False
      have "positions i = Some p \<longleftrightarrow> p < length jobs \<and> map jd_id jobs ! p = i" using Cons.prems(1) by (simp add: indexes_def)
      then show ?thesis using False id by (auto simp: nth_append less_Suc_eq)
    qed
  qed
  moreover have "distinct (map jd_id (jobs @ [job_detail j]) @ map wj_id rows)" using Cons.prems(2) id by auto
  ultimately show ?case using Cons.IH [of "positions(wj_id j \<mapsto> length jobs)" "jobs @ [job_detail j]"]
    by (simp add: fun_upd_def)
qed simp

lemma attach_steps_groups:
  "indexes positions (map jd_id jobs) \<Longrightarrow> attach_steps rows positions jobs = Some (map (with_steps rows) jobs)"
proof (induction rows arbitrary: jobs)
  case Nil
  then show ?case by (simp add: with_steps_def map_idI)
next
  case (Cons t rows)
  show ?case
  proof (cases "positions (ws_workflow_job_id t)")
    case None
    have "ws_workflow_job_id t \<notin> set (map jd_id jobs)"
    proof
      assume "ws_workflow_job_id t \<in> set (map jd_id jobs)"
      then obtain p where "p < length (map jd_id jobs)" "map jd_id jobs ! p = ws_workflow_job_id t" by (meson in_set_conv_nth)
      with Cons.prems None show False unfolding indexes_def by (metis option.distinct(1))
    qed
    then have "map (with_steps (t # rows)) jobs = map (with_steps rows) jobs" by (auto simp: with_steps_def)
    with None Cons show ?thesis by simp
  next
    case (Some p)
    then have p: "p < length jobs" "jd_id (jobs ! p) = ws_workflow_job_id t" using Cons.prems by (auto simp: indexes_def)
    let ?j = "(jobs ! p)\<lparr>jd_steps := jd_steps (jobs ! p) @ [step_detail t]\<rparr>"
    have ids: "map jd_id (jobs[p := ?j]) = map jd_id jobs" using p by (simp add: map_update list_update_same_conv)
    have "map (with_steps rows) (jobs[p := ?j]) = map (with_steps (t # rows)) jobs"
    proof (rule nth_equalityI)
      fix k assume k: "k < length (map (with_steps rows) (jobs[p := ?j]))"
      have "jd_id (jobs ! k) = ws_workflow_job_id t \<longleftrightarrow> k = p"
        using Cons.prems Some k unfolding indexes_def by (metis length_list_update length_map nth_map option.inject)
      with k show "map (with_steps rows) (jobs[p := ?j]) ! k = map (with_steps (t # rows)) jobs ! k"
        by (auto simp: nth_list_update with_steps_def)
    qed simp
    with Cons.IH [of "jobs[p := ?j]"] Cons.prems ids Some p show ?thesis by simp
  qed
qed

interpretation job_order: sort_order "then_by (nulls_last (\<le>) wj_started_at) (asc wj_id)"
  by (intro sort_orders)

interpretation step_order: sort_order
  "then_by (asc (\<lambda>x :: workflow_step \<times> workflow_job. wj_id (snd x))) (asc (\<lambda>x. ws_number (fst x)))"
  by (intro sort_orders)

lemma distinct_order_by [simp]: "distinct (map f (order_by le rows)) \<longleftrightarrow> distinct (map f rows)"
  by (metis mset_eq_imp_distinct_iff mset_map mset_order_by)

text \<open>The steps of one job come in the order of their numbers.\<close>

lemma step_query_numbers:
  "sorted (map ws_number (filter (\<lambda>t. ws_workflow_job_id t = i) (step_query s run_id)))"
proof -
  let ?join = "filter (\<lambda>(t, j). wj_workflow_run_id j = run_id)
    (inner_join (\<lambda>t j. wj_id j = ws_workflow_job_id t) (workflow_steps (sn_db s)) (workflow_jobs (sn_db s)))"
  let ?le = "then_by (asc (\<lambda>x. wj_id (snd x))) (asc (\<lambda>x. ws_number (fst x)))"
  let ?rows = "filter (\<lambda>x. ws_workflow_job_id (fst x) = i) (order_by ?le ?join)"
  have "sorted_wrt ?le ?rows" using step_order.sorted_rows by (rule sorted_wrt_filter)
  moreover have "wj_id (snd x) = i" if "x \<in> set ?rows" for x using that by (auto simp: set_inner_join)
  then have "ws_number (fst x) \<le> ws_number (fst y)" if "x \<in> set ?rows" "y \<in> set ?rows" "?le x y" for x y
    using that by (simp add: then_by_def asc_def)
  ultimately have "sorted_wrt (\<lambda>x y. ws_number (fst x) \<le> ws_number (fst y)) ?rows" by (rule sorted_wrt_mono_rel [rotated])
  then show ?thesis by (simp add: step_query_def filter_map o_def sorted_wrt_map)
qed

section \<open>What a page may see\<close>

definition tenant_repository :: "uuid \<Rightarrow> snapshot \<Rightarrow> uuid \<Rightarrow> bool" where
  "tenant_repository org s i \<longleftrightarrow> (\<exists>r\<in>set (repositories (sn_db s)). r_id r = i \<and> r_organization_id r = org)"

definition tenant_run :: "uuid \<Rightarrow> snapshot \<Rightarrow> uuid \<Rightarrow> bool" where
  "tenant_run org s i \<longleftrightarrow>
     (\<exists>w\<in>set (workflow_runs (sn_db s)). wr_id w = i \<and> tenant_repository org s (wr_repository_id w))"

text \<open>The snapshot with nothing in it but the rows of one workspace.\<close>

definition purge :: "uuid \<Rightarrow> snapshot \<Rightarrow> snapshot" where
  "purge org s =
     (let d = sn_db s; run = tenant_run org s; repo = tenant_repository org s
      in \<lparr>sn_now = sn_now s,
          sn_db = empty_db\<lparr>
            organizations := filter (\<lambda>x. o_id x = org) (organizations d),
            organization_members := filter (\<lambda>m. m_organization_id m = org) (organization_members d),
            repositories := filter (\<lambda>r. r_organization_id r = org) (repositories d),
            workflow_runs := filter (\<lambda>w. repo (wr_repository_id w)) (workflow_runs d),
            workflow_jobs := filter (\<lambda>j. run (wj_workflow_run_id j)) (workflow_jobs d),
            workflow_steps := filter (\<lambda>t. \<exists>j\<in>set (workflow_jobs d). wj_id j = ws_workflow_job_id t \<and> run (wj_workflow_run_id j))
              (workflow_steps d),
            build_logs := filter (\<lambda>x. run (bl_workflow_run_id x)) (build_logs d),
            test_results := filter (\<lambda>x. run (ts_workflow_run_id x)) (test_results d)\<rparr>,
          dora_metrics = filter (\<lambda>x. dm_organization_id x = org) (dora_metrics s),
          repository_scores = filter (\<lambda>x. repo (rs_repository_id x)) (repository_scores s),
          build_scores = filter (\<lambda>x. run (bs_workflow_run_id x)) (build_scores s),
          flaky_tests = filter (\<lambda>x. repo (ft_repository_id x)) (flaky_tests s),
          ai_reports = filter (\<lambda>x. ar_organization_id x = org) (ai_reports s),
          ai_recommendations = filter (\<lambda>x. repo (rc_repository_id x)) (ai_recommendations s),
          run_created_at = run_created_at s\<rparr>)"

text \<open>
  The foreign keys of the schema, on the rows a page joins (\<^verbatim>\<open>infra/migrations\<close>, 000004 to
  000007 and 000011).
\<close>

definition references_ok :: "snapshot \<Rightarrow> bool" where
  "references_ok s \<longleftrightarrow>
     (let d = sn_db s in
      (\<forall>w\<in>set (workflow_runs d). \<exists>r\<in>set (repositories d). r_id r = wr_repository_id w) \<and>
      (\<forall>j\<in>set (workflow_jobs d). \<exists>w\<in>set (workflow_runs d). wr_id w = wj_workflow_run_id j) \<and>
      (\<forall>x\<in>set (test_results d). \<exists>w\<in>set (workflow_runs d). wr_id w = ts_workflow_run_id x) \<and>
      (\<forall>x\<in>set (build_logs d). \<exists>w\<in>set (workflow_runs d). wr_id w = bl_workflow_run_id x) \<and>
      (\<forall>x\<in>set (repository_scores s). \<exists>r\<in>set (repositories d). r_id r = rs_repository_id x) \<and>
      (\<forall>x\<in>set (ai_reports s). (\<forall>i. ar_repository_id x = Some i \<longrightarrow>
          (\<exists>r\<in>set (repositories d). r_id r = i \<and> r_organization_id r = ar_organization_id x)) \<and>
        (\<forall>i. ar_workflow_run_id x = Some i \<longrightarrow>
          (\<exists>w\<in>set (workflow_runs d). wr_id w = i \<and> ar_repository_id x = Some (wr_repository_id w)))) \<and>
      (\<forall>x\<in>set (ai_recommendations s). \<exists>y\<in>set (ai_reports s).
          ar_id y = rc_ai_report_id x \<and> ar_repository_id y = Some (rc_repository_id x)))"

text \<open>
  Ids are primary keys, also over time: while a request is served no repository changes its
  workspace, no run or report its repository.
\<close>

definition owners_stable :: "(query \<Rightarrow> snapshot) \<Rightarrow> bool" where
  "owners_stable S \<longleftrightarrow>
     (\<forall>q q'. (\<forall>r\<in>set (repositories (sn_db (S q))). \<forall>r'\<in>set (repositories (sn_db (S q'))).
          r_id r = r_id r' \<longrightarrow> r_organization_id r = r_organization_id r') \<and>
       (\<forall>w\<in>set (workflow_runs (sn_db (S q))). \<forall>w'\<in>set (workflow_runs (sn_db (S q'))).
          wr_id w = wr_id w' \<longrightarrow> wr_repository_id w = wr_repository_id w') \<and>
       (\<forall>x\<in>set (ai_reports (S q)). \<forall>x'\<in>set (ai_reports (S q')).
          ar_id x = ar_id x' \<longrightarrow> ar_repository_id x = ar_repository_id x'))"

section \<open>Each query of the purged snapshot\<close>

lemma purge_columns [simp]: "sn_now (purge org s) = sn_now s" "run_created_at (purge org s) = run_created_at s"
  by (simp_all add: purge_def Let_def)

lemma purge_role: "require_organization_role p org minimum (sn_db (purge org s)) = require_organization_role p org minimum (sn_db s)"
proof -
  have "find (\<lambda>m. m_organization_id m = org \<and> m_user_id m = u) (filter (\<lambda>m. m_organization_id m = org) ms) =
      find (\<lambda>m. m_organization_id m = org \<and> m_user_id m = u) ms" for u and ms :: "organization_member list"
    by (induction ms) auto
  then show ?thesis by (auto simp: purge_def Let_def require_organization_role_def live_organization_def member_row_def)
qed

lemma purge_header: "organization_header (purge org s) org role = organization_header s org role"
proof -
  have "find (\<lambda>x. o_id x = org \<and> o_deleted_at x = None) (filter (\<lambda>x. o_id x = org) xs) =
      find (\<lambda>x. o_id x = org \<and> o_deleted_at x = None) xs" for xs :: "organization list"
    by (induction xs) auto
  then show ?thesis by (simp add: purge_def Let_def organization_header_def)
qed

lemma purge_dora: "dora_series (purge org s) org repo = dora_series s org repo"
  unfolding dora_series_def by (rule arg_cong [where f = "\<lambda>x. map dora_metric (fetch _ 16 x)"])
    (auto simp: purge_def Let_def intro!: filter_cong)

lemma purge_of_repository:
  assumes "tenant_repository org s i"
  shows "filter (\<lambda>x. rs_repository_id x = i) (repository_scores (purge org s)) = filter (\<lambda>x. rs_repository_id x = i) (repository_scores s)"
    and "filter (\<lambda>w. wr_repository_id w = i \<and> P w) (workflow_runs (sn_db (purge org s))) =
         filter (\<lambda>w. wr_repository_id w = i \<and> P w) (workflow_runs (sn_db s))"
    and "filter (\<lambda>x. ft_repository_id x = i \<and> Q x) (flaky_tests (purge org s)) = filter (\<lambda>x. ft_repository_id x = i \<and> Q x) (flaky_tests s)"
    and "filter (\<lambda>x. rc_repository_id x = i \<and> R x) (ai_recommendations (purge org s)) =
         filter (\<lambda>x. rc_repository_id x = i \<and> R x) (ai_recommendations s)"
  using assms by (auto simp: purge_def Let_def intro!: filter_cong)

lemma purge_summary:
  assumes "tenant_repository org s (r_id r)"
  shows "repository_summary_from_row (purge org s) r = repository_summary_from_row s r"
    and "latest_score (purge org s) (r_id r) = latest_score s (r_id r)"
proof -
  show score: "latest_score (purge org s) (r_id r) = latest_score s (r_id r)"
    by (simp add: latest_score_def purge_of_repository(1) [OF assms])
  have "monthly_runs (purge org s) (r_id r) = monthly_runs s (r_id r)"
    unfolding monthly_runs_def purge_columns by (rule purge_of_repository(2) [OF assms])
  with score show "repository_summary_from_row (purge org s) r = repository_summary_from_row s r"
    by (simp add: repository_summary_from_row_def Let_def purge_of_repository(3,4) [OF assms])
qed

lemma order_by_cong:
  assumes "\<And>a b. a \<in> set rows \<Longrightarrow> b \<in> set rows \<Longrightarrow> le a b = le' a b"
  shows "order_by le rows = order_by le' rows"
proof -
  have "insert_by le x ys = insert_by le' x ys" if "insert x (set ys) \<subseteq> set rows" for x ys
    using that assms by (induction ys) auto
  moreover have "set xs \<subseteq> set rows \<Longrightarrow> order_by le xs = order_by le' xs" for xs
  proof (induction xs)
    case (Cons x xs)
    then have "order_by le xs = order_by le' xs" "insert x (set (order_by le' xs)) \<subseteq> set rows" by auto
    with calculation show ?case by (simp add: order_by_def)
  qed (simp add: order_by_def)
  ultimately show ?thesis by blast
qed

lemma purge_summary_rows: "repository_summary_rows E (purge org s) org i = repository_summary_rows E s org i"
proof -
  let ?live = "\<lambda>r. r_organization_id r = org \<and> r_deleted_at r = None \<and> selected i (Some (r_id r))"
  have rows: "filter ?live (repositories (sn_db (purge org s))) = filter ?live (repositories (sn_db s))"
    by (auto simp: purge_def Let_def intro!: filter_cong)
  have "latest_score (purge org s) (r_id r) = latest_score s (r_id r)" if "r \<in> set (filter ?live (repositories (sn_db s)))" for r
    by (rule purge_summary(2)) (use that in \<open>auto simp: tenant_repository_def\<close>)
  then have "summary_le E (purge org s) a b = summary_le E s a b"
    if "a \<in> set (filter ?live (repositories (sn_db s)))" "b \<in> set (filter ?live (repositories (sn_db s)))" for a b
    using that by (simp only: summary_le_def then_by_def nulls_last_def)
  then show ?thesis unfolding repository_summary_rows_def rows by (rule order_by_cong)
qed

lemma summary_rows_tenant: "r \<in> set (repository_summary_rows E s org i) \<Longrightarrow> tenant_repository org s (r_id r)"
  by (auto simp: repository_summary_rows_def tenant_repository_def)

lemma purge_summaries: "repository_summaries E (purge org s) org = repository_summaries E s org"
  using summary_rows_tenant purge_summary(1) by (auto simp: repository_summaries_def purge_summary_rows)

lemma purge_repository_summary: "repository_summary E (purge org s) org i = repository_summary E s org i"
  using summary_rows_tenant [of _ E s org "Some i"] purge_summary(1)
  by (auto simp: repository_summary_def purge_summary_rows split: list.splits)

lemma filter_inner_join_restrict:
  assumes "\<And>a b. a \<in> set rows \<Longrightarrow> b \<in> set others \<Longrightarrow> match a b \<Longrightarrow> c (a, b) \<Longrightarrow> Q b"
    and "\<And>a b. b \<in> set others \<Longrightarrow> match a b \<Longrightarrow> Q b \<Longrightarrow> P a"
  shows "filter c (inner_join match (filter P rows) (filter Q others)) = filter c (inner_join match rows others)"
  using assms(1)
proof (induction rows)
  case (Cons a rows)
  have one: "filter c (map (Pair a) (filter (match a) (filter Q others))) = filter c (map (Pair a) (filter (match a) others))"
    using Cons.prems by (auto simp: filter_map o_def intro!: filter_cong arg_cong [where f = "map (Pair a)"])
  have "\<not> P a \<Longrightarrow> filter c (map (Pair a) (filter (match a) others)) = []"
    using Cons.prems assms(2) by (fastforce simp: filter_empty_conv)
  moreover have "filter c (inner_join match (filter P rows) (filter Q others)) = filter c (inner_join match rows others)"
    by (rule Cons.IH) (use Cons.prems in auto)
  ultimately show ?case using one by (simp add: inner_join_def)
qed (simp add: inner_join_def)

lemma purge_flaky: "flaky_test_rows (purge org s) org i n = flaky_test_rows s org i n"
proof -
  let ?c = "\<lambda>(x, r). r_organization_id r = org \<and> ft_is_flaky x \<and> selected i (Some (ft_repository_id x))"
  have "filter ?c (inner_join (\<lambda>x r. r_id r = ft_repository_id x) (flaky_tests (purge org s)) (repositories (sn_db (purge org s)))) =
      filter ?c (inner_join (\<lambda>x r. r_id r = ft_repository_id x) (flaky_tests s) (repositories (sn_db s)))"
    unfolding purge_def Let_def by simp (rule filter_inner_join_restrict, auto simp: tenant_repository_def)
  then show ?thesis by (simp add: flaky_test_rows_def)
qed

lemma purge_recommendations:
  assumes "\<And>x r. x \<in> set (ai_recommendations s) \<Longrightarrow> r \<in> set (repositories (sn_db s)) \<Longrightarrow> r_id r = rc_repository_id x \<Longrightarrow>
    c (x, r) \<Longrightarrow> r_organization_id r = org"
  shows "filter c (recommendation_joins (purge org s)) = filter c (recommendation_joins s)"
  unfolding purge_def Let_def recommendation_joins_def using assms
  by simp (rule filter_inner_join_restrict, auto simp: tenant_repository_def)

lemma purge_runs:
  assumes "\<And>w r. c (w, r) \<Longrightarrow> r_organization_id r = org"
  shows "run_joins (purge org s) c = run_joins s c"
proof -
  let ?m = "\<lambda>w r. r_id r = wr_repository_id w"
  have rows: "filter c (inner_join ?m (workflow_runs (sn_db (purge org s))) (repositories (sn_db (purge org s)))) =
      filter c (inner_join ?m (workflow_runs (sn_db s)) (repositories (sn_db s)))"
    unfolding purge_def Let_def using assms by simp (rule filter_inner_join_restrict, auto simp: tenant_repository_def)
  have "left_join (\<lambda>b. bs_workflow_run_id b = wr_id (fst x)) (build_scores (purge org s)) =
      left_join (\<lambda>b. bs_workflow_run_id b = wr_id (fst x)) (build_scores s)"
    if "x \<in> set (filter c (inner_join ?m (workflow_runs (sn_db s)) (repositories (sn_db s))))" for x
  proof -
    obtain w r where "x = (w, r)" by (rule prod.exhaust)
    then have "tenant_run org s (wr_id (fst x))"
      using that assms [of w r] by (auto simp: set_inner_join tenant_run_def tenant_repository_def)
    then show ?thesis by (simp add: purge_def Let_def) (rule left_join_restrict, simp)
  qed
  then show ?thesis unfolding run_joins_def rows by (auto intro!: arg_cong [where f = concat])
qed

lemma purge_recent_runs: "recent_runs (purge org s) org i n = recent_runs s org i n"
proof -
  have "run_le (purge org s) = run_le s" by (simp add: run_le_def)
  moreover have "run_joins (purge org s) (\<lambda>(w, r). r_organization_id r = org \<and> r_deleted_at r = None \<and>
        selected i (Some (wr_repository_id w))) =
      run_joins s (\<lambda>(w, r). r_organization_id r = org \<and> r_deleted_at r = None \<and> selected i (Some (wr_repository_id w)))"
    by (rule purge_runs) auto
  ultimately show ?thesis by (simp add: recent_runs_def)
qed

lemma purge_run_header: "run_header (purge org s) org i = run_header s org i"
proof -
  have "run_joins (purge org s) (\<lambda>(w, r). wr_id w = i \<and> r_organization_id r = org \<and> r_deleted_at r = None) =
      run_joins s (\<lambda>(w, r). wr_id w = i \<and> r_organization_id r = org \<and> r_deleted_at r = None)"
    by (rule purge_runs) auto
  then show ?thesis by (simp add: run_header_def)
qed

lemma purge_reports:
  assumes "\<And>x. c x \<Longrightarrow> x \<in> set (ai_reports s) \<Longrightarrow> ar_organization_id x = org"
    and "\<And>x r. x \<in> set (ai_reports s) \<Longrightarrow> r \<in> set (repositories (sn_db s)) \<Longrightarrow> ar_repository_id x = Some (r_id r) \<Longrightarrow>
       r_organization_id r = ar_organization_id x"
  shows "report_joins (purge org s) c = report_joins s c"
proof -
  have rows: "filter c (ai_reports (purge org s)) = filter c (ai_reports s)"
    using assms(1) by (auto simp: purge_def Let_def intro!: filter_cong)
  have "left_join (\<lambda>r. Some (r_id r) = ar_repository_id x) (repositories (sn_db (purge org s))) =
      left_join (\<lambda>r. Some (r_id r) = ar_repository_id x) (repositories (sn_db s))" if "x \<in> set (filter c (ai_reports s))" for x
    using that assms by (simp add: purge_def Let_def) (rule left_join_restrict, metis)
  then show ?thesis unfolding report_joins_def rows by (auto intro!: arg_cong [where f = concat])
qed

section \<open>Pages of one run\<close>

lemma purge_of_run:
  assumes "tenant_run org s i"
  shows "filter (\<lambda>j. wj_workflow_run_id j = i) (workflow_jobs (sn_db (purge org s))) = filter (\<lambda>j. wj_workflow_run_id j = i) (workflow_jobs (sn_db s))"
    and "filter (\<lambda>x. ts_workflow_run_id x = i) (test_results (sn_db (purge org s))) =
         filter (\<lambda>x. ts_workflow_run_id x = i) (test_results (sn_db s))"
    and "filter (\<lambda>x. bl_workflow_run_id x = i \<and> P x) (build_logs (sn_db (purge org s))) =
         filter (\<lambda>x. bl_workflow_run_id x = i \<and> P x) (build_logs (sn_db s))"
  using assms by (auto simp: purge_def Let_def intro!: filter_cong)

lemma purge_steps:
  assumes "tenant_run org s i"
  shows "step_query (purge org s) i = step_query s i"
proof -
  let ?c = "\<lambda>(t :: workflow_step, j). wj_workflow_run_id j = i"
  have "filter ?c (inner_join (\<lambda>t j. wj_id j = ws_workflow_job_id t) (workflow_steps (sn_db (purge org s))) (workflow_jobs (sn_db (purge org s)))) =
      filter ?c (inner_join (\<lambda>t j. wj_id j = ws_workflow_job_id t) (workflow_steps (sn_db s)) (workflow_jobs (sn_db s)))"
    unfolding purge_def Let_def using assms by simp (rule filter_inner_join_restrict, auto)
  then show ?thesis by (simp add: step_query_def)
qed

text \<open>When the run belongs to the workspace, or no row mentions it, the purged tables give the same page.\<close>

lemma purge_run_pages:
  assumes "references_ok s" and "\<And>w. w \<in> set (workflow_runs (sn_db s)) \<Longrightarrow> wr_id w = i \<Longrightarrow> tenant_repository org s (wr_repository_id w)"
  shows "job_query (purge org s) i = job_query s i" and "step_query (purge org s) i = step_query s i"
    and "test_rows E (purge org s) i = test_rows E s i" and "build_log_of (purge org s) i = build_log_of s i"
proof -
  have "(job_query (purge org s) i = job_query s i \<and> step_query (purge org s) i = step_query s i) \<and>
    test_rows E (purge org s) i = test_rows E s i \<and> build_log_of (purge org s) i = build_log_of s i"
  proof (cases "\<exists>w\<in>set (workflow_runs (sn_db s)). wr_id w = i")
    case True
    then have "tenant_run org s i" using assms(2) by (auto simp: tenant_run_def)
    then show ?thesis by (simp add: purge_of_run purge_steps job_query_def test_rows_def build_log_of_def)
  next
    case False
    then have none: "\<And>j. j \<in> set (workflow_jobs (sn_db s)) \<Longrightarrow> wj_workflow_run_id j \<noteq> i"
      "\<And>x. x \<in> set (test_results (sn_db s)) \<Longrightarrow> ts_workflow_run_id x \<noteq> i"
      "\<And>x. x \<in> set (build_logs (sn_db s)) \<Longrightarrow> bl_workflow_run_id x \<noteq> i"
      using assms(1) by (force simp: references_ok_def Let_def)+
    have "filter (\<lambda>j. wj_workflow_run_id j = i) (workflow_jobs (sn_db s)) = []"
      "filter (\<lambda>x. ts_workflow_run_id x = i) (test_results (sn_db s)) = []"
      "filter (\<lambda>x. bl_workflow_run_id x = i \<and> bl_workflow_job_id x = None) (build_logs (sn_db s)) = []"
      "filter (\<lambda>(t, j). wj_workflow_run_id j = i) (inner_join (\<lambda>t j. wj_id j = ws_workflow_job_id t) (workflow_steps (sn_db s))
         (workflow_jobs (sn_db s))) = []"
      using none by (auto simp: filter_empty_conv set_inner_join)
    moreover have "filter (\<lambda>j. wj_workflow_run_id j = i) (workflow_jobs (sn_db (purge org s))) = []"
      "filter (\<lambda>x. ts_workflow_run_id x = i) (test_results (sn_db (purge org s))) = []"
      "filter (\<lambda>x. bl_workflow_run_id x = i \<and> bl_workflow_job_id x = None) (build_logs (sn_db (purge org s))) = []"
      "filter (\<lambda>(t, j). wj_workflow_run_id j = i) (inner_join (\<lambda>t j. wj_id j = ws_workflow_job_id t) (workflow_steps (sn_db (purge org s)))
         (workflow_jobs (sn_db (purge org s)))) = []"
      using none by (auto simp: purge_def Let_def filter_empty_conv set_inner_join)
    ultimately show ?thesis by (simp add: job_query_def step_query_def test_rows_def build_log_of_def)
  qed
  then show "job_query (purge org s) i = job_query s i" "step_query (purge org s) i = step_query s i"
    "test_rows E (purge org s) i = test_rows E s i" "build_log_of (purge org s) i = build_log_of s i" by blast+
qed

lemma run_repository: "references_ok s \<Longrightarrow> w \<in> set (workflow_runs (sn_db s)) \<Longrightarrow> \<exists>r\<in>set (repositories (sn_db s)). r_id r = wr_repository_id w"
  and score_repository:
    "references_ok s \<Longrightarrow> y \<in> set (repository_scores s) \<Longrightarrow> \<exists>r\<in>set (repositories (sn_db s)). r_id r = rs_repository_id y"
  and report_repository: "references_ok s \<Longrightarrow> x \<in> set (ai_reports s) \<Longrightarrow> ar_repository_id x = Some i \<Longrightarrow>
    \<exists>r\<in>set (repositories (sn_db s)). r_id r = i \<and> r_organization_id r = ar_organization_id x"
  and report_run: "references_ok s \<Longrightarrow> x \<in> set (ai_reports s) \<Longrightarrow> ar_workflow_run_id x = Some i \<Longrightarrow>
    \<exists>w\<in>set (workflow_runs (sn_db s)). wr_id w = i \<and> ar_repository_id x = Some (wr_repository_id w)"
  and recommendation_report: "references_ok s \<Longrightarrow> z \<in> set (ai_recommendations s) \<Longrightarrow>
    \<exists>y\<in>set (ai_reports s). ar_id y = rc_ai_report_id z \<and> ar_repository_id y = Some (rc_repository_id z)"
  unfolding references_ok_def Let_def by blast+

lemma report_owner:
  assumes "references_ok s" "owners_stable S" "s = S q" "x \<in> set (ai_reports s)" "r \<in> set (repositories (sn_db s))"
    and "ar_repository_id x = Some (r_id r)"
  shows "r_organization_id r = ar_organization_id x"
proof -
  obtain r' where "r' \<in> set (repositories (sn_db s))" "r_id r' = r_id r" "r_organization_id r' = ar_organization_id x"
    using report_repository [OF assms(1,4,6)] by blast
  with assms(2,3,5) show ?thesis unfolding owners_stable_def by metis
qed

text \<open>A run a page was opened for is the workspace's own in everything the page sees.\<close>

lemma run_owned:
  assumes "run_header (S q0) org run = Some h" and "owners_stable S" and "references_ok (S q)"
    and "w \<in> set (workflow_runs (sn_db (S q)))" and "wr_id w = run"
  shows "tenant_repository org (S q) (wr_repository_id w)"
    and "r \<in> set (repositories (sn_db (S q'))) \<Longrightarrow> r_id r = wr_repository_id w \<Longrightarrow> r_organization_id r = org"
proof -
  obtain w0 r0 where w0: "w0 \<in> set (workflow_runs (sn_db (S q0)))" "wr_id w0 = run" and
    r0: "r0 \<in> set (repositories (sn_db (S q0)))" "r_id r0 = wr_repository_id w0" "r_organization_id r0 = org"
  proof -
    have "run_joins (S q0) (\<lambda>(w, r). wr_id w = run \<and> r_organization_id r = org \<and> r_deleted_at r = None) \<noteq> []"
      using assms(1) by (auto simp: run_header_def)
    then obtain x where "x \<in> set (filter (\<lambda>(w, r). wr_id w = run \<and> r_organization_id r = org \<and> r_deleted_at r = None)
        (inner_join (\<lambda>w r. r_id r = wr_repository_id w) (workflow_runs (sn_db (S q0))) (repositories (sn_db (S q0)))))"
      unfolding run_joins_def by (metis (no_types, lifting) concat.simps(1) ex_in_conv list.map(1) set_empty)
    then show ?thesis using that by (auto simp: set_inner_join)
  qed
  have same: "wr_repository_id w = wr_repository_id w0"
    using assms(2,4,5) w0 unfolding owners_stable_def by metis
  show own: "r_organization_id r = org" if "r \<in> set (repositories (sn_db (S q')))" "r_id r = wr_repository_id w" for r q'
    using assms(2) that r0 same unfolding owners_stable_def by metis
  from run_repository [OF assms(3,4)] own [of _ q] show "tenant_repository org (S q) (wr_repository_id w)"
    by (auto simp: tenant_repository_def)
qed

lemma purge_run_report:
  assumes "run_header (S q0) org run = Some h" and "owners_stable S" and "references_ok (S q)"
  shows "run_report (purge org (S q)) run = run_report (S q) run"
proof -
  have "report_joins (purge org (S q)) (\<lambda>x. ar_workflow_run_id x = Some run) = report_joins (S q) (\<lambda>x. ar_workflow_run_id x = Some run)"
  proof (rule purge_reports)
    fix x assume x: "ar_workflow_run_id x = Some run" "x \<in> set (ai_reports (S q))"
    from report_run [OF assms(3) x(2,1)] obtain w where
      w: "w \<in> set (workflow_runs (sn_db (S q)))" "wr_id w = run" "ar_repository_id x = Some (wr_repository_id w)" by blast
    from report_repository [OF assms(3) x(2) w(3)] run_owned(2) [OF assms(1-3) w(1,2)]
    show "ar_organization_id x = org" by metis
  qed (use report_owner [OF assms(3,2) refl] in blast)
  then show ?thesis by (simp add: run_report_def)
qed

lemma purge_report_recommendations:
  assumes "run_header (S q0) org run = Some h" and "owners_stable S" and "references_ok (S q)" and "references_ok (S q')"
    and "run_report (S q) run = Some report"
  shows "recommendations_for_report (purge org (S q')) (ai_id report) = recommendations_for_report (S q') (ai_id report)"
proof -
  obtain x where x: "x \<in> set (ai_reports (S q))" "ar_workflow_run_id x = Some run" "ai_id report = ar_id x"
    using assms(5) by (auto simp: run_report_def report_joins_def dest!: fetch_first_in)
  from report_run [OF assms(3) x(1,2)] obtain w where
    w: "w \<in> set (workflow_runs (sn_db (S q)))" "wr_id w = run" "ar_repository_id x = Some (wr_repository_id w)" by blast
  have "filter (\<lambda>(z, r). rc_ai_report_id z = ai_id report) (recommendation_joins (purge org (S q'))) =
      filter (\<lambda>(z, r). rc_ai_report_id z = ai_id report) (recommendation_joins (S q'))"
  proof (rule purge_recommendations)
    fix z r assume z: "z \<in> set (ai_recommendations (S q'))" and r: "r \<in> set (repositories (sn_db (S q')))" "r_id r = rc_repository_id z"
      and "case (z, r) of (z, r) \<Rightarrow> rc_ai_report_id z = ai_id report"
    with recommendation_report [OF assms(4) z] obtain y where
      "y \<in> set (ai_reports (S q'))" "ar_id y = ar_id x" "ar_repository_id y = Some (rc_repository_id z)" using x(3) by auto
    with x(1) w(3) assms(2) have "rc_repository_id z = wr_repository_id w" unfolding owners_stable_def by (metis option.inject)
    with r run_owned(2) [OF assms(1-3) w(1,2)] show "r_organization_id r = org" by metis
  qed
  then show ?thesis by (simp add: recommendations_for_report_def)
qed

section \<open>Properties\<close>

lemma summary_repository:
  assumes "repository_summary E s org repo = Some summary"
  shows "\<exists>r\<in>set (repositories (sn_db s)). r_id r = repo \<and> r_organization_id r = org"
proof -
  obtain r rest where "repository_summary_rows E s org (Some repo) = r # rest"
    using assms by (auto simp: repository_summary_def split: list.splits)
  then have "r \<in> set (repository_summary_rows E s org (Some repo))" by simp
  then show ?thesis by (auto simp: repository_summary_rows_def selected_def)
qed

lemma purge_scores:
  assumes "repository_summary E (S q') org repo = Some summary" and "owners_stable S" and "references_ok (S q)"
  shows "score_series (purge org (S q)) repo = score_series (S q) repo"
proof (cases "tenant_repository org (S q) repo")
  case False
  obtain r' where r': "r' \<in> set (repositories (sn_db (S q')))" "r_id r' = repo" "r_organization_id r' = org"
    using summary_repository [OF assms(1)] by blast
  have "rs_repository_id y \<noteq> repo" if "y \<in> set (repository_scores (S q))" for y
  proof
    assume "rs_repository_id y = repo"
    with score_repository [OF assms(3) that] obtain r where "r \<in> set (repositories (sn_db (S q)))" "r_id r = repo" by blast
    with r' assms(2) have "r_organization_id r = org" unfolding owners_stable_def by metis
    with False \<open>r \<in> _\<close> \<open>r_id r = repo\<close> show False by (auto simp: tenant_repository_def)
  qed
  then show ?thesis by (simp add: score_series_def purge_def Let_def filter_empty_conv cong: conj_cong)
qed (simp add: score_series_def purge_of_repository)

text \<open>
  C38. Workspaces are isolated. Under the foreign keys of the schema, the three pages of a
  workspace are functions of that workspace's own rows: served from snapshots that hold nothing
  but its organization row, its members, its repositories and what belongs to them, every
  request gets the same answer, whatever the other workspaces hold and however the queries of
  the request interleave with writes.
\<close>

theorem pages_are_isolated:
  assumes "\<forall>q. references_ok (S q)" and "owners_stable S"
  shows "overview E (\<lambda>q. purge org (S q)) p org = overview E S p org \<and>
    repository_insights E (\<lambda>q. purge org (S q)) p org repo = repository_insights E S p org repo \<and>
    run_detail E (\<lambda>q. purge org (S q)) p org run = run_detail E S p org run"
proof -
  have refs: "references_ok (S q)" for q using assms(1) by blast
  have reports: "report_rows (purge org (S q)) org i n = report_rows (S q) org i n" for q i n
    unfolding report_rows_def
    by (subst purge_reports) (use report_owner [OF refs assms(2) refl, of _ q] in auto)
  have recs: "recommendation_rows (purge org (S q)) org i n = recommendation_rows (S q) org i n" for q i n
    unfolding recommendation_rows_def by (subst purge_recommendations) auto
  have scores: "score_series (purge org (S q)) repo = score_series (S q) repo"
    if "repository_summary E (S q') org repo = Some summary" for q q' summary
    using that by (rule purge_scores [OF _ assms(2) refs])
  have pages: "job_query (purge org (S q)) run = job_query (S q) run" "step_query (purge org (S q)) run = step_query (S q) run"
    "test_rows E (purge org (S q)) run = test_rows E (S q) run" "build_log_of (purge org (S q)) run = build_log_of (S q) run"
    if "run_header (S Q_run) org run = Some h" for q h
    using purge_run_pages [OF refs] run_owned(1) [OF that assms(2) refs] by blast+
  have "overview E (\<lambda>q. purge org (S q)) p org = overview E S p org"
    unfolding overview_def purge_role purge_header purge_dora purge_summaries purge_recent_runs purge_flaky recs reports ..
  moreover have "repository_insights E (\<lambda>q. purge org (S q)) p org repo = repository_insights E S p org repo"
    by (simp add: repository_insights_def purge_role purge_repository_summary purge_dora purge_recent_runs purge_flaky recs
        reports scores split: sum.split option.split)
  moreover have "run_detail E (\<lambda>q. purge org (S q)) p org run = run_detail E S p org run"
  proof (cases "run_header (S Q_run) org run")
    case (Some h)
    note report = purge_run_report [OF Some assms(2) refs] and recommendations = purge_report_recommendations [OF Some assms(2) refs refs]
    show ?thesis
      by (simp add: run_detail_def purge_role purge_run_header Some job_rows_def pages [OF Some] report recommendations Let_def
          split: sum.split option.split)
  qed (simp add: run_detail_def purge_role purge_run_header split: sum.split)
  ultimately show ?thesis by blast
qed

text \<open>
  C39. The grouping of steps by vector position is the obvious one, and it never indexes out of
  range: whatever was inserted or removed between the two queries, the page lists the jobs of
  the run in order, each with exactly the steps that name it, in the order of their numbers.
\<close>

theorem steps_grouped_by_job:
  assumes "distinct (map wj_id (workflow_jobs (sn_db s)))"
  shows "job_rows s s' run = Some (map (\<lambda>j. (job_detail j)\<lparr>jd_steps := map step_detail
             (filter (\<lambda>t. ws_workflow_job_id t = wj_id j) (step_query s' run))\<rparr>) (job_query s run)) \<and>
    (\<forall>i. sorted (map ws_number (filter (\<lambda>t. ws_workflow_job_id t = i) (step_query s' run))))"
proof -
  have "distinct (map wj_id (filter (\<lambda>j. wj_workflow_run_id j = run) (workflow_jobs (sn_db s))))"
    using assms by (rule distinct_map_filter)
  then have "distinct (map wj_id (job_query s run))" by (simp add: job_query_def)
  moreover have "indexes Map.empty []" by (simp add: indexes_def)
  ultimately have "case index_jobs (job_query s run) [] Map.empty of (jobs', positions') \<Rightarrow>
      jobs' = map job_detail (job_query s run) \<and> indexes positions' (map jd_id jobs')"
    using index_jobs_indexes [of Map.empty "[]" "job_query s run"] by simp
  then have "job_rows s s' run = Some (map (with_steps (step_query s' run)) (map job_detail (job_query s run)))"
    using attach_steps_groups by (auto simp: job_rows_def split: prod.splits)
  then show ?thesis using step_query_numbers by (simp add: with_steps_def job_detail_def)
qed

interpretation run_order: sort_order "run_le s" for s
  unfolding run_le_def by (intro sort_orders)

lemma left_join_exists: "\<exists>b. b \<in> set (left_join match rows)"
  by (cases "filter match rows") (auto simp: left_join_def)

abbreviation shown_runs :: "snapshot \<Rightarrow> uuid \<Rightarrow> uuid option \<Rightarrow> ((workflow_run \<times> repository) \<times> build_score_row option) list" where
  "shown_runs s org selection \<equiv>
     run_joins s (\<lambda>(w, r). r_organization_id r = org \<and> r_deleted_at r = None \<and> selected selection (Some (wr_repository_id w)))"

lemma summary_created: "rn_created_at (run_summary_from_row x) = wr_created_at_github (fst (fst x))"
  by (cases x) auto

lemma run_le_newest: "run_le s a b \<Longrightarrow> nulls_last (\<ge>) (\<lambda>x. wr_created_at_github (fst (fst x))) a b"
  by (auto simp: run_le_def then_by_def split: if_splits)

lemma recent_runs_sorted: "sorted_wrt (nulls_last (\<ge>) rn_created_at) (recent_runs s org selection limit)"
proof -
  have "nulls_last (\<ge>) rn_created_at (run_summary_from_row a) (run_summary_from_row b) =
      nulls_last (\<ge>) (\<lambda>x. wr_created_at_github (fst (fst x))) a b" for a b by (simp only: nulls_last_def summary_created)
  moreover have "sorted_wrt (nulls_last (\<ge>) (\<lambda>x. wr_created_at_github (fst (fst x)))) (fetch (run_le s) limit (shown_runs s org selection))"
    using run_order.sorted_fetch by (rule sorted_wrt_mono_rel [rotated]) (rule run_le_newest)
  ultimately show ?thesis by (simp add: recent_runs_def sorted_wrt_map)
qed

lemma recent_runs_shown:
  assumes "x \<in> set (recent_runs s org selection limit)"
  shows "\<exists>w\<in>set (workflow_runs (sn_db s)). \<exists>r\<in>set (repositories (sn_db s)). rn_id x = wr_id w \<and> rn_created_at x = wr_created_at_github w \<and> rn_repository_id x = r_id r \<and>
    wr_repository_id w = r_id r \<and> r_organization_id r = org \<and> r_deleted_at r = None"
proof -
  obtain w r b where "((w, r), b) \<in> set (fetch (run_le s) limit (shown_runs s org selection))" and x: "x = run_summary_from_row ((w, r), b)"
    using assms by (auto simp: recent_runs_def)
  from this(1) have "((w, r), b) \<in> set (shown_runs s org selection)" by (rule subsetD [OF fetch_subset])
  then have "w \<in> set (workflow_runs (sn_db s)) \<and> r \<in> set (repositories (sn_db s)) \<and> r_id r = wr_repository_id w \<and>
      r_organization_id r = org \<and> r_deleted_at r = None" by (auto simp: run_joins_def set_inner_join)
  then show ?thesis unfolding x by (intro bexI [of _ w] bexI [of _ r]) simp_all
qed

lemma run_joined:
  assumes "w \<in> set (workflow_runs (sn_db s))" "r \<in> set (repositories (sn_db s))" "wr_repository_id w = r_id r" "c (w, r)"
  shows "\<exists>b. ((w, r), b) \<in># mset (run_joins s c)"
proof -
  obtain b where "b \<in> set (left_join (\<lambda>b. bs_workflow_run_id b = wr_id w) (build_scores s))"
    using left_join_exists by blast
  moreover have "(w, r) \<in> set (filter c (inner_join (\<lambda>w r. r_id r = wr_repository_id w) (workflow_runs (sn_db s)) (repositories (sn_db s))))"
    using assms by (auto simp: set_inner_join)
  ultimately show ?thesis unfolding run_joins_def set_mset_mset set_concat set_map by fastforce
qed

lemma recent_runs_newest:
  assumes "w \<in> set (workflow_runs (sn_db s))" "r \<in> set (repositories (sn_db s))"
    and "wr_repository_id w = r_id r \<and> r_organization_id r = org \<and> r_deleted_at r = None \<and> selection \<in> {None, Some (r_id r)}"
  shows "(\<exists>x\<in>set (recent_runs s org selection limit). rn_id x = wr_id w) \<or>
    length (recent_runs s org selection limit) = limit \<and>
      (\<forall>x\<in>set (recent_runs s org selection limit). nulls_last (\<ge>) id (rn_created_at x) (wr_created_at_github w))"
proof -
  let ?rows = "shown_runs s org selection" and ?shown = "fetch (run_le s) limit (shown_runs s org selection)"
  obtain b where row: "((w, r), b) \<in># mset ?rows"
    using run_joined [OF assms(1,2), of "\<lambda>(w, r). r_organization_id r = org \<and> r_deleted_at r = None \<and> selected selection (Some (wr_repository_id w))"]
      assms(3) by (auto simp: selected_def)
  obtain hidden where hidden: "mset ?rows = mset ?shown + hidden"
    using fetch_mset [of ?rows "run_le s" limit] by (elim exE)
  from row consider "((w, r), b) \<in> set ?shown" | "((w, r), b) \<in># hidden"
    unfolding hidden union_iff set_mset_mset by (elim disjE)
  then show ?thesis
  proof cases
    case 1
    then show ?thesis by (force simp: recent_runs_def)
  next
    case 2
    then have "hidden \<noteq> {#}" by auto
    then have "length ?shown < length ?rows" using arg_cong [OF hidden, of size] by (simp add: nonempty_has_size)
    then have "length ?shown = limit" by (simp add: length_fetch)
    moreover have "nulls_last (\<ge>) id (rn_created_at (run_summary_from_row y)) (wr_created_at_github w)" if "y \<in> set ?shown" for y
      using run_le_newest [OF run_order.fetch_is_first [OF hidden 2 that]] by (simp only: nulls_last_def summary_created fst_conv id_apply)
    ultimately show ?thesis by (auto simp: recent_runs_def)
  qed
qed


section \<open>Examples\<close>

text \<open>Two workspaces with a repository, a run and a report each.\<close>

definition shown_repository :: "uuid \<Rightarrow> uuid \<Rightarrow> repository" where
  "shown_repository i org =
     \<lparr>r_id = i, r_organization_id = org, r_github_repo_id = int i, r_owner_login = ''o'', r_name = ''n'', r_default_branch = ''main'',
      r_tracking_enabled = True, r_deleted_at = None, r_description = None, r_is_private = True, r_is_archived = False,
      r_is_fork = False, r_primary_language = None, r_html_url = None, r_github_created_at = None, r_github_pushed_at = None,
      r_created_at = 0\<rparr>"

definition shown_run :: "uuid \<Rightarrow> uuid \<Rightarrow> int \<Rightarrow> workflow_run" where
  "shown_run i repo created =
     \<lparr>wr_id = i, wr_repository_id = repo, wr_workflow_id = None, wr_github_run_id = int i, wr_run_attempt = 1, wr_run_number = 1,
      wr_name = None, wr_event = ''push'', wr_status = ''completed'', wr_conclusion = Some ''success'', wr_head_sha = ''s'',
      wr_head_branch = None, wr_head_commit_id = None, wr_pull_request_id = None, wr_actor_login = None,
      wr_triggering_actor_login = None, wr_is_default_branch = True, wr_created_at_github = Some created,
      wr_run_started_at = None, wr_completed_at = None\<rparr>"

definition shown_job :: "uuid \<Rightarrow> uuid \<Rightarrow> uuid \<Rightarrow> workflow_job" where
  "shown_job i run repo =
     \<lparr>wj_id = i, wj_workflow_run_id = run, wj_repository_id = repo, wj_github_job_id = int i, wj_run_attempt = 1, wj_name = ''build'',
      wj_status = ''completed'', wj_conclusion = None, wj_runner_id = None, wj_runner_name = None, wj_runner_group_name = None,
      wj_labels = [], wj_started_at = None, wj_completed_at = None\<rparr>"

definition shown_step :: "uuid \<Rightarrow> uuid \<Rightarrow> int \<Rightarrow> workflow_step" where
  "shown_step i job number =
     \<lparr>ws_id = i, ws_workflow_job_id = job, ws_number = number, ws_name = ''step'', ws_status = ''completed'', ws_conclusion = None,
      ws_started_at = None, ws_completed_at = None\<rparr>"

definition shown_report :: "uuid \<Rightarrow> uuid \<Rightarrow> uuid \<Rightarrow> uuid \<Rightarrow> report_row" where
  "shown_report i org repo run =
     \<lparr>ar_id = i, ar_organization_id = org, ar_repository_id = Some repo, ar_workflow_run_id = Some run, ar_kind = ''build_summary'',
      ar_status = ''completed'', ar_title = None, ar_summary = None, ar_content_md = None, ar_content = JObj [], ar_model = None,
      ar_prompt_version = None, ar_input_tokens = None, ar_output_tokens = None, ar_cost_usd = None, ar_latency_ms = None,
      ar_error = None, ar_requested_at = 0, ar_completed_at = None\<rparr>"

definition demo_dashboard :: snapshot where
  "demo_dashboard =
     \<lparr>sn_now = 0,
      sn_db = empty_db\<lparr>
        organizations := map (\<lambda>i. \<lparr>o_id = i, o_slug = ''t'', o_name = ''T'', o_kind = Team, o_github_installation_id = None,
          o_created_by = None, o_created_at = 0, o_deleted_at = None\<rparr>) [1, 2],
        organization_members := [\<lparr>m_id = 5, m_organization_id = 1, m_user_id = 3, m_role = ''owner'', m_invited_by = None, m_created_at = 0\<rparr>],
        repositories := [shown_repository 10 1, shown_repository 20 2],
        workflow_runs := [shown_run 100 10 7, shown_run 101 10 8, shown_run 200 20 9],
        workflow_jobs := [shown_job 300 100 10, shown_job 301 200 20],
        workflow_steps := [shown_step 401 300 2, shown_step 402 301 1, shown_step 400 300 1]\<rparr>,
      dora_metrics = [], repository_scores = [], build_scores = [], flaky_tests = [],
      ai_reports = [shown_report 50 1 10 100, shown_report 60 2 20 200], ai_recommendations = [], run_created_at = (\<lambda>_. 0)\<rparr>"

lemmas shown_defs = shown_repository_def shown_run_def shown_job_def shown_step_def shown_report_def empty_db_def

text \<open>The member of the first workspace gets a page, and the second workspace's rows do not change it.\<close>

theorem pages_are_isolated_witness:
  "\<exists>answer. overview demo_ext (\<lambda>_. demo_dashboard) (session_principal 3) 1 = Inr answer \<and>
     overview demo_ext (\<lambda>_. purge 1 demo_dashboard) (session_principal 3) 1 = Inr answer \<and>
     purge 1 demo_dashboard \<noteq> demo_dashboard"
proof -
  have "references_ok demo_dashboard" "owners_stable (\<lambda>_. demo_dashboard)"
    by (simp_all add: demo_dashboard_def references_ok_def owners_stable_def shown_defs Let_def)
  then have same: "overview demo_ext (\<lambda>_. purge 1 demo_dashboard) (session_principal 3) 1 =
      overview demo_ext (\<lambda>_. demo_dashboard) (session_principal 3) 1"
    using pages_are_isolated [of "\<lambda>_. demo_dashboard" demo_ext 1 "session_principal 3"] by blast
  have "length (repositories (sn_db (purge 1 demo_dashboard))) = 1" "length (repositories (sn_db demo_dashboard)) = 2"
    by (simp_all add: demo_dashboard_def purge_def shown_defs Let_def)
  then have "purge 1 demo_dashboard \<noteq> demo_dashboard" by auto
  moreover have "\<exists>answer. overview demo_ext (\<lambda>_. demo_dashboard) (session_principal 3) 1 = Inr answer"
    by (simp add: overview_def require_organization_role_def organization_header_def live_organization_def member_row_def
        parse_role_def session_principal_def demo_dashboard_def shown_defs)
  ultimately show ?thesis using same by metis
qed

theorem steps_grouped_by_job_witness:
  "\<exists>j. job_rows demo_dashboard demo_dashboard 100 = Some [j] \<and> map sd_number (jd_steps j) = [1, 2]"
proof -
  have "distinct (map wj_id (workflow_jobs (sn_db demo_dashboard)))" by (simp add: demo_dashboard_def shown_defs)
  note rows = steps_grouped_by_job [OF this, of demo_dashboard 100]
  have "job_query demo_dashboard 100 = [shown_job 300 100 10]"
    by (simp add: job_query_def demo_dashboard_def order_by_def shown_defs)
  moreover have "step_query demo_dashboard 100 = [shown_step 400 300 1, shown_step 401 300 2]"
    by (simp add: step_query_def demo_dashboard_def inner_join_def order_by_def then_by_def asc_def shown_defs)
  ultimately show ?thesis using rows by (simp add: shown_defs step_detail_def)
qed


end
