(* ===== verification/Health.thy ===== *)
theory Health
  imports Json
begin

text \<open>
  \<^verbatim>\<open>gateway/src/routes/health.rs\<close>: the liveness and readiness probes. A dependency check is its
  outcome, an error text or the milliseconds it took.
\<close>

record Check =
  ck_status :: string
  ck_latency_ms :: "nat option"
  ck_error :: "string option"

text \<open>\<open>From<Result<u128, String>>\<close> and the serialisation, which skips absent fields.\<close>

fun check_from :: "string + nat \<Rightarrow> Check" where
  "check_from (Inr latency_ms) = \<lparr>ck_status = ''ok'', ck_latency_ms = Some latency_ms, ck_error = None\<rparr>"
| "check_from (Inl e) = \<lparr>ck_status = ''error'', ck_latency_ms = None, ck_error = Some e\<rparr>"

definition check_json :: "Check \<Rightarrow> json" where
  "check_json c =
     JObj ([(''status'', JStr (ck_status c))] @
       (case ck_latency_ms c of None \<Rightarrow> [] | Some ms \<Rightarrow> [(''latency_ms'', JInt (int ms))]) @
       (case ck_error c of None \<Rightarrow> [] | Some e \<Rightarrow> [(''error'', JStr e)]))"

definition live :: "string \<Rightarrow> string \<Rightarrow> nat \<times> json" where
  "live pkg_name pkg_version =
     (200, JObj [(''status'', JStr ''ok''), (''service'', JStr pkg_name), (''version'', JStr pkg_version)])"

definition ready :: "string + nat \<Rightarrow> string + nat \<Rightarrow> nat \<times> json" where
  "ready postgres redis =
     (let healthy = \<not> isl postgres \<and> \<not> isl redis
      in (if healthy then 200 else 503,
          JObj [(''status'', JStr (if healthy then ''ready'' else ''not_ready'')),
                (''checks'', JObj [(''postgres'', check_json (check_from postgres)), (''redis'', check_json (check_from redis))])]))"

text \<open>The value at a path of object keys.\<close>

fun at_path :: "string list \<Rightarrow> json \<Rightarrow> json option" where
  "at_path [] v = Some v"
| "at_path (k # ks) v = Option.bind (get_field k v) (at_path ks)"

text \<open>
  Readiness is 200 exactly when both dependencies answered, and the body says of each which
  one it was: an error text exactly for those that failed, a latency exactly for those that did not.
\<close>

theorem readiness_is_exact:
  "(fst (ready postgres redis) = 200 \<longleftrightarrow> \<not> isl postgres \<and> \<not> isl redis) \<and> fst (ready postgres redis) \<in> {200, 503} \<and>
   at_path [''checks'', ''postgres'', ''error''] (snd (ready postgres redis)) = (case postgres of Inl e \<Rightarrow> Some (JStr e) | Inr _ \<Rightarrow> None) \<and>
   at_path [''checks'', ''redis'', ''error''] (snd (ready postgres redis)) = (case redis of Inl e \<Rightarrow> Some (JStr e) | Inr _ \<Rightarrow> None) \<and>
   at_path [''checks'', ''postgres'', ''latency_ms''] (snd (ready postgres redis)) =
     (case postgres of Inl _ \<Rightarrow> None | Inr ms \<Rightarrow> Some (JInt (int ms))) \<and>
   at_path [''checks'', ''redis'', ''latency_ms''] (snd (ready postgres redis)) =
     (case redis of Inl _ \<Rightarrow> None | Inr ms \<Rightarrow> Some (JInt (int ms)))"
  by (cases postgres; cases redis) (simp_all add: ready_def check_json_def Let_def)

end
