(* ===== verification/Pipeline.thy ===== *)
theory Pipeline
  imports Webhooks Relay
begin

text \<open>
  From GitHub's delivery to the broker: the webhook endpoint, the processors and the relays work
  on one database. A state is the webhook side's state together with the messages the broker has
  accepted; the steps of both sides, and of the rest of the program, interleave.
\<close>

section \<open>What a transaction adds to the outbox\<close>

definition outbox_grows :: "db \<Rightarrow> db \<Rightarrow> bool" where
  "outbox_grows d d' \<longleftrightarrow> next_id d \<le> next_id d' \<and>
     (\<exists>news. event_outbox d' = event_outbox d @ news \<and> distinct (map eo_id news) \<and>
        (\<forall>r\<in>set news. next_id d \<le> eo_id r \<and> eo_id r < next_id d' \<and> eo_status r = Pending \<and> eo_attempts r = 0))"

lemma outbox_grows_same: "event_outbox d' = event_outbox d \<Longrightarrow> next_id d \<le> next_id d' \<Longrightarrow> outbox_grows d d'"
  by (simp add: outbox_grows_def)

lemma outbox_grows_refl: "outbox_grows d d"
  by (simp add: outbox_grows_same)

lemma outbox_grows_trans:
  assumes "outbox_grows a b" and "outbox_grows b c"
  shows "outbox_grows a c"
proof -
  from assms obtain xs ys where xs: "event_outbox b = event_outbox a @ xs" "distinct (map eo_id xs)"
      "\<forall>r\<in>set xs. next_id a \<le> eo_id r \<and> eo_id r < next_id b \<and> eo_status r = Pending \<and> eo_attempts r = 0"
    and ys: "event_outbox c = event_outbox b @ ys" "distinct (map eo_id ys)"
      "\<forall>r\<in>set ys. next_id b \<le> eo_id r \<and> eo_id r < next_id c \<and> eo_status r = Pending \<and> eo_attempts r = 0"
    and le: "next_id a \<le> next_id b" "next_id b \<le> next_id c" by (auto simp: outbox_grows_def)
  have "set (map eo_id xs) \<inter> set (map eo_id ys) = {}" using xs(3) ys(3) by fastforce
  with xs ys le show ?thesis unfolding outbox_grows_def by (intro conjI exI [of _ "xs @ ys"]) (auto intro: le_trans less_le_trans)
qed

lemma outbox_grows_enqueue: "outbox_grows d (snd (enqueue E now utc event d))"
  unfolding outbox_grows_def
  by (intro conjI exI [of _ "[outbox_row_of E now utc (next_id d) event]"]) (simp_all add: table_simps outbox_row_of_def)

lemma resolve_workflow_grows: "resolve_workflow repo run workflow d = Inr (w, d1) \<Longrightarrow> outbox_grows d d1"
  by (rule outbox_grows_same; drule resolve_workflow_frame; assumption)

lemma put_workflow_run_grows: "put_workflow_run new d = Inr (i, d1) \<Longrightarrow> outbox_grows d d1"
  by (drule put_workflow_run_frame(1)) (simp add: outbox_grows_same)

lemma emit_grows: "outbox_grows d (emit_run_completed E now utc org repo i w run b t d)"
  by (simp add: emit_run_completed_def Let_def outbox_grows_enqueue)

lemma infer_grows: "infer_deployment E now utc repo org i run t d = Inr (u, d1) \<Longrightarrow> outbox_grows d d1"
  by (auto simp: infer_deployment_def Let_def outbox_grows_same split: if_splits
      intro!: outbox_grows_trans [OF outbox_grows_same outbox_grows_enqueue])

lemma ingest_run_grows:
  assumes "ingest_workflow_run E now utc repo org b run workflow d = Inr (i, d')"
  shows "outbox_grows d d'"
proof -
  from assms obtain w d1 d2 where
    st1: "resolve_workflow repo run workflow d = Inr (w, d1)" and
    st2: "put_workflow_run (new_run_row repo b run w d1) d1 = Inr (i, d2)" and
    st3: "if newly_completed run d1
     then (let d3 = emit_run_completed E now utc org repo i w run (is_default_run b run) (completion_time run) d2
           in if ships b run
              then infer_deployment E now utc repo org i run (completion_time run) d3 = Inr ((), d')
              else d' = d3)
     else d' = d2"
    by (rule ingest_success)
  have "outbox_grows d d2" using resolve_workflow_grows [OF st1] put_workflow_run_grows [OF st2] by (rule outbox_grows_trans)
  moreover have "outbox_grows d2 d'"
    using st3 by (auto simp: Let_def outbox_grows_refl emit_grows split: if_splits intro: outbox_grows_trans [OF emit_grows infer_grows])
  ultimately show ?thesis by (rule outbox_grows_trans)
qed

lemma push_commits_outbox: "upsert_push_commits repo cs d = Inr (u, d') \<Longrightarrow> event_outbox d' = event_outbox d"
proof (induction cs arbitrary: d)
  case (Cons c cs)
  from Cons.prems obtain d2 where put: "upsert_push_commit repo c d = Inr ((), d2)"
    and rest: "upsert_push_commits repo cs d2 = Inr (u, d')" by (auto split: sum.splits)
  have "event_outbox d2 = event_outbox d"
    using put by (auto simp: upsert_push_commit_def put_commit_def split: if_splits)
  with Cons.IH [OF rest] show ?case by simp
qed simp

lemma put_branch_outbox: "put_branch now repo push name d = Inr (u, d1) \<Longrightarrow> event_outbox d1 = event_outbox d"
  by (auto simp: put_branch_def split: if_splits)

lemma other_events_outbox:
  "apply_push E now repo payload d = Inr (b, d') \<Longrightarrow> event_outbox d' = event_outbox d"
  "apply_pull_request E repo payload d = Inr (b, d') \<Longrightarrow> event_outbox d' = event_outbox d"
  "apply_pull_request_review E repo payload d = Inr (b, d') \<Longrightarrow> event_outbox d' = event_outbox d"
  "ingest_workflow_job repo job d = Inr (b, d') \<Longrightarrow> event_outbox d' = event_outbox d"
  by (auto simp: apply_push_def apply_pull_request_def apply_pull_request_review_def upsert_pull_request_def Let_def
      ingest_workflow_job_def table_simps split: sum.splits option.splits if_splits
      dest!: push_commits_outbox put_branch_outbox)

lemma apply_event_grows:
  assumes "apply_event E now utc cx ty payload d = Inr (oc, d')"
  shows "outbox_grows d d'"
proof -
  have ids: "next_id d \<le> next_id d'" using apply_event_deliveries [OF assms] by (simp add: delivery_frame_def)
  from assms show ?thesis
  proof (cases rule: apply_event_cases)
    case 4
    then show ?thesis
      by (auto simp: apply_workflow_run_def Let_def split: sum.splits dest: ingest_run_grows)
  qed (use ids in \<open>auto simp: apply_workflow_job_def split: sum.splits
      intro!: outbox_grows_same outbox_grows_refl dest: other_events_outbox\<close>)
qed

section \<open>What a step of the webhook side adds\<close>

lemma grows_set_delivery: "outbox_grows d d' \<Longrightarrow> outbox_grows d (set_delivery k f d')"
  by (simp add: outbox_grows_def set_delivery_def)

lemma grows_on_db:
  "outbox_grows (app_db a) (app_db (on_db (mark_delivery now k st err) a))"
  "outbox_grows (app_db a) (app_db (on_db (remove_installation i) a))"
  "outbox_grows (app_db a) (app_db (on_db (set_suspended now i b) a))"
  "outbox_grows (app_db a) (app_db (on_db (upsert_installation now inst) a))"
  "outbox_grows (app_db a) (app_db (on_db (untrack_repositories ids) a))"
  "outbox_grows (app_db a) (app_db (on_db (record_delivery_failure k detail) a))"
  "outbox_grows (app_db a) (app_db (on_db recover a))"
  "outbox_grows (app_db a) (app_db (on_redis h a))"
  by (simp_all add: outbox_grows_same on_db_def on_redis_def mark_delivery_def set_delivery_def remove_installation_def
      set_suspended_def upsert_installation_def untrack_repositories_def record_delivery_failure_def recover_def)

lemma grows_guarded: "(\<And>a. outbox_grows (app_db a) (app_db (f a))) \<Longrightarrow> outbox_grows (app_db a) (app_db (snd (guarded fault f a)))"
  by (auto simp: guarded_def outbox_grows_refl split: option.splits)

lemma grows_and_then:
  assumes "outbox_grows (app_db a) (app_db (snd p))" and "\<And>b. outbox_grows (app_db b) (app_db (snd (c b)))"
  shows "outbox_grows (app_db a) (app_db (snd (and_then p c)))"
  using assms outbox_grows_trans [OF assms(1) assms(2)] by (cases p) (auto simp: and_then_def split: sum.splits)

lemma apply_installation_grows: "outbox_grows (app_db a) (app_db (snd (apply_installation now fl dl a)))"
  and apply_installation_repositories_grows:
    "outbox_grows (app_db a) (app_db (snd (apply_installation_repositories now fl dl a)))"
  by (auto simp: apply_installation_def apply_installation_repositories_def Let_def outbox_grows_refl split: option.splits
      intro!: grows_and_then grows_guarded grows_on_db)

lemma apply_repository_event_grows: "outbox_grows (app_db a) (app_db (snd (apply_repository_event E now utc fl dl cx a)))"
proof (cases "apply_event E now utc cx (dl_event_type dl) (dl_payload dl) (app_db a)")
  case (Inr p)
  obtain oc d where p: "p = (oc, d)" by (cases p)
  have "outbox_grows (app_db a) (settle_delivery now (dl_id dl) cx oc d)"
    unfolding settle_delivery_def by (rule grows_set_delivery [OF apply_event_grows [OF Inr [unfolded p]]])
  then show ?thesis by (simp add: apply_repository_event_def Inr p Let_def split: option.splits)
qed (simp add: apply_repository_event_def outbox_grows_refl)

lemma apply_delivery_grows: "outbox_grows (app_db a) (app_db (snd (apply_delivery E now utc fl dl a)))"
  by (auto simp: apply_delivery_def Let_def outbox_grows_refl split: option.splits
      intro!: grows_guarded grows_on_db apply_installation_grows apply_installation_repositories_grows
        apply_repository_event_grows)

lemma process_one_grows:
  assumes "process_one E env a = (res, a')"
  shows "outbox_grows (app_db a) (app_db a')"
proof (cases "fl_claim (pe_faults env)")
  case None
  obtain c d where claim: "claim_delivery (pe_locked env) (app_db a) = (c, d)" by fastforce
  then have d: "outbox_grows (app_db a) d"
    by (auto simp: claim_delivery_def outbox_grows_same split: list.splits)
  show ?thesis
  proof (cases c)
    case (Some dl)
    obtain r a1 where run: "apply_delivery E (pe_now env) (pe_utc env) (pe_faults env) dl (a\<lparr>app_db := d\<rparr>) = (r, a1)" by fastforce
    with apply_delivery_grows [of "a\<lparr>app_db := d\<rparr>" E "pe_now env" "pe_utc env" "pe_faults env" dl]
    have "outbox_grows d (app_db a1)" by simp
    from outbox_grows_trans [OF d this] have a1: "outbox_grows (app_db a) (app_db a1)" .
    from outbox_grows_trans [OF this grows_on_db(6)] a1 assms claim Some None run show ?thesis
      by (auto simp: process_one_def split: sum.splits option.splits)
  qed (use assms claim None d in \<open>auto simp: process_one_def\<close>)
qed (use assms in \<open>auto simp: process_one_def outbox_grows_refl\<close>)

lemma app_step_grows:
  assumes "app_step E a a'"
  shows "outbox_grows (app_db a) (app_db a')"
  using assms
proof (cases rule: app_step.cases)
  case (Receive now secret headers body)
  then show ?thesis using receive_db [of E now secret headers body "app_db a"] by (auto intro: outbox_grows_same)
qed (auto intro: process_one_grows grows_on_db)

section \<open>The pipeline\<close>

text \<open>
  The rest of the program writes facts and, when it imports a repository, enqueues events; it
  leaves the deliveries alone.
\<close>

inductive pipeline_step :: "ext \<Rightarrow> app \<times> message list \<Rightarrow> app \<times> message list \<Rightarrow> bool" for E where
  Web: "app_step E a a' \<Longrightarrow> pipeline_step E (a, log) (a', log)"
| Publish: "drain_batch env (app_db a) log = (res, d', log') \<Longrightarrow> pipeline_step E (a, log) (a\<lparr>app_db := d'\<rparr>, log')"
| Elsewhere: "outbox_grows (app_db a) (app_db a') \<Longrightarrow> facts_inv (app_db a') \<Longrightarrow>
    webhook_deliveries (app_db a') = webhook_deliveries (app_db a) \<Longrightarrow> pipeline_step E (a, log) (a', log)"

inductive pipeline_reachable :: "ext \<Rightarrow> app \<times> message list \<Rightarrow> bool" for E where
  Start: "facts_inv (app_db a) \<Longrightarrow> webhook_deliveries (app_db a) = [] \<Longrightarrow> event_outbox (app_db a) = [] \<Longrightarrow>
    pipeline_reachable E (a, [])"
| Step: "pipeline_reachable E s \<Longrightarrow> pipeline_step E s s' \<Longrightarrow> pipeline_reachable E s'"

inductive_cases pipeline_stepE: "pipeline_step E (a, log) s'"

definition pipeline_inv :: "app \<times> message list \<Rightarrow> bool" where
  "pipeline_inv s \<longleftrightarrow> app_inv (fst s) \<and> outbox_inv (app_db (fst s), snd s)"

lemma outbox_inv_grows:
  assumes "outbox_inv (d, log)" and "outbox_grows d d'"
  shows "outbox_inv (d', log)"
proof -
  from assms(2) obtain news where news: "event_outbox d' = event_outbox d @ news" "distinct (map eo_id news)"
      "\<forall>r\<in>set news. next_id d \<le> eo_id r \<and> eo_id r < next_id d' \<and> eo_status r = Pending \<and> eo_attempts r = 0"
    and le: "next_id d \<le> next_id d'" by (auto simp: outbox_grows_def)
  have old: "eo_id r < next_id d" if "r \<in> set (event_outbox d)" for r using assms(1) that by (auto simp: outbox_inv_def)
  have "set (outbox_ids d) \<inter> set (map eo_id news) = {}" using old news(3) by fastforce
  then have "distinct (outbox_ids d')" using assms(1) news by (auto simp: outbox_inv_def)
  moreover have "row_ok log r" if "r \<in> set news" for r using that news(3) by (simp add: row_ok_def RELAY_MAX_ATTEMPTS_def)
  ultimately show ?thesis
    using assms(1) news less_le_trans [OF old le] unfolding outbox_inv_def by auto
qed

lemma drain_batch_frame:
  assumes "distinct (outbox_ids d)" and "drain_batch env d log = (res, d', log')"
  obtains es where "d' = d\<lparr>event_outbox := es\<rparr>"
proof -
  have "d' = d \<or> d' = settled env d" using drain_batch_effect [OF assms] by blast
  moreover have "d = d\<lparr>event_outbox := event_outbox d\<rparr>" by simp
  ultimately show ?thesis using that unfolding settled_def by blast
qed

lemma app_inv_cong:
  assumes "app_inv a" and "facts_inv (app_db a')" and "webhook_deliveries (app_db a') = webhook_deliveries (app_db a)"
    and "next_id (app_db a) \<le> next_id (app_db a')"
  shows "app_inv a'"
  using assms by (auto simp: app_inv_def deliveries_inv_def intro: table_ok_mono)

lemma pipeline_step_inv:
  assumes "pipeline_inv s" and "pipeline_step E s s'"
  shows "pipeline_inv s'"
  using assms(2)
proof (cases rule: pipeline_step.cases)
  case (Web a a' log)
  then have "app_inv a'"
    using assms(1) by (auto simp: pipeline_inv_def elim!: app_step.cases intro: receive_inv process_one_inv recover_inv)
  with Web outbox_inv_grows [OF _ app_step_grows [OF Web(3)]] assms(1) show ?thesis by (simp add: pipeline_inv_def)
next
  case (Publish env a log res d' log')
  have inv: "outbox_inv (app_db a, log)" and ok: "app_inv a" using assms(1) Publish by (simp_all add: pipeline_inv_def)
  from inv obtain es where "d' = (app_db a)\<lparr>event_outbox := es\<rparr>"
    using drain_batch_frame [OF _ Publish(3)] by (auto simp: outbox_inv_def)
  with ok have "app_inv (a\<lparr>app_db := d'\<rparr>)" by (intro app_inv_cong [OF ok]) (auto simp: app_inv_def intro: facts_inv_cong)
  with drain_batch_inv [OF inv Publish(3)] Publish show ?thesis by (simp add: pipeline_inv_def)
next
  case (Elsewhere a a' log)
  then show ?thesis
    using assms(1) outbox_inv_grows app_inv_cong [of a a'] by (auto simp: pipeline_inv_def outbox_grows_def)
qed

lemma pipeline_reachable_inv: "pipeline_reachable E s \<Longrightarrow> pipeline_inv s"
proof (induction rule: pipeline_reachable.induct)
  case (Start a)
  then show ?case by (simp add: pipeline_inv_def app_inv_def deliveries_inv_def outbox_inv_def)
qed (rule pipeline_step_inv)

lemma pipeline_steps_inv: "(pipeline_step E)\<^sup>*\<^sup>* s s' \<Longrightarrow> pipeline_inv s \<Longrightarrow> pipeline_inv s'"
  by (induction rule: rtranclp_induct) (auto intro: pipeline_step_inv)

section \<open>Nothing is lost on the way\<close>

lemma pipeline_step_keeps_events:
  assumes "pipeline_inv s" and "pipeline_step E s s'" and "r \<in> set (event_outbox (app_db (fst s)))"
  shows "\<exists>r'\<in>set (event_outbox (app_db (fst s'))). same_event r r'"
  using assms(2)
proof (cases rule: pipeline_step.cases)
  case (Publish env a log res d' log')
  with assms outbox_step_keeps [of "(app_db a, log)" "(d', log')" r] show ?thesis
    by (auto simp: pipeline_inv_def intro: outbox_step.Batch)
qed (use assms(3) app_step_grows in \<open>auto simp: outbox_grows_def intro!: bexI [of _ r] same_event_refl dest!: app_step_grows\<close>)

lemma pipeline_step_keeps_deliveries:
  assumes "pipeline_inv s" and "pipeline_step E s s'" and "w \<in> set (webhook_deliveries (app_db (fst s)))"
  shows "\<exists>w'\<in>set (webhook_deliveries (app_db (fst s'))). same_delivery w w'"
  using assms(2)
proof (cases rule: pipeline_step.cases)
  case (Web a a' log)
  with assms app_step_keeps [of a E a' w] show ?thesis by (auto simp: pipeline_inv_def)
next
  case (Publish env a log res d' log')
  then obtain es where "d' = (app_db a)\<lparr>event_outbox := es\<rparr>"
    using assms(1) drain_batch_frame [OF _ Publish(3)] by (auto simp: pipeline_inv_def outbox_inv_def)
  with Publish assms(3) show ?thesis by (auto intro!: bexI [of _ w] same_delivery_refl)
qed (use assms(3) in \<open>auto intro!: bexI [of _ w] same_delivery_refl\<close>)

lemma pipeline_keeps:
  assumes "(pipeline_step E)\<^sup>*\<^sup>* s s'" and "pipeline_inv s"
  shows "r \<in> set (event_outbox (app_db (fst s))) \<Longrightarrow> \<exists>r'\<in>set (event_outbox (app_db (fst s'))). same_event r r'"
    and "w \<in> set (webhook_deliveries (app_db (fst s))) \<Longrightarrow> \<exists>w'\<in>set (webhook_deliveries (app_db (fst s'))). same_delivery w w'"
proof -
  have "(\<forall>r\<in>set (event_outbox (app_db (fst s))). \<exists>r'\<in>set (event_outbox (app_db (fst s'))). same_event r r') \<and>
    (\<forall>w\<in>set (webhook_deliveries (app_db (fst s))). \<exists>w'\<in>set (webhook_deliveries (app_db (fst s'))). same_delivery w w')"
    using assms(1)
  proof (induction rule: rtranclp_induct)
    case base
    then show ?case using same_event_refl same_delivery_refl by blast
  next
    case (step s1 s2)
    have inv: "pipeline_inv s1" using step.hyps(1) assms(2) by (rule pipeline_steps_inv)
    show ?case
      using step.IH pipeline_step_keeps_events [OF inv step.hyps(2)] pipeline_step_keeps_deliveries [OF inv step.hyps(2)]
      by (meson same_event_trans same_delivery_trans)
  qed
  then show "r \<in> set (event_outbox (app_db (fst s))) \<Longrightarrow> \<exists>r'\<in>set (event_outbox (app_db (fst s'))). same_event r r'"
    "w \<in> set (webhook_deliveries (app_db (fst s))) \<Longrightarrow> \<exists>w'\<in>set (webhook_deliveries (app_db (fst s'))). same_delivery w w'"
    by blast+
qed

text \<open>What has become of an event: waiting with attempts left, published and accepted, or given up.\<close>

definition accounted_for :: "message list \<Rightarrow> outbox_row \<Rightarrow> bool" where
  "accounted_for log r \<longleftrightarrow>
     (case eo_status r of
        Pending \<Rightarrow> 0 \<le> eo_attempts r \<and> eo_attempts r < 8
      | Published \<Rightarrow> (\<exists>m\<in>set log. carries m r)
      | Publish_failed \<Rightarrow> eo_attempts r = 8)"

lemma row_ok_accounted: "row_ok log r \<Longrightarrow> accounted_for log r"
  by (auto simp: row_ok_def accounted_for_def RELAY_MAX_ATTEMPTS_def split: outbox_status.splits)

lemma pipeline_accounts:
  assumes "(pipeline_step E)\<^sup>*\<^sup>* (a, log) (a', log')" and "pipeline_inv (a, log)" and "r \<in> set (event_outbox (app_db a))"
  shows "\<exists>r'\<in>set (event_outbox (app_db a')). same_event r r' \<and> accounted_for log' r'"
proof -
  from pipeline_keeps(1) [OF assms(1,2)] assms(3) obtain r' where "r' \<in> set (event_outbox (app_db a'))" "same_event r r'" by auto
  moreover have "row_ok log' r'" using pipeline_steps_inv [OF assms(1,2)] calculation(1) by (simp add: pipeline_inv_def outbox_inv_def)
  ultimately show ?thesis using row_ok_accounted by blast
qed

section \<open>Applying the delivery of a completed run\<close>

lemma process_workflow_run:
  assumes "claim_delivery (pe_locked env) (app_db a) = (Some dl, d)" and "pe_faults env = no_faults"
    and "dl_event_type dl = ''workflow_run''" and "dl_github_repo_id dl = Some g" and "fetch_repo_context g d = Some cx"
    and "payload_field E ''workflow_run'' ''workflow_run payload is missing the run'' (de_GitHubWorkflowRun E) (dl_payload dl) = Inr run"
    and "ingest_workflow_run E (pe_now env) (pe_utc env) (cx_id cx) (cx_organization_id cx) (cx_default_branch cx) run
      (Option.bind (get_field ''workflow'' (dl_payload dl)) de_GitHubWorkflow) d = Inr (i, d1)"
  obtains a1 f where "process_one E env a = (Ok_one True, a1)"
    "app_db a1 = set_delivery (dl_id dl) f d1" "\<And>w. wd_status (f w) = Processed"
proof -
  obtain oc where oc: "apply_event E (pe_now env) (pe_utc env) cx ''workflow_run'' (dl_payload dl) d = Inr (oc, d1)" "oc_applied oc"
    using assms(6,7) by (auto simp: apply_event_def apply_workflow_run_def Let_def)
  show ?thesis
    by (rule that [of "a\<lparr>app_db := settle_delivery (pe_now env) (dl_id dl) cx oc d1,
          app_spawned := app_spawned a @ (case oc_log_capture oc of None \<Rightarrow> [] | Some c \<Rightarrow> [c])\<rparr>"
        "\<lambda>w. w\<lparr>wd_repository_id := Some (cx_id cx), wd_status := Processed, wd_processed_at := Some (pe_now env), wd_error := None\<rparr>"])
      (use assms oc in \<open>simp_all add: process_one_def no_faults_def apply_delivery_def apply_repository_event_def Let_def settle_delivery_def\<close>)
qed

section \<open>Properties\<close>

text \<open>
  C5. From webhook to broker: when a processor applies the signed delivery of a run that has just
  completed, the run's completion event is in the outbox in the same transaction that settles the
  delivery, and whatever relays, processors, requests and imports do afterwards, it is accounted
  for: it waits with attempts left, the broker has accepted a message that carries it, or all
  eight attempts failed; the delivery stays stored as it was.
\<close>

theorem completed_run_reaches_broker:
  assumes "pipeline_reachable E (a, log)" and "claim_delivery (pe_locked env) (app_db a) = (Some dl, d)"
    and "pe_faults env = no_faults" and "dl_event_type dl = ''workflow_run''" and "dl_github_repo_id dl = Some g"
    and "fetch_repo_context g d = Some cx"
    and "payload_field E ''workflow_run'' ''workflow_run payload is missing the run'' (de_GitHubWorkflowRun E) (dl_payload dl) = Inr run"
    and "ingest_workflow_run E (pe_now env) (pe_utc env) (cx_id cx) (cx_organization_id cx) (cx_default_branch cx) run
      (Option.bind (get_field ''workflow'' (dl_payload dl)) de_GitHubWorkflow) d = Inr (i, d1)"
    and "newly_completed run d"
  shows "\<exists>a1. process_one E env a = (Ok_one True, a1) \<and>
    (\<forall>a2 log2. (pipeline_step E)\<^sup>*\<^sup>* (a1, log) (a2, log2) \<longrightarrow>
       (\<exists>r\<in>set (event_outbox (app_db a2)). eo_event_type r = ''workflow_run.completed'' \<and> eo_aggregate_id r = i \<and>
          accounted_for log2 r) \<and>
       (\<exists>w\<in>set (webhook_deliveries (app_db a2)). wd_id w = dl_id dl \<and> wd_payload w = dl_payload dl))"
proof -
  obtain a1 f where run: "process_one E env a = (Ok_one True, a1)" and d1: "app_db a1 = set_delivery (dl_id dl) f d1"
    by (rule process_workflow_run [OF assms(2-8)])
  have inv: "pipeline_inv (a, log)" using assms(1) by (rule pipeline_reachable_inv)
  have step: "pipeline_step E (a, log) (a1, log)" by (rule pipeline_step.Web [OF app_step.Process [OF run]])
  with inv have inv1: "pipeline_inv (a1, log)" by (rule pipeline_step_inv)
  from ingest_effect [OF assms(8)] assms(9) obtain e where
    "eo_event_type e = ''workflow_run.completed''" "eo_aggregate_id e = i" "e \<in> set (event_outbox d1)"
    by (metis append_Cons in_set_conv_decomp)
  then have e: "e \<in> set (event_outbox (app_db a1))" "eo_event_type e = ''workflow_run.completed''" "eo_aggregate_id e = i"
    by (simp_all add: d1 set_delivery_def)
  obtain row where row: "row \<in> set (webhook_deliveries (app_db a))" "dl_id dl = wd_id row" "dl_payload dl = wd_payload row"
    using claim_delivery_Some [OF assms(2)] by metis
  have later: "(\<exists>r\<in>set (event_outbox (app_db a2)). eo_event_type r = ''workflow_run.completed'' \<and> eo_aggregate_id r = i \<and> accounted_for log2 r) \<and>
      (\<exists>w\<in>set (webhook_deliveries (app_db a2)). wd_id w = dl_id dl \<and> wd_payload w = dl_payload dl)"
    if steps: "(pipeline_step E)\<^sup>*\<^sup>* (a1, log) (a2, log2)" for a2 log2
  proof
    from pipeline_accounts [OF steps inv1 e(1)] e(2,3)
    show "\<exists>r\<in>set (event_outbox (app_db a2)). eo_event_type r = ''workflow_run.completed'' \<and> eo_aggregate_id r = i \<and> accounted_for log2 r"
      by (auto simp: same_event_def)
    from pipeline_keeps(2) [OF converse_rtranclp_into_rtranclp [where r = "pipeline_step E", OF step steps] inv] row(1)
    obtain w where "w \<in> set (webhook_deliveries (app_db a2))" "same_delivery row w" by auto
    with row show "\<exists>w\<in>set (webhook_deliveries (app_db a2)). wd_id w = dl_id dl \<and> wd_payload w = dl_payload dl"
      by (auto simp: same_delivery_def)
  qed
  with run show ?thesis by blast
qed


section \<open>Examples\<close>

text \<open>A signed delivery of a completed run, for the tracked repository of the ingestion examples.\<close>

definition demo_payload :: json where
  "demo_payload = JObj
     [(''repository'', JObj [(''id'', JInt 77)]),
      (''workflow_run'', JObj
         [(''id'', JInt 500), (''workflow_id'', JInt 9), (''run_number'', JInt 3), (''event'', JStr ''push''),
          (''status'', JStr ''completed''), (''conclusion'', JStr ''success''), (''head_sha'', JStr ''abc''),
          (''head_branch'', JStr ''main'')])]"

definition demo_payload_run :: GitHubWorkflowRun where
  "demo_payload_run = demo_run\<lparr>run_run_started_at := None, run_updated_at := None\<rparr>"

definition pipe_ext :: ext where
  "pipe_ext = demo_ext\<lparr>json_from_slice := (\<lambda>_. Some demo_payload)\<rparr>"

definition pipe_headers :: headers where
  "pipe_headers = (demo_headers demo_signature)(''x-github-event'' \<mapsto> ''workflow_run'')"

definition pipe_app :: app where
  "pipe_app = \<lparr>app_db = snd (receive pipe_ext 0 ''key'' pipe_headers [1] demo_repo_db), app_redis = Map.empty, app_spawned = []\<rparr>"

lemma pipe_signature: "verify_github_signature pipe_ext ''key'' [1] demo_signature"
proof -
  have "hmac_sha256 pipe_ext key body = hmac_sha256 demo_ext key body" for key body
    by (simp add: hmac_sha256_def hmac_block_def sha256_def pipe_ext_def Let_def)
  then show ?thesis using demo_signature_valid [of "[1]"] by (simp only: verify_github_signature_def)
qed

lemma pipe_reachable: "pipeline_reachable pipe_ext (pipe_app, [])"
proof -
  let ?a = "\<lparr>app_db = demo_repo_db, app_redis = Map.empty, app_spawned = []\<rparr>"
  have "pipeline_reachable pipe_ext (?a, [])"
    by (rule pipeline_reachable.Start) (simp_all add: demo_facts_inv, simp_all add: demo_repo_db_def empty_db_def)
  moreover have "pipeline_step pipe_ext (?a, []) (pipe_app, [])"
    using pipeline_step.Web [OF app_step.Receive [of pipe_ext ?a 0 "''key''" pipe_headers "[1]"]] by (simp add: pipe_app_def)
  ultimately show ?thesis by (rule pipeline_reachable.Step)
qed

lemma pipe_run: "de_GitHubWorkflowRun E (the (get_field ''workflow_run'' demo_payload)) = Some demo_payload_run"
  by (simp add: demo_payload_def demo_payload_run_def demo_run_def de_GitHubWorkflowRun_def de_required_def de_optional_def
      de_default_def one_def is_i32_def is_i64_def)

lemma receive_accepts:
  assumes "required_header headers DELIVERY_HEADER = Inr v" and "parse_uuid E v = Some u"
    and "required_header headers EVENT_HEADER = Inr ev" and "headers SIGNATURE_HEADER = Some sig"
    and "verify_github_signature E secret body sig"
  shows "snd (receive E now secret headers body d) = d\<lparr>next_id := Suc (next_id d), webhook_deliveries :=
    insert_new wd_github_delivery_id (delivery_row now (next_id d) u ev (parse_body E body) True d) (webhook_deliveries d)\<rparr>"
  using assms by (simp add: receive_def Let_def)

definition pipe_row :: webhook_delivery where
  "pipe_row = delivery_row 0 10 4 ''workflow_run'' demo_payload True demo_repo_db"

lemma pipe_db: "app_db pipe_app = demo_repo_db\<lparr>next_id := 11, webhook_deliveries := [pipe_row]\<rparr>"
proof -
  have "required_header pipe_headers DELIVERY_HEADER = Inr ''uuid''" "required_header pipe_headers EVENT_HEADER = Inr ''workflow_run''"
    "pipe_headers SIGNATURE_HEADER = Some demo_signature"
    by (simp_all add: required_header_def DELIVERY_HEADER_def EVENT_HEADER_def SIGNATURE_HEADER_def pipe_headers_def demo_headers_def)
  moreover have "parse_uuid pipe_ext ''uuid'' = Some 4" by (simp add: pipe_ext_def demo_ext_def)
  ultimately have "app_db pipe_app = demo_repo_db\<lparr>next_id := Suc (next_id demo_repo_db), webhook_deliveries :=
      insert_new wd_github_delivery_id (delivery_row 0 (next_id demo_repo_db) 4 ''workflow_run'' (parse_body pipe_ext [1]) True demo_repo_db)
        (webhook_deliveries demo_repo_db)\<rparr>"
    using receive_accepts pipe_signature by (simp add: pipe_app_def)
  moreover have "parse_body pipe_ext [1] = demo_payload" by (simp add: parse_body_def pipe_ext_def)
  moreover have "next_id demo_repo_db = 10" "webhook_deliveries demo_repo_db = []" by (simp_all add: demo_repo_db_def empty_db_def)
  ultimately show ?thesis by (simp add: pipe_row_def insert_new_def)
qed

definition pipe_claimed :: db where
  "pipe_claimed = demo_repo_db\<lparr>next_id := 11, webhook_deliveries := [mark_processing pipe_row]\<rparr>"

lemma pipe_row_fields:
  "wd_id pipe_row = 10" "wd_event_type pipe_row = ''workflow_run''" "wd_github_repo_id pipe_row = Some 77"
  "wd_payload pipe_row = demo_payload" "wd_status pipe_row = Received" "wd_attempts pipe_row = 0" "wd_signature_valid pipe_row"
  by (simp_all add: pipe_row_def delivery_row_def Let_def demo_payload_def is_i64_def)

lemma pipe_claim:
  "claim_delivery {} (app_db pipe_app) =
     (Some \<lparr>dl_id = 10, dl_event_type = ''workflow_run'', dl_github_repo_id = Some 77, dl_payload = demo_payload\<rparr>, pipe_claimed)"
  by (simp add: claim_delivery_def pipe_db pipe_claimed_def delivery_claimable_def pipe_row_fields upd_where_def MAX_ATTEMPTS_def)

definition pipe_context :: RepoContext where
  "pipe_context = \<lparr>cx_id = 1, cx_organization_id = 2, cx_default_branch = ''main'', cx_owner_login = ''o'', cx_name = ''n''\<rparr>"

lemma pipe_tracked: "fetch_repo_context 77 pipe_claimed = Some pipe_context"
  by (simp add: fetch_repo_context_def pipe_claimed_def demo_repo_db_def demo_repository_def pipe_context_def)

lemma pipe_ingest: "\<exists>i d1. ingest_workflow_run pipe_ext 7 7 1 2 ''main'' demo_payload_run None pipe_claimed = Inr (i, d1)"
  by (simp add: pipe_claimed_def ingest_eval demo_payload_run_def demo_run_def find_workflow_id_def)

lemma pipe_new: "newly_completed demo_payload_run pipe_claimed"
  by (simp add: newly_completed_def pipe_claimed_def ingest_eval demo_payload_run_def demo_run_def)

theorem completed_run_reaches_broker_witness:
  "\<exists>a1. process_one pipe_ext (demo_env no_faults) pipe_app = (Ok_one True, a1) \<and>
    (\<exists>r\<in>set (event_outbox (app_db a1)). eo_event_type r = ''workflow_run.completed'')"
proof -
  obtain i d1 where run: "ingest_workflow_run pipe_ext 7 7 1 2 ''main'' demo_payload_run None pipe_claimed = Inr (i, d1)"
    using pipe_ingest by blast
  have field: "payload_field pipe_ext ''workflow_run'' ''workflow_run payload is missing the run''
      (de_GitHubWorkflowRun pipe_ext) demo_payload = Inr demo_payload_run"
    using pipe_run [of pipe_ext] by (simp add: payload_field_def from_value_def demo_payload_def)
  have "get_field ''workflow'' demo_payload = None" by (simp add: demo_payload_def)
  then show ?thesis
    using completed_run_reaches_broker [of pipe_ext pipe_app "[]" "demo_env no_faults", unfolded demo_env_def proc_env.simps,
        OF pipe_reachable pipe_claim refl, of 77 pipe_context demo_payload_run i d1]
      pipe_tracked field run pipe_new
    by (fastforce simp: demo_env_def pipe_context_def)
qed


end
