(* ===== verification/Access.thy ===== *)
theory Access
  imports Dashboard Repositories Api_Tokens
begin

text \<open>
  The routes under one workspace share a contract: they ask \<open>require_organization_role\<close> before
  anything else. The locale states it once, every route of a workspace interprets it, and what
  a user without a membership, or a token scoped to another workspace, can see follows for all.
\<close>

section \<open>The contract of a guarded route\<close>

lemma outsider_role: "roles org d (p_user_id p) = None \<Longrightarrow> require_organization_role p org minimum d = Inl Forbidden"
  by (auto simp: require_organization_role_def roles_def bind_eq_None_conv split: option.splits)

lemma other_scope_role:
  "p_token_organization_id p = Some scope \<Longrightarrow> scope \<noteq> org \<Longrightarrow> require_organization_role p org minimum d = Inl Forbidden"
  by (simp add: require_organization_role_def)

lemma role_error: "require_organization_role p org minimum d = Inl e \<Longrightarrow> e = Forbidden"
  by (auto simp: require_organization_role_def split: option.splits if_splits)

lemma role_lower:
  "require_organization_role p org Viewer d = Inl e \<Longrightarrow> require_organization_role p org Admin d = Inl Forbidden"
  by (auto simp: require_organization_role_def split: option.splits if_splits)

locale guarded_route =
  fixes answer :: "Principal \<Rightarrow> uuid \<Rightarrow> db \<Rightarrow> 'r" and denied :: "db \<Rightarrow> 'r \<Rightarrow> bool"
  assumes guard: "require_organization_role p org Viewer d = Inl Forbidden \<Longrightarrow> denied d (answer p org d)"
begin

lemma outsider: "roles org d (p_user_id p) = None \<Longrightarrow> denied d (answer p org d)"
  by (rule guard [OF outsider_role])

lemma other_scope: "p_token_organization_id p = Some scope \<Longrightarrow> scope \<noteq> org \<Longrightarrow> denied d (answer p org d)"
  by (rule guard [OF other_scope_role])

end

text \<open>Reading routes answer \<open>Forbidden\<close>; the dashboard reads the role in its first query.\<close>

interpretation members_route: guarded_route "list_members E" "\<lambda>_ res. res = Inl Forbidden" for E
  by unfold_locales (simp add: list_members_def)

interpretation repositories_route: guarded_route "list_repositories E" "\<lambda>_ res. res = Inl Forbidden" for E
  by unfold_locales (simp add: list_repositories_def)

definition first_read :: "db \<Rightarrow> (query \<Rightarrow> snapshot) \<Rightarrow> query \<Rightarrow> snapshot" where
  "first_read d S = S(Q_role := (S Q_role)\<lparr>sn_db := d\<rparr>)"

lemma first_read_role: "sn_db (first_read d S Q_role) = d"
  by (simp add: first_read_def)

lemma first_read_same: "sn_db (S Q_role) = d \<Longrightarrow> first_read d S = S"
  by (auto simp: first_read_def)

interpretation overview_route: guarded_route "\<lambda>p org d. overview E (first_read d S) p org" "\<lambda>_ res. res = Inl Forbidden" for E S
  by unfold_locales (simp add: overview_def first_read_role)

interpretation insights_route: guarded_route "\<lambda>p org d. repository_insights E (first_read d S) p org repo"
  "\<lambda>_ res. res = Inl Forbidden" for E S repo
  by unfold_locales (simp add: repository_insights_def first_read_role)

interpretation run_route: guarded_route "\<lambda>p org d. run_detail E (first_read d S) p org run" "\<lambda>_ res. res = Some (Inl Forbidden)"
  for E S run
  by unfold_locales (simp add: run_detail_def first_read_role)

text \<open>The routes that talk to GitHub or write answer an error and touch nothing.\<close>

lemma session_cases: "require_session p = Inr () \<or> (\<exists>e. require_session p = Inl e)"
  by (cases "require_session p") auto

interpretation discover_route: guarded_route "\<lambda>p org d. discover E site now p org d r n"
  "\<lambda>d res. \<exists>e. res = Some (Inl e, d, r, n)" for E and site and now and r and n
proof
  show "require_organization_role p org Viewer d = Inl Forbidden \<Longrightarrow> \<exists>e. discover E site now p org d r n = Some (Inl e, d, r, n)" for p org d
    using session_cases [of p] by (auto simp: discover_def)
qed

interpretation enable_route: guarded_route "\<lambda>p org d. enable_tracking E site now p ctx org g d r n"
  "\<lambda>d res. \<exists>e. res = Some (Inl e, d, r, n)" for E and site and now and ctx and g and r and n
proof
  show "require_organization_role p org Viewer d = Inl Forbidden \<Longrightarrow>
      \<exists>e. enable_tracking E site now p ctx org g d r n = Some (Inl e, d, r, n)" for p org d
    using session_cases [of p] role_lower [of p org d] by (auto simp: enable_tracking_def)
qed

interpretation disable_route: guarded_route "\<lambda>p org d. disable_tracking p ctx org repo d"
  "\<lambda>d res. \<exists>e. res = (Inl e, d)" for ctx and repo
proof
  show "require_organization_role p org Viewer d = Inl Forbidden \<Longrightarrow> \<exists>e. disable_tracking p ctx org repo d = (Inl e, d)" for p org d
    using session_cases [of p] role_lower [of p org d] by (auto simp: disable_tracking_def)
qed

text \<open>A token for a workspace is issued to its members only.\<close>

interpretation token_route: guarded_route
  "\<lambda>p org d. create_token E encode getrandom utc now p ctx (request\<lparr>ct_organization_id := Some org\<rparr>) d"
  "\<lambda>d res. \<exists>e. res = Some (Inl e, d)" for E and encode and getrandom and utc and now and ctx and request
proof
  show "require_organization_role p org Viewer d = Inl Forbidden \<Longrightarrow>
      \<exists>e. create_token E encode getrandom utc now p ctx (request\<lparr>ct_organization_id := Some org\<rparr>) d = Some (Inl e, d)" for p org d
    using session_cases [of p] by (auto simp: create_token_def check_create_def Let_def)
qed

text \<open>The team's own routes check the role in their transaction, and take no token at all.\<close>

lemma outsider_transaction: "roles org d user = None \<Longrightarrow> require_transaction_role org user minimum d = Inl Forbidden"
  by (simp add: require_transaction_role_def roles_def)

lemma outsider_team:
  assumes "roles org d (p_user_id p) = None"
  shows "\<exists>e. add_member E now p context org request d = (Inl e, d)" and "\<exists>e. remove_member p context org user d = (Inl e, d)"
  using session_cases [of p] outsider_transaction [OF assms, of Admin]
  by (auto simp: add_member_def remove_member_def add_member_tx_def remove_member_tx_def transact_def split: sum.splits)

section \<open>Properties\<close>

text \<open>
  C19. A removed member is locked out of the workspace: once a removal succeeded, and as long as
  nobody gives the user a role again, whatever else changes, every route of the workspace
  refuses the user with any credential: the reading routes answer 403, the others change
  nothing, ask GitHub for nothing and issue no token for the workspace.
\<close>

theorem removed_member_is_locked_out:
  assumes "members_inv d" and "remove_member p context org user d = (Inr status, d')"
    and "roles org d2 user = roles org d' user" and "p_user_id q = user" and "sn_db (S Q_role) = d2"
  shows "list_members E q org d2 = Inl Forbidden \<and> list_repositories E q org d2 = Inl Forbidden \<and>
    overview E S q org = Inl Forbidden \<and> repository_insights E S q org repo = Inl Forbidden \<and>
    run_detail E S q org run = Some (Inl Forbidden) \<and>
    (\<exists>e. discover E site now q org d2 r n = Some (Inl e, d2, r, n)) \<and>
    (\<exists>e. enable_tracking E site now q c org g d2 r n = Some (Inl e, d2, r, n)) \<and>
    (\<exists>e. disable_tracking q c org repo d2 = (Inl e, d2)) \<and>
    (\<exists>e. add_member E now q c org request d2 = (Inl e, d2)) \<and>
    (\<exists>e. remove_member q c org other d2 = (Inl e, d2)) \<and>
    (\<exists>e. create_token E encode getrandom utc now q c (asked\<lparr>ct_organization_id := Some org\<rparr>) d2 = Some (Inl e, d2))"
proof -
  have out: "roles org d2 (p_user_id q) = None" using remove_member_effect [OF assms(1,2)] assms(3,4) by simp
  note S = first_read_same [of S d2, OF assms(5)]
  from overview_route.outsider [OF out, of E S] insights_route.outsider [OF out, of E S repo] run_route.outsider [OF out, of E S run]
  have dash: "overview E S q org = Inl Forbidden" "repository_insights E S q org repo = Inl Forbidden"
    "run_detail E S q org run = Some (Inl Forbidden)" unfolding S by auto
  show ?thesis
    by (intro conjI) (rule dash outsider_team [OF out] members_route.outsider [OF out] repositories_route.outsider [OF out]
      discover_route.outsider [OF out] enable_route.outsider [OF out] disable_route.outsider [OF out] token_route.outsider [OF out])+
qed

theorem removed_member_is_locked_out_witness:
  "\<exists>d'. remove_member (session_principal 3) demo_context 2 7 demo_team_db = (Inr 204, d') \<and>
     list_members demo_ext (session_principal 7) 2 d' = Inl Forbidden"
proof -
  have inv: "members_inv demo_team_db" using demo_team_inv by (simp add: org_inv_def)
  have actor: "3 \<in> set (map u_id (users demo_team_db))" by (simp add: demo_team_db_def demo_user_def)
  obtain x d' where run: "remove_member (session_principal 3) demo_context 2 7 demo_team_db = (Inr x, d')"
    using remove_member_succeeds_iff [OF inv actor] demo_is_team demo_may_remove by blast
  with removed_member_is_locked_out [OF inv run refl, of "session_principal 7" "\<lambda>_. (undefined :: snapshot)\<lparr>sn_db := d'\<rparr>" demo_ext]
    remove_member_effect [OF inv run]
  show ?thesis by (auto simp: session_principal_def)
qed

text \<open>A token scoped to one workspace reads nothing of another, whatever its user's role there.\<close>

theorem scoped_token_stays_in_scope:
  assumes "p_token_organization_id p = Some scope" and "scope \<noteq> org" and "sn_db (S Q_role) = d"
  shows "list_members E p org d = Inl Forbidden \<and> list_repositories E p org d = Inl Forbidden \<and>
    overview E S p org = Inl Forbidden \<and> repository_insights E S p org repo = Inl Forbidden \<and>
    run_detail E S p org run = Some (Inl Forbidden)"
  using members_route.other_scope [OF assms(1,2), of E d] repositories_route.other_scope [OF assms(1,2), of E d]
    overview_route.other_scope [OF assms(1,2), of E d S] insights_route.other_scope [OF assms(1,2), of E d S repo]
    run_route.other_scope [OF assms(1,2), of E d S run]
  unfolding first_read_same [of S d, OF assms(3)] by blast

end
