(* ===== verification/Spec2Isabelle.thy ===== *)
theory Spec2Isabelle
  imports Relay Api_Tokens Repositories Run_Capture Config Dashboard Health Pipeline Access
begin

text \<open>
  BuildLens collects GitHub Actions data. Its gateway, the Rust program under
  \<^verbatim>\<open>gateway/src\<close>, signs users in with GitHub, receives webhooks, imports repositories,
  stores what it learns in Postgres and publishes events through an outbox; an analytics
  service and an AI worker consume the events. This library models the gateway.

  \<^bold>\<open>The parts and how they interact.\<close> GitHub posts a delivery; the gateway checks its signature
  and stores it. A processor claims deliveries one at a time and applies each in one
  transaction, which upserts facts (workflows, runs, jobs, steps, commits, pull requests,
  branches) and enqueues events into the outbox; when a run completed, a background task then
  fetches its logs and test results. A relay publishes the outbox to RabbitMQ. The API resolves
  a request to a principal (session or API token), checks its role in a workspace and serves
  organizations, members, tokens, repositories and dashboards. Enabling a repository imports its history
  page by page. The GitHub App's installation tokens are minted on demand and cached in Redis.

  \<^bold>\<open>Conventions.\<close> A handler is a function from the database (\<open>db\<close>, one list of rows per table),
  Redis, the clock and what the environment answers, to an error or a result and the new state.
  A transaction body has type \<open>'a tx\<close>; \<open>transact\<close> commits it or rolls it back. A string holds
  the UTF-8 bytes of a Rust \<open>String\<close>. Errors are \<open>AppError\<close> values in the left of a sum. A panic and a
  wait for a reply that never comes are \<open>None\<close>. Row locks are modelled by running the
  transactions that take them one after another; the pages that read without a transaction get one
  snapshot per query. Rows that an \<open>ORDER BY\<close> leaves equal keep the table's order. Code that is not in the repository (AES-GCM,
  SHA-256, RSA, base64, URL and JSON libraries, case folding and collation of Postgres, the zip and XML readers, the S3 client) is
  an argument: the record \<open>ext\<close> and its companions \<open>libs\<close>, \<open>formats\<close>, \<open>aead\<close>, \<open>log_store\<close>.

  \<^bold>\<open>The theories.\<close>
  \<^item> \<open>Prelude\<close>: identifiers, timestamps, \<open>error.rs\<close>, the fact collections. \<open>Rust_Text\<close>: the \<open>str\<close>
    operations the code calls. \<open>Json\<close>: \<open>serde_json::Value\<close>, the readers \<open>derive(Deserialize)\<close> builds and
    the record \<open>ext\<close>. \<open>Float64\<close>: IEEE double arithmetic, parsing and saturation.
  \<^item> \<open>Tables\<close>: SQL statements on lists of rows; the locale \<open>keyed_table\<close> is the contract of an
    \<open>ON CONFLICT DO UPDATE\<close> and is interpreted for every table that is upserted. \<open>Schema\<close>: the tables
    of \<^verbatim>\<open>infra/migrations\<close>. \<open>Redis\<close>: the commands used, with expiry; the locale
    \<open>expiring_store\<close> is the contract the session and token caches rely on.
  \<^item> \<open>Events\<close> (\<open>events.rs\<close>) and \<open>Relay\<close> (\<open>relay.rs\<close>): the outbox. \<open>Loops\<close>: the polling loop that relay and
    webhook processor share, with the locale \<open>work_loop\<close> that gives enough fuel.
  \<^item> \<open>GitHub_Types\<close>, \<open>GitHub_Api\<close> (\<open>github_api.rs\<close>), \<open>GitHub_App\<close> (\<open>github_app.rs\<close>) and \<open>GitHub_OAuth\<close> (\<open>github.rs\<close>):
    payloads, the REST client over a queue of replies, installation tokens, the OAuth client.
  \<^item> \<open>Workflow_Ingest\<close> (\<open>workflow_ingest.rs\<close>) and \<open>Vcs_Ingest\<close> (the commit, branch and pull-request writers of
    \<open>webhooks.rs\<close> and \<open>repository_sync.rs\<close>): what is stored and which events are emitted.
  \<^item> \<open>Webhooks\<close> (\<open>webhooks.rs\<close>): receiving, claiming, applying, settling, recovery and the processor;
    \<open>Run_Capture\<close> (\<open>store_run_logs\<close> and the spawned task, \<open>logs.rs\<close>) and \<open>JUnit\<close> (\<open>junit.rs\<close>): what follows a completed run.
  \<^item> \<open>Repository_Sync\<close> (\<open>repository_sync.rs\<close>): the paginated import; the locale \<open>page_store\<close> is the contract of a
    resource's page function and is interpreted for the five resources.
  \<^item> \<open>Crypto\<close>, \<open>Sessions\<close>, \<open>Auth\<close> (with \<open>audit.rs\<close>), \<open>Organizations\<close>, \<open>Api_Tokens\<close>, \<open>Installations\<close>, \<open>Sign_In\<close> (with
    \<open>routes/me.rs\<close>), \<open>Repositories\<close>, \<open>Config\<close>, \<open>Health\<close>: the modules and routes of the same names.
  \<^item> \<open>Queries\<close>: \<open>ORDER BY\<close>, \<open>LIMIT\<close> and joins on lists; the locale \<open>sort_order\<close> is the contract of an ordering
    and is interpreted for every query that is read in order. \<open>Dashboard\<close> (\<open>routes/dashboard.rs\<close>): the pages.
  \<^item> \<open>Pipeline\<close>: webhook endpoint, processors and relays on one database, from GitHub's delivery to the broker.
    \<open>Access\<close>: the routes of one workspace together; the locale \<open>guarded_route\<close> is the contract of a route that
    asks for a role first and is interpreted for each of them.

  \<^bold>\<open>What is shown.\<close>
  \<^item> The outbox never loses an event, what is published was accepted by the broker, and every
    step is a run of an abstract at-least-once channel; a relay stops only when asked to.
  \<^item> Deliveries: an invariant over every interleaving of receiving, processing and
    recovery; failed deliveries change no facts; a tick ends. Ingestion is idempotent
    and its events are described exactly.
  \<^item> The import stores an unbroken walk of pages however often it fails, and ends on every finite network.
  \<^item> Across components: when a delivery reports that a run completed, its completion event reaches
    the outbox and stays accounted for until the broker accepted it or all attempts failed,
    whatever requests, processors, relays and imports do; nothing stored is lost on the way.
  \<^item> Sessions, tokens and roles: who a request acts as, on every branch; a revoked token stays
    dead; membership changes implement a stated policy and every team keeps an owner;
    a removed member is locked out of every route of the workspace.
  \<^item> Signing in and linking: the identity tables stay consistent, a cookie is set only for a
    live state, an installation is linked only for a user GitHub lists it for.
  \<^item> Repositories: enabling is one update of the tracking map and never crosses workspaces;
    a disabled repository's deliveries are ignored.
  \<^item> Dashboards: a page is a function of its own workspace's rows; attaching steps by vector
    position never goes out of range and gives each job its own steps; the run list holds the newest.
  \<^item> Captures: test results are exactly those of the archives, within the limits; durations
    survive binary floating point; the task touches nothing else.
  \<^item> A configuration that starts in production has no published placeholder; readiness is
    reported exactly when both stores answered.
  \<^item> Where the code departs from its intent, the departure is a theorem (an error text cut
    inside a character, a delivery blocked by an earlier bad signature, an owner demoted by an admin,
    a setup callback for deactivated users, archive limits that trust headers).

  \<^bold>\<open>Bounds and fuel.\<close> The polling loops take fuel; \<open>work_loop.enough_fuel\<close> shows that the remaining attempts of
  the claimable rows, plus one, are always enough, because every continuing round uses one attempt.
  Loops over the network recurse on the replies that are still to come. Integers
  that Rust bounds are bounded in the readers (\<open>de_i64\<close> and others) or are words; bytes are \<open>8 word\<close>.

  \<^bold>\<open>Not modelled.\<close> \<open>main.rs\<close>, \<open>state.rs\<close> and \<open>routes/mod.rs\<close> build connection pools, the listener and the
  routing table of axum: they only call libraries. Logging and tracing have no effect on state.
  The Java analytics service, the Python AI worker and the Next.js front end are other programs
  that meet the gateway only at the tables and the message bus. \<open>created_at\<close> and \<open>updated_at\<close> columns appear only where the code reads
  them.
\<close>

end
